(* ===== verification/Prelude.thy ===== *)
theory Prelude
  imports Main "HOL-Library.Word"
begin

text \<open>
  Shared material of the development: Go's error values and \<open>errors.Is\<close>, the two shapes of
  fallible code (a result that is an error or a value; a state together with an optional
  error), association-list lookups for Go maps, and the locale of inductive invariants that
  the state machines of the components instantiate.
\<close>

section \<open>Go errors\<close>

text \<open>
  The sentinel errors of the program are constructors, so that \<open>errors.Is\<close> compares them by
  identity. \<open>ErrMsg\<close> is a plain \<open>errors.New\<close> or \<open>fmt.Errorf\<close> value, \<open>Wrap\<close> is
  \<open>fmt.Errorf\<close> with one \<open>%w\<close> and \<open>Joined\<close> is \<open>errors.Join\<close>. \<open>ApiError\<close> is the
  struct \<open>apiError\<close> of \<open>main.go\<close> (status and message). \<open>ErrNotExist\<close> stands for
  \<open>os.ErrNotExist\<close>, \<open>Canceled\<close> and \<open>DeadlineExceeded\<close> for the two errors of
  \<open>context\<close>, and \<open>ServerClosed\<close> for \<open>http.ErrServerClosed\<close>.
\<close>

datatype gerror =
    ErrMsg string
  | LoginRequired
  | AmbiguousExchange
  | CredentialRejected
  | Canceled
  | DeadlineExceeded
  | ErrNotExist
  | ServerClosed
  | ApiError int string
  | Wrap string gerror
  | Joined "gerror list"

text \<open>\<open>errors.Is err target\<close> walks the wrapping tree.\<close>

fun errors_is :: "gerror \<Rightarrow> gerror \<Rightarrow> bool" where
  "errors_is (Wrap s e) t = (Wrap s e = t \<or> errors_is e t)"
| "errors_is (Joined es) t = (Joined es = t \<or> (\<exists>e \<in> set es. errors_is e t))"
| "errors_is e t = (e = t)"

lemma errors_is_refl [simp]: "errors_is e e"
  by (cases e) auto

text \<open>\<open>errors.As\<close> with an \<open>*apiError\<close> target: the first one found, depth first.\<close>

fun errors_as_api :: "gerror \<Rightarrow> (int \<times> string) option"
  and errors_as_api_list :: "gerror list \<Rightarrow> (int \<times> string) option" where
  "errors_as_api (ApiError st msg) = Some (st, msg)"
| "errors_as_api (Wrap s e) = errors_as_api e"
| "errors_as_api (Joined es) = errors_as_api_list es"
| "errors_as_api _ = None"
| "errors_as_api_list [] = None"
| "errors_as_api_list (e # es) =
     (case errors_as_api e of Some r \<Rightarrow> Some r | None \<Rightarrow> errors_as_api_list es)"

section \<open>Fallible code\<close>

text \<open>A Go function that returns a value or an error.\<close>

type_synonym 'a res = "gerror + 'a"

definition rbind :: "'e + 'a \<Rightarrow> ('a \<Rightarrow> 'e + 'b) \<Rightarrow> 'e + 'b" where
  "rbind m f = (case m of Inl e \<Rightarrow> Inl e | Inr x \<Rightarrow> f x)"

text \<open>
  A Go method that mutates its receiver and returns an \<open>error\<close>: the new state together with
  \<open>None\<close> for \<open>nil\<close>. \<open>andthen\<close> is \<open>if e := m; e != nil { return e }\<close> followed by
  the rest; the state reached at the error is kept, as it is in Go.
\<close>

type_synonym 's eff = "'s \<times> gerror option"

definition andthen :: "'s eff \<Rightarrow> ('s \<Rightarrow> 's eff) \<Rightarrow> 's eff" where
  "andthen m f = (case m of (s, None) \<Rightarrow> f s | (s, Some e) \<Rightarrow> (s, Some e))"

named_theorems inv_iff \<open>inversion of the two binds at a successful result\<close>

lemma rbind_Inl [simp]: "rbind (Inl e) f = Inl e"
  and rbind_Inr [simp]: "rbind (Inr x) f = f x"
  by (simp_all add: rbind_def)

lemma rbind_Inr_iff [inv_iff]: "rbind m f = Inr y \<longleftrightarrow> (\<exists>x. m = Inr x \<and> f x = Inr y)"
  by (cases m) auto

lemma andthen_simps [simp]:
  "andthen (s, None) f = f s"
  "andthen (s, Some e) f = (s, Some e)"
  by (simp_all add: andthen_def)

lemma andthen_ok_iff [inv_iff]:
  "andthen m f = (s', None) \<longleftrightarrow> (\<exists>s. m = (s, None) \<and> f s = (s', None))"
  by (cases m, cases "snd m") auto

text \<open>
  An invariant that holds whatever the outcome, and one that holds only when no error was
  returned, both pass through the sequencing.
\<close>

lemma andthen_always:
  assumes "P (fst m)" and "\<And>s. P s \<Longrightarrow> P (fst (f s))"
  shows "P (fst (andthen m f))"
  using assms by (cases m, cases "snd m") auto

lemma andthen_okE:
  assumes "andthen m f = (s', None)"
  obtains s where "m = (s, None)" and "f s = (s', None)"
  using assms by (auto simp: inv_iff)

section \<open>Maps as association lists\<close>

text \<open>
  A Go map whose iteration or length matters is an association list with distinct keys,
  read by \<^const>\<open>map_of\<close>; a map that is only read and written by key is a HOL map.
\<close>

definition mdel :: "'k \<Rightarrow> ('k \<times> 'v) list \<Rightarrow> ('k \<times> 'v) list" where
  "mdel k m = filter (\<lambda>p. fst p \<noteq> k) m"

definition mput :: "'k \<Rightarrow> 'v \<Rightarrow> ('k \<times> 'v) list \<Rightarrow> ('k \<times> 'v) list" where
  "mput k v m = (if k \<in> fst ` set m
     then map (\<lambda>p. if fst p = k then (k, v) else p) m else m @ [(k, v)])"

definition mwf :: "('k \<times> 'v) list \<Rightarrow> bool" where
  "mwf m \<longleftrightarrow> distinct (map fst m)"

lemma map_of_mdel [simp]: "map_of (mdel k m) = (map_of m)(k := None)"
  by (induction m) (auto simp: mdel_def)

lemma map_of_mput [simp]: "map_of (mput k v m) = (map_of m)(k \<mapsto> v)"
proof (cases "k \<in> fst ` set m")
  case True
  have "map_of (map (\<lambda>p. if fst p = k then (k, v) else p) m) x =
      (if x = k then (if k \<in> fst ` set m then Some v else None) else map_of m x)" for x
    by (induction m) force+
  with True show ?thesis by (auto simp: mput_def fun_eq_iff)
next
  case False
  then have "map_of m k = None" by (simp add: map_of_eq_None_iff)
  with False show ?thesis
    by (auto simp: mput_def fun_eq_iff map_add_def split: option.splits)
qed

lemma keys_mput: "map fst (mput k v m) = (if k \<in> fst ` set m then map fst m else map fst m @ [k])"
  by (auto simp: mput_def)

lemma mwf_mput [simp]: "mwf m \<Longrightarrow> mwf (mput k v m)"
  by (auto simp: mwf_def keys_mput)

lemma mwf_mdel [simp]: "mwf m \<Longrightarrow> mwf (mdel k m)"
  by (simp add: mwf_def mdel_def distinct_map_filter)

lemma mwf_filter [simp]: "mwf m \<Longrightarrow> mwf (filter P m)"
  by (simp add: mwf_def distinct_map_filter)

lemma mwf_Nil [simp]: "mwf []"
  by (simp add: mwf_def)

lemma length_mput: "length (mput k v m) = (if k \<in> fst ` set m then length m else Suc (length m))"
  by (simp add: mput_def)

lemma length_mdel_le: "length (mdel k m) \<le> length m"
  by (simp add: mdel_def)

lemma length_mdel_less: "k \<in> fst ` set m \<Longrightarrow> length (mdel k m) < length m"
  unfolding mdel_def by (auto intro!: length_filter_less)

section \<open>Inductive invariants\<close>

text \<open>
  The states a machine can reach, and the interface through which every machine of the
  development gets its invariant: a predicate that holds initially and is kept by each step.
\<close>

inductive reaches :: "('s \<Rightarrow> bool) \<Rightarrow> ('s \<Rightarrow> 's \<Rightarrow> bool) \<Rightarrow> 's \<Rightarrow> bool"
  for init :: "'s \<Rightarrow> bool" and step :: "'s \<Rightarrow> 's \<Rightarrow> bool" where
  reaches_init: "init s \<Longrightarrow> reaches init step s"
| reaches_step: "reaches init step s \<Longrightarrow> step s t \<Longrightarrow> reaches init step t"

locale inductive_invariant =
  fixes init :: "'s \<Rightarrow> bool"
    and step :: "'s \<Rightarrow> 's \<Rightarrow> bool"
    and inv :: "'s \<Rightarrow> bool"
  assumes inv_init: "init s \<Longrightarrow> inv s"
    and inv_step: "inv s \<Longrightarrow> step s t \<Longrightarrow> inv t"
begin

lemma reachable_inv: "reaches init step s \<Longrightarrow> inv s"
  by (induction rule: reaches.induct) (auto intro: inv_init inv_step)

lemma star_inv: "step\<^sup>*\<^sup>* s t \<Longrightarrow> inv s \<Longrightarrow> inv t"
  by (induction rule: rtranclp_induct) (auto intro: inv_step)

end

end
