(* ===== verification/GoText.thy ===== *)
theory GoText
  imports Prelude "HOL-Library.Code_Target_Nat"
begin

text \<open>
  What the program uses of Go's string library. A Go string is a sequence of bytes, here a
  list of \<^typ>\<open>char\<close>; functions that range over runes decode UTF-8 first, with U+FFFD and a
  width of one byte for an invalid sequence, as \<open>utf8.DecodeRune\<close> does. Numbers of the
  JSON decoder are sign, mantissa and decimal exponent: the binary rounding of
  \<open>float64\<close> is not modelled, its printing rules are.
\<close>

section \<open>Prefixes, suffixes, search\<close>

definition has_prefix :: "string \<Rightarrow> string \<Rightarrow> bool" where
  "has_prefix s p \<longleftrightarrow> take (length p) s = p"

definition has_suffix :: "string \<Rightarrow> string \<Rightarrow> bool" where
  "has_suffix s p \<longleftrightarrow> has_prefix (rev s) (rev p)"

definition trim_prefix :: "string \<Rightarrow> string \<Rightarrow> string" where
  "trim_prefix s p = (if has_prefix s p then drop (length p) s else s)"

text \<open>\<open>strings.Index\<close>: the first position of a substring.\<close>

fun str_index :: "string \<Rightarrow> string \<Rightarrow> nat option" where
  "str_index [] sub = (if sub = [] then Some 0 else None)"
| "str_index (c # cs) sub =
     (if has_prefix (c # cs) sub then Some 0 else map_option Suc (str_index cs sub))"

definition str_contains :: "string \<Rightarrow> string \<Rightarrow> bool" where
  "str_contains s sub \<longleftrightarrow> str_index s sub \<noteq> None"

lemma has_prefix_Nil [simp]: "has_prefix s []"
  by (simp add: has_prefix_def)

lemma has_prefix_refl [simp]: "has_prefix s s"
  by (simp add: has_prefix_def)

lemma has_prefixE:
  assumes "has_prefix s p" obtains q where "s = p @ q"
  using assms unfolding has_prefix_def by (metis append_take_drop_id)

lemma has_prefix_append [simp]: "has_prefix (p @ q) p"
  by (simp add: has_prefix_def)

lemma has_prefix_iff: "has_prefix s p \<longleftrightarrow> (\<exists>q. s = p @ q)"
  by (auto elim: has_prefixE)

lemma has_prefix_length: "has_prefix s p \<Longrightarrow> length p \<le> length s"
  by (auto simp: has_prefix_iff)

lemma trim_prefix_append [simp]: "trim_prefix (p @ q) p = q"
  by (simp add: trim_prefix_def)

lemma append_trim_prefix: "has_prefix s p \<Longrightarrow> p @ trim_prefix s p = s"
  by (auto simp: has_prefix_iff)

lemma has_suffix_iff: "has_suffix s p \<longleftrightarrow> (\<exists>q. s = q @ p)"
proof
  assume "has_suffix s p"
  then obtain q where "rev s = rev p @ q"
    unfolding has_suffix_def by (auto elim: has_prefixE)
  then have "s = rev q @ p" by (metis rev_append rev_rev_ident)
  then show "\<exists>q. s = q @ p" by blast
qed (auto simp: has_suffix_def)

lemma has_suffix_append [simp]: "has_suffix (q @ p) p"
  by (auto simp: has_suffix_iff)

section \<open>Runes\<close>

text \<open>One step of \<open>utf8.DecodeRuneInString\<close>: the rune and its width in bytes.\<close>

definition cont_byte :: "nat \<Rightarrow> bool" where
  "cont_byte b \<longleftrightarrow> 128 \<le> b \<and> b \<le> 191"

definition decode_rune :: "nat list \<Rightarrow> nat \<times> nat" where
  "decode_rune bs =
     (let b0 = (if bs = [] then 0 else bs ! 0); n = length bs; b = (\<lambda>i. bs ! i) in
      if b0 < 128 then (b0, 1)
      else if 194 \<le> b0 \<and> b0 \<le> 223 \<and> 2 \<le> n \<and> cont_byte (b 1)
        then ((b0 - 192) * 64 + (b 1 - 128), 2)
      else if 224 \<le> b0 \<and> b0 \<le> 239 \<and> 3 \<le> n \<and> cont_byte (b 1) \<and> cont_byte (b 2)
          \<and> (b0 = 224 \<longrightarrow> 160 \<le> b 1) \<and> (b0 = 237 \<longrightarrow> b 1 \<le> 159)
        then ((b0 - 224) * 4096 + (b 1 - 128) * 64 + (b 2 - 128), 3)
      else if 240 \<le> b0 \<and> b0 \<le> 244 \<and> 4 \<le> n \<and> cont_byte (b 1) \<and> cont_byte (b 2)
          \<and> cont_byte (b 3) \<and> (b0 = 240 \<longrightarrow> 144 \<le> b 1) \<and> (b0 = 244 \<longrightarrow> b 1 \<le> 143)
        then ((b0 - 240) * 262144 + (b 1 - 128) * 4096 + (b 2 - 128) * 64 + (b 3 - 128), 4)
      else (65533, 1))"

lemma decode_rune_width: "0 < snd (decode_rune bs)"
  by (simp add: decode_rune_def Let_def)

text \<open>The runes of a string, each with the bytes it was read from.\<close>

function rune_spans :: "string \<Rightarrow> (nat \<times> string) list" where
  "rune_spans [] = []"
| "rune_spans (c # cs) =
     (case decode_rune (map of_char (take 4 (c # cs))) of
        (r, w) \<Rightarrow> (r, take w (c # cs)) # rune_spans (drop w (c # cs)))"
  by pat_completeness auto
termination
proof (relation "measure length", simp)
  fix c :: char and cs r w
  assume "(r, w) = decode_rune (map of_char (take 4 (c # cs)))"
  then have "0 < w" using decode_rune_width by (metis snd_conv)
  then show "(drop w (c # cs), c # cs) \<in> measure length" by simp
qed

text \<open>On ASCII text a rune is a byte; this is also how closed strings are evaluated.\<close>

lemma rune_spans_ascii [simp]:
  "(of_char c :: nat) < 128 \<Longrightarrow> rune_spans (c # cs) = (of_char c, [c]) # rune_spans cs"
  by (simp add: decode_rune_def)

declare rune_spans.simps(2) [simp del]

definition runes :: "string \<Rightarrow> nat list" where
  "runes s = map fst (rune_spans s)"

text \<open>\<open>unicode.IsSpace\<close>.\<close>

definition is_space :: "nat \<Rightarrow> bool" where
  "is_space r \<longleftrightarrow> 9 \<le> r \<and> r \<le> 13 \<or> r = 32 \<or> r = 133 \<or> r = 160 \<or> r = 5760
     \<or> 8192 \<le> r \<and> r \<le> 8202 \<or> r = 8232 \<or> r = 8233 \<or> r = 8239 \<or> r = 8287 \<or> r = 12288"

definition trim_space :: "string \<Rightarrow> string" where
  "trim_space s = concat (map snd (rev (dropWhile (is_space \<circ> fst)
     (rev (dropWhile (is_space \<circ> fst) (rune_spans s))))))"

text \<open>
  \<open>unicode.ToLower\<close> as far as its result is an ASCII letter: the upper case letters, the
  Kelvin sign U+212A and the dotted capital I U+0130. Every other rune is kept, which no
  comparison with an ASCII string can tell from Go's mapping.
\<close>

definition rune_lower :: "nat \<Rightarrow> nat" where
  "rune_lower r = (if 65 \<le> r \<and> r \<le> 90 then r + 32
     else if r = 8490 then 107 else if r = 304 then 105 else r)"

definition to_lower :: "string \<Rightarrow> string" where
  "to_lower s = concat (map (\<lambda>(r, bs). if rune_lower r = r then bs else [char_of (rune_lower r)])
     (rune_spans s))"

text \<open>
  \<open>strings.EqualFold\<close> against an ASCII string: simple folding identifies the cases of a
  letter, the Kelvin sign with \<open>k\<close> and the long s U+017F with \<open>s\<close>.
\<close>

definition rune_fold :: "nat \<Rightarrow> nat" where
  "rune_fold r = (if 65 \<le> r \<and> r \<le> 90 then r + 32
     else if r = 8490 then 107 else if r = 383 then 115 else r)"

definition equal_fold :: "string \<Rightarrow> string \<Rightarrow> bool" where
  "equal_fold s t \<longleftrightarrow> map rune_fold (runes s) = map rune_fold (runes t)"

section \<open>Numbers\<close>

definition digit_char :: "nat \<Rightarrow> char" where
  "digit_char d = char_of (48 + d)"

fun show_nat :: "nat \<Rightarrow> string" where
  "show_nat n = (if n < 10 then [digit_char n] else show_nat (n div 10) @ [digit_char (n mod 10)])"

declare show_nat.simps [simp del]

definition show_int :: "int \<Rightarrow> string" where
  "show_int i = (if i < 0 then ''-'' @ show_nat (nat (- i)) else show_nat (nat i))"

text \<open>A JSON number: sign, mantissa \<open>m\<close> and exponent \<open>e\<close>, the value \<open>m * 10 ^ e\<close>.\<close>

datatype number = Number bool nat int

fun num_numer :: "number \<Rightarrow> int" where
  "num_numer (Number neg m e) = (if neg then - 1 else 1) * int m * 10 ^ nat e"

fun num_denom :: "number \<Rightarrow> int" where
  "num_denom (Number neg m e) = 10 ^ nat (- e)"

definition num_lt_int :: "number \<Rightarrow> int \<Rightarrow> bool" where
  "num_lt_int x k \<longleftrightarrow> num_numer x < k * num_denom x"

definition int_lt_num :: "int \<Rightarrow> number \<Rightarrow> bool" where
  "int_lt_num k x \<longleftrightarrow> k * num_denom x < num_numer x"

lemma num_denom_pos: "0 < num_denom x"
  by (cases x) simp

text \<open>
  \<open>int(v)\<close> of a \<open>float64\<close>: truncation towards zero, with the result amd64 gives when the
  value does not fit 64 bits.
\<close>

definition num_trunc :: "number \<Rightarrow> int" where
  "num_trunc x = sgn (num_numer x) * (\<bar>num_numer x\<bar> div num_denom x)"

definition num_to_int :: "number \<Rightarrow> int" where
  "num_to_int x = (if - (2 ^ 63) \<le> num_trunc x \<and> num_trunc x < 2 ^ 63 then num_trunc x else - (2 ^ 63))"

text \<open>\<open>int\<close> addition wraps at 64 bits.\<close>

definition int64 :: "int \<Rightarrow> int" where
  "int64 i = (i + 2 ^ 63) mod 2 ^ 64 - 2 ^ 63"

lemma int64_range: "- (2 ^ 63) \<le> int64 i \<and> int64 i < 2 ^ 63"
  by (simp add: int64_def)

lemma int64_id: "- (2 ^ 63) \<le> i \<Longrightarrow> i < 2 ^ 63 \<Longrightarrow> int64 i = i"
  by (simp add: int64_def)

text \<open>
  The significant digits of a mantissa without trailing zeros, and the decimal point's
  position: the value is \<open>0.d\<^sub>1d\<^sub>2... * 10 ^ p\<close>.
\<close>

definition num_digits :: "nat \<Rightarrow> string" where
  "num_digits m = rev (dropWhile (\<lambda>c. c = CHR ''0'') (rev (show_nat m)))"

definition num_point :: "nat \<Rightarrow> int \<Rightarrow> int" where
  "num_point m e = int (length (show_nat m)) + e"

text \<open>\<open>strconv.FormatFloat(v, 'f', -1, 64)\<close>.\<close>

definition zeros :: "nat \<Rightarrow> string" where
  "zeros n = replicate n (CHR ''0'')"

fun fmt_float :: "number \<Rightarrow> string" where
  "fmt_float (Number neg m e) =
     (let ds = num_digits m; p = num_point m e; sg = (if neg then ''-'' else '''') in
      if m = 0 then sg @ ''0''
      else if p \<le> 0 then sg @ ''0.'' @ zeros (nat (- p)) @ ds
      else if int (length ds) \<le> p then sg @ ds @ zeros (nat p - length ds)
      else sg @ take (nat p) ds @ ''.'' @ drop (nat p) ds)"

text \<open>
  The number format of \<open>encoding/json\<close>: as above, but with an exponent below \<open>1e-6\<close> and
  from \<open>1e21\<close> on (two exponent digits at least when it is positive).
\<close>

fun fmt_json_float :: "number \<Rightarrow> string" where
  "fmt_json_float (Number neg m e) =
     (let ds = num_digits m; p = num_point m e; x = p - 1; sg = (if neg then ''-'' else '''') in
      if m = 0 \<or> - 6 \<le> x \<and> x < 21 then fmt_float (Number neg m e)
      else sg @ take 1 ds @ (if length ds = 1 then '''' else ''.'' @ drop 1 ds) @
           (if x < 0 then ''e-'' @ show_nat (nat (- x))
            else ''e+'' @ (if x < 10 then ''0'' else '''') @ show_nat (nat x)))"

end
