(* ===== verification/Json.thy ===== *)
theory Json
  imports GoText "HOL-Library.List_Lexorder" "HOL-Library.Char_ord"
begin

text \<open>
  What the program uses of \<open>encoding/json\<close>: the decoder of one value (strict syntax, escapes
  and surrogate pairs), \<open>json.Valid\<close>, decoding into \<open>any\<close>, into \<open>map[string]RawMessage\<close>
  and into string and boolean fields of a struct, and the encoder of decoded values. Members
  of an object are kept in source order with duplicates; the readers take the last one, as
  Go's map assignment does. The decoder's nesting limit of 10000 and the replacement of
  invalid UTF-8 inside strings are not modelled.
\<close>

datatype json =
    JNull
  | JBool bool
  | JNum number
  | JStr string
  | JArr "json list"
  | JObj "(string \<times> json) list"

type_synonym jobj = "(string \<times> json) list"

section \<open>Lexical level\<close>

definition ws_char :: "char \<Rightarrow> bool" where
  "ws_char c \<longleftrightarrow> c = CHR '' '' \<or> c = CHR 0x09 \<or> c = CHR 0x0A \<or> c = CHR 0x0D"

definition skip_ws :: "string \<Rightarrow> string" where
  "skip_ws s = dropWhile ws_char s"

definition digit_val :: "char \<Rightarrow> nat option" where
  "digit_val c = (let n = of_char c in if 48 \<le> n \<and> n \<le> 57 then Some (n - 48) else None)"

definition is_digit :: "char \<Rightarrow> bool" where
  "is_digit c \<longleftrightarrow> digit_val c \<noteq> None"

definition hex_val :: "char \<Rightarrow> nat option" where
  "hex_val c = (let n = of_char c in
     if 48 \<le> n \<and> n \<le> 57 then Some (n - 48)
     else if 97 \<le> n \<and> n \<le> 102 then Some (n - 87)
     else if 65 \<le> n \<and> n \<le> 70 then Some (n - 55) else None)"

definition hex4 :: "string \<Rightarrow> nat option" where
  "hex4 s = (if length s < 4 then None else
     (case map hex_val (take 4 s) of
        [Some a, Some b, Some c, Some d] \<Rightarrow> Some (a * 4096 + b * 256 + c * 16 + d)
      | _ \<Rightarrow> None))"

definition nat_of_digits :: "string \<Rightarrow> nat" where
  "nat_of_digits s = foldl (\<lambda>n c. 10 * n + (case digit_val c of Some d \<Rightarrow> d | None \<Rightarrow> 0)) 0 s"

text \<open>\<open>utf8.EncodeRune\<close>; a surrogate half is written as U+FFFD.\<close>

definition encode_rune :: "nat \<Rightarrow> string" where
  "encode_rune r0 = (let r = (if 55296 \<le> r0 \<and> r0 \<le> 57343 then 65533 else r0) in
     map char_of
      (if r < 128 then [r]
       else if r < 2048 then [192 + r div 64, 128 + r mod 64]
       else if r < 65536 then [224 + r div 4096, 128 + r div 64 mod 64, 128 + r mod 64]
       else [240 + r div 262144, 128 + r div 4096 mod 64, 128 + r div 64 mod 64, 128 + r mod 64]))"

definition simple_escape :: "char \<Rightarrow> char option" where
  "simple_escape c =
     (if c = CHR 0x22 \<or> c = CHR 0x5C \<or> c = CHR ''/'' then Some c
      else if c = CHR ''b'' then Some (CHR 0x08)
      else if c = CHR ''f'' then Some (CHR 0x0C)
      else if c = CHR ''n'' then Some (CHR 0x0A)
      else if c = CHR ''r'' then Some (CHR 0x0D)
      else if c = CHR ''t'' then Some (CHR 0x09) else None)"

text \<open>The rest of a string literal after its opening quote: the text and what follows.\<close>

function pstring :: "string \<Rightarrow> (string \<times> string) option" where
  "pstring [] = None"
| "pstring (c # cs) =
     (if c = CHR 0x22 then Some ([], cs)
      else if (of_char c :: nat) < 32 then None
      else if c = CHR 0x5C then
        (case cs of
           [] \<Rightarrow> None
         | e # r \<Rightarrow>
             if e = CHR ''u'' then
               (case hex4 r of
                  None \<Rightarrow> None
                | Some h \<Rightarrow>
                    (case (if 55296 \<le> h \<and> h \<le> 56319 \<and> take 2 (drop 4 r) = [CHR 0x5C, CHR ''u'']
                           then hex4 (drop 6 r) else None) of
                       Some l \<Rightarrow>
                         if 56320 \<le> l \<and> l \<le> 57343
                         then map_option (\<lambda>(t, u). (encode_rune (65536 + (h - 55296) * 1024 + (l - 56320)) @ t, u))
                                (pstring (drop 10 r))
                         else map_option (\<lambda>(t, u). (encode_rune h @ t, u)) (pstring (drop 4 r))
                     | None \<Rightarrow> map_option (\<lambda>(t, u). (encode_rune h @ t, u)) (pstring (drop 4 r))))
             else
               (case simple_escape e of
                  None \<Rightarrow> None
                | Some d \<Rightarrow> map_option (\<lambda>(t, u). (d # t, u)) (pstring r)))
      else map_option (\<lambda>(t, u). (c # t, u)) (pstring cs))"
  by pat_completeness auto
termination
  by (relation "measure length") auto

text \<open>A number literal.\<close>

definition pdigits :: "string \<Rightarrow> string \<times> string" where
  "pdigits s = (takeWhile is_digit s, dropWhile is_digit s)"

definition pfrac :: "string \<Rightarrow> (string \<times> string) option" where
  "pfrac s = (if take 1 s = ''.'' then
       (let (d, r) = pdigits (drop 1 s) in if d = [] then None else Some (d, r))
     else Some ([], s))"

definition pexp :: "string \<Rightarrow> (int \<times> string) option" where
  "pexp s = (if take 1 s = ''e'' \<or> take 1 s = ''E'' then
       (let t = drop 1 s;
            neg = (take 1 t = ''-'');
            u = (if take 1 t = ''-'' \<or> take 1 t = ''+'' then drop 1 t else t);
            (d, r) = pdigits u
        in if d = [] then None
           else Some ((if neg then - 1 else 1) * int (nat_of_digits d), r))
     else Some (0, s))"

definition pnumber :: "string \<Rightarrow> (number \<times> string) option" where
  "pnumber s =
     (let neg = (take 1 s = ''-''); t = (if neg then drop 1 s else s); (d, r) = pdigits t in
      if d = [] \<or> take 1 d = ''0'' \<and> 1 < length d then None
      else (case pfrac r of
              None \<Rightarrow> None
            | Some (f, r2) \<Rightarrow>
                (case pexp r2 of
                   None \<Rightarrow> None
                 | Some (e, r3) \<Rightarrow>
                     Some (Number neg (nat_of_digits (d @ f)) (e - int (length f)), r3))))"

section \<open>Values\<close>

text \<open>
  The value parser, with fuel: \<open>pvalue\<close> a value, \<open>pelems\<close> the elements of a nonempty array
  up to its bracket, \<open>pmembers\<close> the members of a nonempty object. \<open>parse_fuel_mono\<close> below
  shows that the fuel \<open>parse_json\<close> gives is enough: more never changes the result.
\<close>

fun pvalue :: "nat \<Rightarrow> string \<Rightarrow> (json \<times> string) option"
  and pelems :: "nat \<Rightarrow> string \<Rightarrow> (json list \<times> string) option"
  and pmembers :: "nat \<Rightarrow> string \<Rightarrow> ((string \<times> json) list \<times> string) option" where
  "pvalue 0 s = None"
| "pvalue (Suc n) s =
     (let t = skip_ws s; c = take 1 t; r = drop 1 t in
      if c = ''{'' then
        (if take 1 (skip_ws r) = ''}'' then Some (JObj [], drop 1 (skip_ws r))
         else map_option (\<lambda>(m, u). (JObj m, u)) (pmembers n r))
      else if c = ''['' then
        (if take 1 (skip_ws r) = '']'' then Some (JArr [], drop 1 (skip_ws r))
         else map_option (\<lambda>(xs, u). (JArr xs, u)) (pelems n r))
      else if c = [CHR 0x22] then map_option (\<lambda>(x, u). (JStr x, u)) (pstring r)
      else if take 4 t = ''null'' then Some (JNull, drop 4 t)
      else if take 4 t = ''true'' then Some (JBool True, drop 4 t)
      else if take 5 t = ''false'' then Some (JBool False, drop 5 t)
      else map_option (\<lambda>(x, u). (JNum x, u)) (pnumber t))"
| "pelems 0 s = None"
| "pelems (Suc n) s =
     (case pvalue n s of
        None \<Rightarrow> None
      | Some (v, r) \<Rightarrow>
          (let t = skip_ws r in
           if take 1 t = '']'' then Some ([v], drop 1 t)
           else if take 1 t = '','' then map_option (\<lambda>(vs, u). (v # vs, u)) (pelems n (drop 1 t))
           else None))"
| "pmembers 0 s = None"
| "pmembers (Suc n) s =
     (let a = skip_ws s in
      if take 1 a \<noteq> [CHR 0x22] then None
      else (case pstring (drop 1 a) of
              None \<Rightarrow> None
            | Some (k, b) \<Rightarrow>
                (let c = skip_ws b in
                 if take 1 c \<noteq> '':'' then None
                 else (case pvalue n (drop 1 c) of
                         None \<Rightarrow> None
                       | Some (v, r) \<Rightarrow>
                           (let t = skip_ws r in
                            if take 1 t = ''}'' then Some ([(k, v)], drop 1 t)
                            else if take 1 t = '','' then
                              map_option (\<lambda>(m, u). ((k, v) # m, u)) (pmembers n (drop 1 t))
                            else None)))))"

declare pvalue.simps [simp del] pelems.simps [simp del] pmembers.simps [simp del]

definition fuel_for :: "string \<Rightarrow> nat" where
  "fuel_for s = 2 * length s + 2"

text \<open>A whole document: one value and nothing but white space after it.\<close>

definition parse_json :: "string \<Rightarrow> json option" where
  "parse_json s =
     (case pvalue (fuel_for s) s of
        Some (v, r) \<Rightarrow> if skip_ws r = [] then Some v else None
      | None \<Rightarrow> None)"

definition json_valid :: "string \<Rightarrow> bool" where
  "json_valid s \<longleftrightarrow> parse_json s \<noteq> None"

subsection \<open>The fuel is enough\<close>

text \<open>
  Every parser consumes input, so twice the length of the text bounds the depth of the calls.
\<close>

lemma skip_ws_le: "length (skip_ws s) \<le> length s"
  by (simp add: skip_ws_def length_dropWhile_le)

lemma pstring_shorter: "pstring s = Some (t, u) \<Longrightarrow> length u < length s"
proof (induction s arbitrary: t u rule: pstring.induct)
  case (2 c cs)
  then show ?case
    by (force split: if_splits list.splits option.splits)
qed simp

lemma pnumber_shorter:
  assumes "pnumber s = Some (x, r)" shows "length r < length s"
proof -
  have d: "length (dropWhile is_digit t) + length (takeWhile is_digit t) = length t" for t
    by (metis add.commute length_append takeWhile_dropWhile_id)
  have d': "length (dropWhile is_digit t) \<le> length t" for t using d [of t] by simp
  have f: "pfrac t = Some (d, r) \<Longrightarrow> length r \<le> length t" for t d r
    using d' [of "drop 1 t"] by (auto simp: pfrac_def pdigits_def split: if_splits)
  have e: "pexp t = Some (d, r) \<Longrightarrow> length r \<le> length t" for t d r
    using d' [of "drop 1 t"] d' [of "drop 2 t"]
    by (auto simp: pexp_def pdigits_def Let_def numeral_2_eq_2 drop_Suc split: if_splits)
  let ?t = "if take 1 s = ''-'' then drop 1 s else s"
  from assms obtain fr r2 ex where *: "takeWhile is_digit ?t \<noteq> []"
      "pfrac (dropWhile is_digit ?t) = Some (fr, r2)" "pexp r2 = Some (ex, r)"
    unfolding pnumber_def pdigits_def Let_def prod.case
    by (auto split: if_splits option.splits prod.splits)
  have "length (dropWhile is_digit ?t) < length ?t"
    using * d [of ?t] by (metis add.right_neutral length_greater_0_conv less_add_same_cancel1)
  moreover have "length ?t \<le> length s" by simp
  ultimately show ?thesis using f [OF *(2)] e [OF *(3)] by linarith
qed

lemma parse_shorter:
  "pvalue n s = Some (v, r) \<Longrightarrow> length r < length s"
  "pelems n s = Some (vs, r) \<Longrightarrow> length r < length s"
  "pmembers n s = Some (m, r) \<Longrightarrow> length r < length s"
proof (induction n s and n s and n s arbitrary: v r and vs r and m r
    rule: pvalue_pelems_pmembers.induct)
  case (2 n s)
  show ?case
  proof (cases "skip_ws s")
    case Nil
    then show ?thesis using 2(3) by (auto simp: pvalue.simps dest: pnumber_shorter)
  next
    case (Cons c t)
    have "length (c # t) \<le> length s" using skip_ws_le [of s] Cons by simp
    then show ?thesis
      using 2(3) 2(1) [OF refl refl refl] 2(2) [OF refl refl refl] skip_ws_le [of t]
      unfolding pvalue.simps Let_def Cons
      by (force split: if_splits dest!: pstring_shorter pnumber_shorter)
  qed
next
  case (4 n s)
  from 4(3) obtain v' r' where v: "pvalue n s = Some (v', r')"
    by (auto simp: pelems.simps split: option.splits)
  have r: "length r' < length s" by (rule 4(1) [OF v])
  have "length (drop 1 (skip_ws r')) \<le> length r'" using skip_ws_le [of r'] by simp
  then show ?case
    using 4(3) v r 4(2) [OF v refl refl]
    by (force simp: pelems.simps Let_def split: if_splits)
next
  case (6 n s)
  from 6(3) obtain k b where k: "pstring (drop 1 (skip_ws s)) = Some (k, b)"
    and q: "take 1 (skip_ws s) = [CHR 0x22]" and c: "take 1 (skip_ws b) = '':''"
    by (auto simp: pmembers.simps Let_def split: option.splits if_splits)
  with 6(3) obtain v' r' where v: "pvalue n (drop 1 (skip_ws b)) = Some (v', r')"
    by (auto simp: pmembers.simps Let_def split: option.splits)
  have b: "length b < length s"
    using pstring_shorter [OF k] skip_ws_le [of s] by simp
  have r: "length r' < length s"
    using 6(1) [of _ _ k b _ v' r'] k q c v b skip_ws_le [of b] by force
  have "length (drop 1 (skip_ws r')) \<le> length r'" using skip_ws_le [of r'] by simp
  then show ?case
    using 6(3) v r k q c 6(2) [of _ _ k b _ _ v' r' _ ]
    by (force simp: pmembers.simps Let_def split: if_splits)
qed (simp_all add: pvalue.simps pelems.simps pmembers.simps)

lemma parse_fuel_Suc:
  "2 * length s < n \<Longrightarrow> pvalue (Suc n) s = pvalue n s"
  "2 * length s + 1 < n \<Longrightarrow> pelems (Suc n) s = pelems n s"
  "2 * length s + 1 < n \<Longrightarrow> pmembers (Suc n) s = pmembers n s"
proof (induction n s and n s and n s rule: pvalue_pelems_pmembers.induct)
  case (2 n s)
  show ?case
  proof (cases "skip_ws s")
    case Nil
    then show ?thesis by (simp add: pvalue.simps)
  next
    case (Cons c t)
    have "length (c # t) \<le> length s" using skip_ws_le [of s] Cons by simp
    with 2(3) have "2 * length t + 1 < n" by simp
    with 2(1) [OF refl refl refl] 2(2) [OF refl refl refl] show ?thesis
      unfolding pvalue.simps Let_def Cons by simp
  qed
next
  case (4 n s)
  have v: "pvalue (Suc n) s = pvalue n s" using 4(1,3) by simp
  show ?case
  proof (cases "pvalue n s")
    case None
    with v show ?thesis by (simp add: pelems.simps)
  next
    case (Some p)
    then obtain v' r' where p: "pvalue n s = Some (v', r')" by (cases p) auto
    have l: "length (drop 1 (skip_ws r')) \<le> length r'" using skip_ws_le [of r'] by simp
    have "length r' < length s" using parse_shorter(1) [OF p] .
    with l 4(3) have "2 * length (drop 1 (skip_ws r')) + 1 < n" by linarith
    then have "pelems (Suc n) (drop 1 (skip_ws r')) = pelems n (drop 1 (skip_ws r'))"
      if "take 1 (skip_ws r') = '',''" using 4(2) [OF p refl refl] that by simp
    then show ?thesis
      using v p by (simp only: pelems.simps) (auto simp: Let_def)
  qed
next
  case (6 n s)
  show ?case
  proof (cases "take 1 (skip_ws s) = [CHR 0x22]")
    case q: True
    show ?thesis
    proof (cases "pstring (drop 1 (skip_ws s))")
      case None
      with q show ?thesis by (simp add: pmembers.simps)
    next
      case (Some kb)
      then obtain k b where k: "pstring (drop 1 (skip_ws s)) = Some (k, b)" by (cases kb) auto
      have b: "length b < length s" using pstring_shorter [OF k] skip_ws_le [of s] by simp
      have "length (drop 1 (skip_ws b)) \<le> length b" using skip_ws_le [of b] by simp
      with b 6(3) have lb: "2 * length (drop 1 (skip_ws b)) < n" by linarith
      then have v: "pvalue (Suc n) (drop 1 (skip_ws b)) = pvalue n (drop 1 (skip_ws b))"
        if "take 1 (skip_ws b) = '':''" using 6(1) [of _ _ k b] k q that by simp
      show ?thesis
      proof (cases "take 1 (skip_ws b) = '':'' \<and> pvalue n (drop 1 (skip_ws b)) \<noteq> None")
        case False
        then show ?thesis using q k v by (auto simp: pmembers.simps(2) Let_def split: option.splits)
      next
        case True
        then obtain v' r' where p: "pvalue n (drop 1 (skip_ws b)) = Some (v', r')" by auto
        have l: "length (drop 1 (skip_ws r')) \<le> length r'" using skip_ws_le [of r'] by simp
        have "length r' < length s"
          using parse_shorter(1) [OF p] b skip_ws_le [of b] by simp
        with l 6(3) have "2 * length (drop 1 (skip_ws r')) + 1 < n" by linarith
        then have "pmembers (Suc n) (drop 1 (skip_ws r')) = pmembers n (drop 1 (skip_ws r'))"
          if "take 1 (skip_ws r') = '',''"
          using 6(2) [of _ _ k b _ _ v' r'] k q p True that by simp
        then show ?thesis
          using v p True q k by (simp only: pmembers.simps) (auto simp: Let_def)
      qed
    qed
  next
    case False
    then show ?thesis by (simp add: pmembers.simps)
  qed
qed simp_all

lemma parse_fuel_mono: "fuel_for s \<le> n \<Longrightarrow> pvalue n s = pvalue (fuel_for s) s"
proof (induction n rule: dec_induct)
  case (step n)
  then show ?case using parse_fuel_Suc(1) [of s n] by (simp add: fuel_for_def)
qed simp

subsection \<open>Decoding into any\<close>

text \<open>
  Decoding into \<open>any\<close> fails on a number beyond the range of \<open>float64\<close> (from
  \<open>2^1024 - 2^970\<close> on, the bound of rounding to infinity).
\<close>

fun num_in_range :: "number \<Rightarrow> bool" where
  "num_in_range (Number neg m e) \<longleftrightarrow>
     m = 0 \<or> int (length (show_nat m)) + e \<le> 308 \<or>
     int (length (show_nat m)) + e \<le> 309 \<and>
       int m * 10 ^ nat e < (2 ^ 1024 - 2 ^ 970) * 10 ^ nat (- e)"

fun nums_ok :: "json \<Rightarrow> bool" where
  "nums_ok (JNum x) = num_in_range x"
| "nums_ok (JArr xs) = (\<forall>x \<in> set xs. nums_ok x)"
| "nums_ok (JObj m) = (\<forall>(k, v) \<in> set m. nums_ok v)"
| "nums_ok _ = True"

definition unmarshal_any :: "string \<Rightarrow> json option" where
  "unmarshal_any s = (case parse_json s of Some v \<Rightarrow> if nums_ok v then Some v else None | None \<Rightarrow> None)"

text \<open>Into \<open>map[string]any\<close>: \<open>null\<close> leaves the nil map, here \<open>Some None\<close>.\<close>

definition unmarshal_map :: "string \<Rightarrow> jobj option option" where
  "unmarshal_map s = (case unmarshal_any s of
     Some (JObj m) \<Rightarrow> Some (Some m) | Some JNull \<Rightarrow> Some None | _ \<Rightarrow> None)"

section \<open>Reading decoded values\<close>

text \<open>\<open>v, ok := m[k]\<close>, and \<open>m[k]\<close> where a missing key gives \<open>nil\<close>.\<close>

definition jget :: "jobj \<Rightarrow> string \<Rightarrow> json option" where
  "jget m k = map_of (rev m) k"

definition jfield :: "jobj \<Rightarrow> string \<Rightarrow> json" where
  "jfield m k = (case jget m k of Some v \<Rightarrow> v | None \<Rightarrow> JNull)"

text \<open>
  Struct decoding. Go matches a key to a field exactly or under case folding; members are
  assigned in order; \<open>null\<close> leaves a string or boolean field as it is; another type is an
  error. A nested struct collects the members of every matching object.
\<close>

definition key_matches :: "string \<Rightarrow> string \<Rightarrow> bool" where
  "key_matches name k \<longleftrightarrow> k = name \<or> equal_fold k name"

definition field_values :: "string \<Rightarrow> jobj \<Rightarrow> json list" where
  "field_values name m = map snd (filter (\<lambda>(k, v). key_matches name k) m)"

fun assign_str :: "string \<Rightarrow> json list \<Rightarrow> string option" where
  "assign_str acc [] = Some acc"
| "assign_str acc (JStr s # vs) = assign_str s vs"
| "assign_str acc (JNull # vs) = assign_str acc vs"
| "assign_str acc (v # vs) = None"

definition struct_str :: "string \<Rightarrow> jobj \<Rightarrow> string option" where
  "struct_str name m = assign_str [] (field_values name m)"

fun assign_obj :: "json list \<Rightarrow> jobj option" where
  "assign_obj [] = Some []"
| "assign_obj (JObj m # vs) = map_option (\<lambda>m'. m @ m') (assign_obj vs)"
| "assign_obj (JNull # vs) = assign_obj vs"
| "assign_obj (v # vs) = None"

definition struct_obj :: "string \<Rightarrow> jobj \<Rightarrow> jobj option" where
  "struct_obj name m = assign_obj (field_values name m)"

section \<open>Raw members\<close>

text \<open>
  \<open>map[string]json.RawMessage\<close>: each member's value as its source text (no surrounding
  space). The reader walks the members with the value parser.
\<close>

fun praw :: "nat \<Rightarrow> string \<Rightarrow> (string \<times> string) list option" where
  "praw 0 s = None"
| "praw (Suc n) s =
     (case pstring (drop 1 (skip_ws s)) of
        None \<Rightarrow> None
      | Some (k, b) \<Rightarrow>
          (let v = skip_ws (drop 1 (skip_ws b)) in
           (case pvalue (fuel_for v) v of
              None \<Rightarrow> None
            | Some (_, r) \<Rightarrow>
                (let t = skip_ws r; raw = take (length v - length r) v in
                 if take 1 t = ''}'' then Some [(k, raw)]
                 else map_option (\<lambda>m. (k, raw) # m) (praw n (drop 1 t))))))"

definition raw_members :: "string \<Rightarrow> (string \<times> string) list option option" where
  "raw_members s =
     (case parse_json s of
        Some JNull \<Rightarrow> Some None
      | Some (JObj []) \<Rightarrow> Some (Some [])
      | Some (JObj m) \<Rightarrow> map_option Some (praw (length s) (drop 1 (skip_ws s)))
      | _ \<Rightarrow> None)"

section \<open>Encoding\<close>

definition hex_char :: "nat \<Rightarrow> char" where
  "hex_char d = char_of (if d < 10 then 48 + d else 87 + d)"

definition escape_char :: "char \<Rightarrow> string" where
  "escape_char c =
     (let n = of_char c in
      if c = CHR 0x22 \<or> c = CHR 0x5C then [CHR 0x5C, c]
      else if n = 8 then [CHR 0x5C, CHR ''b''] else if n = 12 then [CHR 0x5C, CHR ''f'']
      else if n = 10 then [CHR 0x5C, CHR ''n''] else if n = 13 then [CHR 0x5C, CHR ''r'']
      else if n = 9 then [CHR 0x5C, CHR ''t'']
      else if n < 32 \<or> c = CHR ''<'' \<or> c = CHR ''>'' \<or> c = CHR ''&''
        then [CHR 0x5C] @ ''u00'' @ [hex_char (n div 16), hex_char (n mod 16)]
      else [c])"

definition quote_str :: "string \<Rightarrow> string" where
  "quote_str s = [CHR 0x22] @ concat (map escape_char s) @ [CHR 0x22]"

fun commas :: "string list \<Rightarrow> string" where
  "commas [] = []"
| "commas [x] = x"
| "commas (x # y # ys) = x @ '','' @ commas (y # ys)"

text \<open>\<open>json.Marshal\<close> of a decoded value: map keys in order, one member per key.\<close>

fun marshal :: "json \<Rightarrow> string" where
  "marshal JNull = ''null''"
| "marshal (JBool b) = (if b then ''true'' else ''false'')"
| "marshal (JNum x) = fmt_json_float x"
| "marshal (JStr s) = quote_str s"
| "marshal (JArr xs) = ''['' @ commas (map marshal xs) @ '']''"
| "marshal (JObj m) =
     (let kv = map (\<lambda>(k, v). (k, marshal v)) m in
      ''{'' @ commas (map (\<lambda>k. quote_str k @ '':'' @ (case map_of (rev kv) k of Some t \<Rightarrow> t | None \<Rightarrow> []))
                (sort (remdups (map fst kv)))) @ ''}'')"

text \<open>JSON in closed examples: a grave accent stands for a double quote.\<close>

definition dq :: "string \<Rightarrow> string" where
  "dq s = map (\<lambda>c. if c = CHR 0x60 then CHR 0x22 else c) s"

end
