(* ===== verification/ChatTypes.thy ===== *)
theory ChatTypes
  imports Json "HOL-Library.Multiset"
begin

text \<open>
  The data of \<open>types.go\<close> and its request checks: message normalisation, the tool choice,
  \<open>validateRequest\<close> (with the default it writes into a tool's parameters),
  \<open>validateToolHistory\<close> and \<open>decodeChatRequest\<close>. The OpenAI SDK's decoder is a parameter
  of the last; the texts of the JSON library's own errors are one constant.
\<close>

section \<open>Data\<close>

record fn_call =
  fn_name :: string
  fn_args :: string

record tool_call =
  tc_id :: string
  tc_type :: string
  tc_fn :: fn_call

record message =
  m_role :: string
  m_content :: string
  m_calls :: "tool_call list"
  m_call_id :: string
  m_name :: string

record message_input =
  mi_role :: string
  mi_content :: string
  mi_calls :: "tool_call list"
  mi_name :: string
  mi_call_id :: string

record tool =
  t_type :: string
  t_name :: string
  t_desc :: string
  t_params :: string
  t_strict :: "bool option"

record chat_request =
  r_model :: string
  r_messages :: "message list"
  r_stream :: bool
  r_tools :: "tool list"
  r_tool_choice :: string
  r_parallel :: "bool option"
  r_max_tokens :: int
  r_max_completion :: int
  r_temperature :: "number option"
  r_top_p :: "number option"
  r_include_usage :: bool
  r_choice :: string

record usage =
  u_input :: int
  u_output :: int
  u_total :: int
  u_cached :: "int option"
  u_reasoning :: "int option"

record completion =
  c_message :: message
  c_reasoning :: string
  c_usage :: "usage option"
  c_finish :: string

record delta =
  d_text :: string
  d_reasoning :: string
  d_call :: "tool_call option"
  d_index :: nat
  d_heartbeat :: bool
  d_start :: bool
  d_model :: string

definition empty_message :: message where
  "empty_message = \<lparr>m_role = [], m_content = [], m_calls = [], m_call_id = [], m_name = []\<rparr>"

definition empty_completion :: completion where
  "empty_completion = \<lparr>c_message = empty_message, c_reasoning = [], c_usage = None, c_finish = []\<rparr>"

definition empty_delta :: delta where
  "empty_delta = \<lparr>d_text = [], d_reasoning = [], d_call = None, d_index = 0,
     d_heartbeat = False, d_start = False, d_model = []\<rparr>"

definition json_error :: gerror where
  "json_error = ErrMsg ''json''"

text \<open>\<open>%q\<close> of \<open>fmt\<close>, on ASCII text.\<close>

definition quote_char :: "char \<Rightarrow> string" where
  "quote_char c =
     (let n = of_char c in
      if c = CHR 0x22 \<or> c = CHR 0x5C then [CHR 0x5C, c]
      else if n = 7 then [CHR 0x5C, CHR ''a''] else if n = 8 then [CHR 0x5C, CHR ''b'']
      else if n = 12 then [CHR 0x5C, CHR ''f''] else if n = 10 then [CHR 0x5C, CHR ''n'']
      else if n = 13 then [CHR 0x5C, CHR ''r''] else if n = 9 then [CHR 0x5C, CHR ''t'']
      else if n = 11 then [CHR 0x5C, CHR ''v'']
      else if n < 32 \<or> n = 127 then [CHR 0x5C, CHR ''x'', hex_char (n div 16), hex_char (n mod 16)]
      else [c])"

definition go_quote :: "string \<Rightarrow> string" where
  "go_quote s = [CHR 0x22] @ concat (map quote_char s) @ [CHR 0x22]"

section \<open>Messages\<close>

text \<open>
  The parts of a block content are decoded first, all of them, then checked one by one:
  \<open>decode_parts\<close> is the call of \<open>json.Unmarshal\<close>, \<open>join_parts\<close> the loop.
\<close>

fun decode_parts :: "json list \<Rightarrow> (string \<times> string) list option" where
  "decode_parts [] = Some []"
| "decode_parts (v # vs) =
     (case v of
        JNull \<Rightarrow> map_option (\<lambda>ps. ([], []) # ps) (decode_parts vs)
      | JObj m \<Rightarrow>
          (case (struct_str ''type'' m, struct_str ''text'' m) of
             (Some ty, Some tx) \<Rightarrow> map_option (\<lambda>ps. (ty, tx) # ps) (decode_parts vs)
           | _ \<Rightarrow> None)
      | _ \<Rightarrow> None)"

fun join_parts :: "string \<Rightarrow> (string \<times> string) list \<Rightarrow> string res" where
  "join_parts b [] = Inr b"
| "join_parts b ((ty, tx) # ps) =
     (if ty \<noteq> ''text'' \<and> ty \<noteq> ''input_text'' \<and> ty \<noteq> ''output_text''
      then Inl (ErrMsg (''content type '' @ go_quote ty @ '' is unsupported; only text is supported''))
      else join_parts (b @ tx) ps)"

definition text_content :: "string \<Rightarrow> string res" where
  "text_content raw =
     (if raw = [] \<or> raw = ''null'' then Inr []
      else (case parse_json raw of
              Some (JStr s) \<Rightarrow> Inr s
            | Some JNull \<Rightarrow> Inr []
            | Some (JArr xs) \<Rightarrow>
                (case decode_parts xs of
                   None \<Rightarrow> Inl (ErrMsg ''content must be text or text blocks'')
                 | Some ps \<Rightarrow> join_parts [] ps)
            | _ \<Rightarrow> Inl (ErrMsg ''content must be text or text blocks'')))"

definition default_call_type :: "tool_call \<Rightarrow> tool_call" where
  "default_call_type c = (if tc_type c = [] then c\<lparr>tc_type := ''function''\<rparr> else c)"

definition normalize_message :: "message_input \<Rightarrow> message res" where
  "normalize_message v =
     rbind (text_content (mi_content v)) (\<lambda>text.
       Inr \<lparr>m_role = mi_role v, m_content = text, m_calls = map default_call_type (mi_calls v),
            m_call_id = mi_call_id v, m_name = mi_name v\<rparr>)"

section \<open>Tool choice\<close>

definition choice_error :: gerror where
  "choice_error = ErrMsg ''tool_choice must be auto, none, required or a named function''"

text \<open>The name a tool choice gives: a string, or the name of a function object.\<close>

definition choice_text :: "string \<Rightarrow> string res" where
  "choice_text raw =
     (case parse_json raw of
        Some (JStr s) \<Rightarrow> Inr s
      | Some JNull \<Rightarrow> Inr []
      | Some (JObj m) \<Rightarrow>
          (case (struct_str ''type'' m, Option.bind (struct_obj ''function'' m) (struct_str ''name'')) of
             (Some ty, Some nm) \<Rightarrow>
               if ty \<noteq> ''function'' \<or> nm = [] then Inl choice_error else Inr nm
           | _ \<Rightarrow> Inl choice_error)
      | _ \<Rightarrow> Inl choice_error)"

definition choice_name :: "string \<Rightarrow> tool list \<Rightarrow> string res" where
  "choice_name raw tools =
     (if raw = [] \<or> raw = ''null'' then Inr ''auto''
      else rbind (choice_text raw) (\<lambda>s.
        if s = ''auto'' \<or> s = ''none'' then Inr s
        else if s = ''required'' \<and> tools \<noteq> [] then Inr s
        else if \<exists>t \<in> set tools. t_name t = s then Inr s
        else Inl (ErrMsg ''tool_choice must select an available tool'')))"

section \<open>Request validation\<close>

definition default_params :: string where
  "default_params = ''{'' @ [CHR 0x22] @ ''type'' @ [CHR 0x22] @ '':'' @ [CHR 0x22] @ ''object''
     @ [CHR 0x22] @ '','' @ [CHR 0x22] @ ''properties'' @ [CHR 0x22] @ '':{}}''"

definition with_default_params :: "tool \<Rightarrow> tool" where
  "with_default_params t = (if t_params t = [] then t\<lparr>t_params := default_params\<rparr> else t)"

text \<open>The parameters decode into a non-nil \<open>map[string]any\<close>.\<close>

definition schema_ok :: "string \<Rightarrow> bool" where
  "schema_ok p \<longleftrightarrow> (case unmarshal_map p of Some (Some m) \<Rightarrow> True | _ \<Rightarrow> False)"

text \<open>
  The loop over \<open>r.Tools\<close>: \<open>seen\<close> holds the names before the current one. The tools are
  returned with the defaults written so far, also on an error.
\<close>

fun check_tools :: "string list \<Rightarrow> tool list \<Rightarrow> tool list \<times> gerror option" where
  "check_tools seen [] = ([], None)"
| "check_tools seen (t # ts) =
     (if t_type t \<noteq> ''function'' \<or> t_name t = []
        then (t # ts, Some (ErrMsg ''only named function tools are supported''))
      else if t_name t \<in> set seen
        then (t # ts, Some (ErrMsg (''duplicate tool name '' @ go_quote (t_name t))))
      else if \<not> schema_ok (t_params (with_default_params t))
        then (with_default_params t # ts, Some (ErrMsg ''tool parameters must be a JSON object''))
      else (case check_tools (seen @ [t_name t]) ts of
              (ts', e) \<Rightarrow> (with_default_params t # ts', e)))"

definition roles :: "string list" where
  "roles = [''user'', ''assistant'', ''system'', ''developer'', ''tool'']"

fun check_calls :: "string \<Rightarrow> tool_call list \<Rightarrow> gerror option" where
  "check_calls role [] = None"
| "check_calls role (c # cs) =
     (if role \<noteq> ''assistant'' \<or> tc_type c \<noteq> ''function'' \<or> tc_id c = []
         \<or> fn_name (tc_fn c) = [] \<or> \<not> json_valid (fn_args (tc_fn c))
      then Some (ErrMsg ''invalid assistant tool call'')
      else check_calls role cs)"

fun check_messages :: "message list \<Rightarrow> gerror option" where
  "check_messages [] = None"
| "check_messages (m # ms) =
     (if m_role m \<notin> set roles
        then Some (ErrMsg (''unsupported role '' @ go_quote (m_role m)))
      else if m_role m = ''tool'' \<and> m_call_id m = []
        then Some (ErrMsg ''tool message requires tool_call_id'')
      else (case check_calls (m_role m) (m_calls m) of
              Some e \<Rightarrow> Some e
            | None \<Rightarrow> check_messages ms))"

text \<open>\<open>validateRequest\<close> works on a pointer: the request it leaves and its error.\<close>

definition validate_request :: "chat_request \<Rightarrow> chat_request eff" where
  "validate_request r =
     (if r_messages r = [] then (r, Some (ErrMsg ''messages/input is required''))
      else if r_max_tokens r < 0 \<or> r_max_completion r < 0
        then (r, Some (ErrMsg ''token limits must be positive''))
      else if (case r_temperature r of None \<Rightarrow> False | Some x \<Rightarrow> num_lt_int x 0 \<or> int_lt_num 2 x)
        then (r, Some (ErrMsg ''temperature must be between 0 and 2''))
      else if (case r_top_p r of None \<Rightarrow> False | Some x \<Rightarrow> num_lt_int x 0 \<or> int_lt_num 1 x)
        then (r, Some (ErrMsg ''top_p must be between 0 and 1''))
      else (case check_tools [] (r_tools r) of
        (ts, Some e) \<Rightarrow> (r\<lparr>r_tools := ts\<rparr>, Some e)
      | (ts, None) \<Rightarrow>
          (case check_messages (r_messages r) of
             Some e \<Rightarrow> (r\<lparr>r_tools := ts\<rparr>, Some e)
           | None \<Rightarrow>
               (case choice_name (r_tool_choice r) ts of
                  Inl e \<Rightarrow> (r\<lparr>r_tools := ts, r_choice := []\<rparr>, Some e)
                | Inr s \<Rightarrow> (r\<lparr>r_tools := ts, r_choice := s\<rparr>, None)))))"

section \<open>The tool protocol of a history\<close>

text \<open>\<open>validateToolHistory\<close>, with the key sets of \<open>pending\<close> and \<open>seen\<close>.\<close>

fun add_calls :: "string set \<Rightarrow> string set \<Rightarrow> tool_call list \<Rightarrow> gerror + (string set \<times> string set)" where
  "add_calls pending seen [] = Inr (pending, seen)"
| "add_calls pending seen (c # cs) =
     (if tc_id c \<in> seen then Inl (ErrMsg (''duplicate tool call id '' @ go_quote (tc_id c)))
      else add_calls (insert (tc_id c) pending) (insert (tc_id c) seen) cs)"

fun tool_history :: "string set \<Rightarrow> string set \<Rightarrow> message list \<Rightarrow> gerror option" where
  "tool_history pending seen [] =
     (if pending \<noteq> {} then Some (ErrMsg ''all pending tool calls require results'') else None)"
| "tool_history pending seen (m # ms) =
     (if m_role m = ''tool'' then
        (if m_call_id m \<notin> pending
         then Some (ErrMsg (''tool result has no pending call '' @ go_quote (m_call_id m)))
         else tool_history (pending - {m_call_id m}) seen ms)
      else if pending \<noteq> {}
        then Some (ErrMsg ''pending tool calls require their results before another message'')
      else (case add_calls pending seen (m_calls m) of
              Inl e \<Rightarrow> Some e
            | Inr (pending', seen') \<Rightarrow> tool_history pending' seen' ms))"

definition validate_tool_history :: "message list \<Rightarrow> gerror option" where
  "validate_tool_history ms = tool_history {} {} ms"

section \<open>What the checks accept\<close>

definition call_ok :: "string \<Rightarrow> tool_call \<Rightarrow> bool" where
  "call_ok role c \<longleftrightarrow> role = ''assistant'' \<and> tc_type c = ''function'' \<and> tc_id c \<noteq> []
     \<and> fn_name (tc_fn c) \<noteq> [] \<and> json_valid (fn_args (tc_fn c))"

definition message_ok :: "message \<Rightarrow> bool" where
  "message_ok m \<longleftrightarrow> m_role m \<in> set roles \<and> (m_role m = ''tool'' \<longrightarrow> m_call_id m \<noteq> [])
     \<and> (\<forall>c \<in> set (m_calls m). call_ok (m_role m) c)"

definition tool_ok :: "tool \<Rightarrow> bool" where
  "tool_ok t \<longleftrightarrow> t_type t = ''function'' \<and> t_name t \<noteq> [] \<and> schema_ok (t_params (with_default_params t))"

definition in_unit_range :: "int \<Rightarrow> number option \<Rightarrow> bool" where
  "in_unit_range hi x \<longleftrightarrow> (case x of None \<Rightarrow> True | Some v \<Rightarrow> \<not> num_lt_int v 0 \<and> \<not> int_lt_num hi v)"

definition request_ok :: "chat_request \<Rightarrow> bool" where
  "request_ok r \<longleftrightarrow> r_messages r \<noteq> [] \<and> 0 \<le> r_max_tokens r \<and> 0 \<le> r_max_completion r
     \<and> in_unit_range 2 (r_temperature r) \<and> in_unit_range 1 (r_top_p r)
     \<and> (\<forall>t \<in> set (r_tools r). tool_ok t) \<and> distinct (map t_name (r_tools r))
     \<and> (\<forall>m \<in> set (r_messages r). message_ok m)
     \<and> (\<exists>s. choice_name (r_tool_choice r) (r_tools r) = Inr s)"

lemma check_calls_iff: "check_calls role cs = None \<longleftrightarrow> (\<forall>c \<in> set cs. call_ok role c)"
  by (induction cs) (auto simp: call_ok_def)

lemma check_messages_iff: "check_messages ms = None \<longleftrightarrow> (\<forall>m \<in> set ms. message_ok m)"
  by (induction ms) (auto simp: message_ok_def check_calls_iff [symmetric] split: option.splits)

lemma with_default_params_simps [simp]:
  "t_type (with_default_params t) = t_type t"
  "t_name (with_default_params t) = t_name t"
  "with_default_params (with_default_params t) = with_default_params t"
  by (simp_all add: with_default_params_def default_params_def)

lemma check_tools_iff:
  "check_tools seen ts = (ts', None) \<longleftrightarrow>
     (\<forall>t \<in> set ts. tool_ok t) \<and> distinct (map t_name ts) \<and> set seen \<inter> t_name ` set ts = {}
     \<and> ts' = map with_default_params ts"
proof (induction ts arbitrary: seen ts')
  case (Cons t ts)
  obtain us e where us: "check_tools (seen @ [t_name t]) ts = (us, e)" by fastforce
  have "(e = None) \<longleftrightarrow> (\<forall>t \<in> set ts. tool_ok t) \<and> distinct (map t_name ts)
      \<and> set (seen @ [t_name t]) \<inter> t_name ` set ts = {}"
    and "e = None \<Longrightarrow> us = map with_default_params ts"
    using Cons.IH [of "seen @ [t_name t]" us] Cons.IH [of "seen @ [t_name t]" "map with_default_params ts"] us
    by auto
  then show ?case using us by (auto simp: tool_ok_def)
qed auto

lemma choice_name_defaults [simp]:
  "choice_name raw (map with_default_params ts) = choice_name raw ts"
  by (cases "choice_text raw") (simp_all add: choice_name_def)

lemma validate_request_past_guards:
  assumes "r_messages r \<noteq> []" "0 \<le> r_max_tokens r" "0 \<le> r_max_completion r"
    "in_unit_range 2 (r_temperature r)" "in_unit_range 1 (r_top_p r)"
  shows "validate_request r = (case check_tools [] (r_tools r) of
      (ts, Some e) \<Rightarrow> (r\<lparr>r_tools := ts\<rparr>, Some e)
    | (ts, None) \<Rightarrow>
        (case check_messages (r_messages r) of
           Some e \<Rightarrow> (r\<lparr>r_tools := ts\<rparr>, Some e)
         | None \<Rightarrow>
             (case choice_name (r_tool_choice r) ts of
                Inl e \<Rightarrow> (r\<lparr>r_tools := ts, r_choice := []\<rparr>, Some e)
              | Inr s \<Rightarrow> (r\<lparr>r_tools := ts, r_choice := s\<rparr>, None))))"
proof -
  obtain ts e where ts: "check_tools [] (r_tools r) = (ts, e)" by fastforce
  have range: "\<not> (case r_temperature r of None \<Rightarrow> False | Some x \<Rightarrow> num_lt_int x 0 \<or> int_lt_num 2 x)"
    "\<not> (case r_top_p r of None \<Rightarrow> False | Some x \<Rightarrow> num_lt_int x 0 \<or> int_lt_num 1 x)"
    using assms(4,5) by (auto simp: in_unit_range_def split: option.splits)
  show ?thesis
    unfolding validate_request_def ts using assms(1-3) range
    by (cases e) (simp_all add: Let_def)
qed

lemma validate_request_guards:
  assumes "validate_request r = (r', None)"
  shows "r_messages r \<noteq> []" "0 \<le> r_max_tokens r" "0 \<le> r_max_completion r"
    "in_unit_range 2 (r_temperature r)" "in_unit_range 1 (r_top_p r)"
  using assms unfolding validate_request_def in_unit_range_def
  by (cases "r_temperature r"; cases "r_top_p r"; force split: if_splits)+

lemma validate_request_accepts:
  "validate_request r = (r', None) \<longleftrightarrow> request_ok r
     \<and> (\<exists>s. choice_name (r_tool_choice r) (r_tools r) = Inr s
          \<and> r' = r\<lparr>r_tools := map with_default_params (r_tools r), r_choice := s\<rparr>)"
  (is "?L \<longleftrightarrow> ?R")
proof
  assume L: ?L
  note guards = validate_request_guards [OF L]
  note unf = validate_request_past_guards [OF guards]
  from L unf obtain ts where ts: "check_tools [] (r_tools r) = (ts, None)"
    by (cases "check_tools [] (r_tools r)") (auto split: option.splits)
  with L unf have "check_messages (r_messages r) = None"
    and "\<exists>s. choice_name (r_tool_choice r) ts = Inr s \<and> r' = r\<lparr>r_tools := ts, r_choice := s\<rparr>"
    by (auto split: option.splits sum.splits)
  moreover note ts [unfolded check_tools_iff]
  ultimately show ?R using guards by (auto simp: request_ok_def check_messages_iff)
next
  assume R: ?R
  then have "check_tools [] (r_tools r) = (map with_default_params (r_tools r), None)"
    and "check_messages (r_messages r) = None"
    by (simp_all add: request_ok_def check_tools_iff check_messages_iff)
  then show ?L
    using R by (subst validate_request_past_guards) (auto simp: request_ok_def)
qed

text \<open>
  C1. \<open>validateRequest\<close> accepts exactly the requests of \<open>request_ok\<close>: at least one message,
  limits that are not negative, sampling values in range, named function tools with distinct
  names and object schemas, messages with known roles and well-formed tool calls, and a tool
  choice that can be met. An accepted request changes only in the defaulted tool parameters
  and the resolved choice.
\<close>

theorem validate_request_iff:
  "validate_request r = (r', None) \<longleftrightarrow> request_ok r
     \<and> (\<exists>s. choice_name (r_tool_choice r) (r_tools r) = Inr s
          \<and> r' = r\<lparr>r_tools := map with_default_params (r_tools r), r_choice := s\<rparr>)"
  by (rule validate_request_accepts)

lemma schema_ok_default: "schema_ok default_params"
  by code_simp

text \<open>
  Validation is idempotent: the request it returns validates again, to itself. So the
  defaults it writes (an empty object schema) are values it accepts.
\<close>

theorem validate_request_idem:
  assumes "validate_request r = (r', None)"
  shows "validate_request r' = (r', None)"
proof -
  from assms obtain s where ok: "request_ok r"
    and s: "choice_name (r_tool_choice r) (r_tools r) = Inr s"
    and r': "r' = r\<lparr>r_tools := map with_default_params (r_tools r), r_choice := s\<rparr>"
    by (auto simp: validate_request_accepts)
  have "request_ok r'"
    using ok s by (auto simp: request_ok_def r' tool_ok_def comp_def)
  then show ?thesis using s by (auto simp: validate_request_accepts r' comp_def)
qed

definition sample_request :: chat_request where
  "sample_request = \<lparr>r_model = ''auto'',
     r_messages = [empty_message\<lparr>m_role := ''user'', m_content := ''hi''\<rparr>], r_stream = True,
     r_tools = [\<lparr>t_type = ''function'', t_name = ''f'', t_desc = [], t_params = [], t_strict = None\<rparr>],
     r_tool_choice = [], r_parallel = None, r_max_tokens = 0, r_max_completion = 0,
     r_temperature = Some (Number False 15 (- 1)), r_top_p = None, r_include_usage = False,
     r_choice = []\<rparr>"

definition sample_validated :: chat_request where
  "sample_validated = sample_request\<lparr>r_tools := map with_default_params (r_tools sample_request),
     r_choice := ''auto''\<rparr>"

lemma sample_validates: "validate_request sample_request = (sample_validated, None)"
  by code_simp

theorem validate_request_idem_witness:
  "validate_request sample_request = (sample_validated, None) \<and>
   validate_request sample_validated = (sample_validated, None)"
  using sample_validates validate_request_idem [OF sample_validates] by simp

section \<open>The abstract tool protocol\<close>

text \<open>
  What a client must send: a history is a sequence of turns, each a message that is no tool
  result, followed by exactly one result for each call it makes, in any order. Call ids are
  never used twice in a history; \<open>used\<close> holds those of the earlier turns.
\<close>

inductive answered :: "string set \<Rightarrow> message list \<Rightarrow> bool" where
  answered_end: "answered used []"
| answered_turn:
    "m_role m \<noteq> ''tool'' \<Longrightarrow> ids = map tc_id (m_calls m) \<Longrightarrow> distinct ids
     \<Longrightarrow> set ids \<inter> used = {} \<Longrightarrow> \<forall>t \<in> set results. m_role t = ''tool''
     \<Longrightarrow> mset (map m_call_id results) = mset ids
     \<Longrightarrow> answered (used \<union> set ids) rest \<Longrightarrow> answered used (m # results @ rest)"

lemma add_calls_iff:
  "add_calls p s cs = Inr (p', s') \<longleftrightarrow> distinct (map tc_id cs) \<and> set (map tc_id cs) \<inter> s = {}
     \<and> p' = p \<union> set (map tc_id cs) \<and> s' = s \<union> set (map tc_id cs)"
  by (induction cs arbitrary: p s) auto

lemma tool_history_results:
  "tool_history pending seen ms = None \<longleftrightarrow>
     (\<exists>results rest. ms = results @ rest \<and> (\<forall>t \<in> set results. m_role t = ''tool'')
        \<and> distinct (map m_call_id results) \<and> set (map m_call_id results) = pending
        \<and> tool_history {} seen rest = None)"
  (is "_ \<longleftrightarrow> ?R pending ms")
proof (induction ms arbitrary: pending)
  case Nil
  then show ?case by auto
next
  case (Cons m ms)
  show ?case
  proof (cases "pending = {}")
    case True
    then show ?thesis by (auto intro: exI [of _ "[]"])
  next
    case False
    show ?thesis
    proof
      assume *: "tool_history pending seen (m # ms) = None"
      with False have m: "m_role m = ''tool''" "m_call_id m \<in> pending"
        and "tool_history (pending - {m_call_id m}) seen ms = None"
        by (auto split: if_splits)
      then have "?R (pending - {m_call_id m}) ms" using Cons.IH by blast
      then obtain results rest where "ms = results @ rest" "\<forall>t \<in> set results. m_role t = ''tool''"
        "distinct (map m_call_id results)" "set (map m_call_id results) = pending - {m_call_id m}"
        "tool_history {} seen rest = None" by blast
      with m show "?R pending (m # ms)"
        by (intro exI [of _ "m # results"] exI [of _ rest]) auto
    next
      assume "?R pending (m # ms)"
      then obtain results rest where r: "m # ms = results @ rest"
        "\<forall>t \<in> set results. m_role t = ''tool''" "distinct (map m_call_id results)"
        "set (map m_call_id results) = pending" "tool_history {} seen rest = None" by blast
      with False obtain results' where "results = m # results'" by (cases results) auto
      with r have m: "m_role m = ''tool''" "m_call_id m \<in> pending" by auto
      have "?R (pending - {m_call_id m}) ms"
        by (rule exI [of _ results'], rule exI [of _ rest]) (use r \<open>results = m # results'\<close> in \<open>auto simp: image_iff\<close>)
      with m show "tool_history pending seen (m # ms) = None" using Cons.IH by auto
    qed
  qed
qed

lemma tool_history_sound: "answered seen ms \<Longrightarrow> tool_history {} seen ms = None"
proof (induction rule: answered.induct)
  case (answered_turn m ids used results rest)
  have "distinct (map m_call_id results) \<and> set (map m_call_id results) = set ids"
    using answered_turn(3,6) by (metis mset_eq_setD distinct_count_atmost_1 set_mset_mset)
  then have "tool_history (set ids) (used \<union> set ids) (results @ rest) = None"
    using answered_turn(5,8) by (subst tool_history_results) blast
  moreover have "add_calls {} used (m_calls m) = Inr (set ids, used \<union> set ids)"
    using answered_turn(2-4) by (simp add: add_calls_iff)
  ultimately show ?case using answered_turn(1) by simp
qed simp

lemma tool_history_complete: "tool_history {} seen ms = None \<Longrightarrow> answered seen ms"
proof (induction ms arbitrary: seen rule: length_induct)
  case (1 ms)
  show ?case
  proof (cases ms)
    case Nil
    then show ?thesis by (simp add: answered_end)
  next
    case (Cons m ms')
    have hist: "tool_history {} seen (m # ms') = None" using "1.prems" Cons by simp
    then have m: "m_role m \<noteq> ''tool''" by (auto split: if_splits)
    with hist obtain p s where "add_calls {} seen (m_calls m) = Inr (p, s)"
      and t: "tool_history p s ms' = None"
      by (auto split: sum.splits prod.splits)
    then have ids: "distinct (map tc_id (m_calls m))" "set (map tc_id (m_calls m)) \<inter> seen = {}"
      "p = set (map tc_id (m_calls m))" "s = seen \<union> set (map tc_id (m_calls m))"
      by (auto simp: add_calls_iff)
    from t obtain results rest where r: "ms' = results @ rest"
      "\<forall>t \<in> set results. m_role t = ''tool''" "distinct (map m_call_id results)"
      "set (map m_call_id results) = p" "tool_history {} s rest = None"
      using tool_history_results [THEN iffD1, OF t] by blast
    have "length rest < length ms" using r(1) Cons by simp
    then have "answered s rest" using "1.IH" r(5) by blast
    moreover have "mset (map m_call_id results) = mset (map tc_id (m_calls m))"
      using r(3,4) ids(1,3) set_eq_iff_mset_eq_distinct by blast
    ultimately show ?thesis
      unfolding Cons r(1) using m ids r(2) by (intro answered_turn [OF m refl]) simp_all
  qed
qed

text \<open>
  C2. \<open>validateToolHistory\<close> implements the protocol: it accepts a history if and only if the
  history is a sequence of answered turns with fresh call ids.
\<close>

theorem validate_tool_history_iff: "validate_tool_history ms = None \<longleftrightarrow> answered {} ms"
  using tool_history_sound tool_history_complete by (auto simp: validate_tool_history_def)

end
