(* ===== verification/ApiValues.thy ===== *)
theory ApiValues
  imports ChatTypes
begin

text \<open>
  The readers of loosely typed upstream JSON: \<open>apiObjectValue\<close>, \<open>apiFirstString\<close>,
  \<open>field\<close>, \<open>records\<close> and \<open>positiveInt\<close> of \<open>models.go\<close>, their copies \<open>objectValue\<close>
  and \<open>firstString\<close> in \<open>auth.go\<close>, and \<open>parseUsage\<close> of \<open>upstream.go\<close>. A nil map
  reads like an empty one.
\<close>

definition api_object :: "json \<Rightarrow> jobj option" where
  "api_object v =
     (case v of
        JObj m \<Rightarrow> Some m
      | JStr s \<Rightarrow> (case unmarshal_map s of Some (Some m) \<Rightarrow> Some m | _ \<Rightarrow> None)
      | _ \<Rightarrow> None)"

fun api_first_string :: "jobj \<Rightarrow> string list \<Rightarrow> string" where
  "api_first_string m [] = []"
| "api_first_string m (k # ks) =
     (case jfield m k of
        JStr v \<Rightarrow> if v \<noteq> [] then v else api_first_string m ks
      | JNum x \<Rightarrow> fmt_float x
      | _ \<Rightarrow> api_first_string m ks)"

definition object_value :: "json \<Rightarrow> jobj option" where
  "object_value v =
     (case v of
        JObj m \<Rightarrow> Some m
      | JStr s \<Rightarrow> (case unmarshal_map s of Some (Some m) \<Rightarrow> Some m | _ \<Rightarrow> None)
      | _ \<Rightarrow> None)"

fun first_string :: "jobj \<Rightarrow> string list \<Rightarrow> string" where
  "first_string m [] = []"
| "first_string m (k # ks) =
     (case jfield m k of
        JStr v \<Rightarrow> if v \<noteq> [] then v else first_string m ks
      | JNum x \<Rightarrow> fmt_float x
      | _ \<Rightarrow> first_string m ks)"

text \<open>A nil object reads as the empty one.\<close>

definition or_empty :: "jobj option \<Rightarrow> jobj" where
  "or_empty mo = (case mo of Some m \<Rightarrow> m | None \<Rightarrow> [])"

definition api_field :: "jobj \<Rightarrow> string \<Rightarrow> json" where
  "api_field m key =
     (case jget m key of
        Some v \<Rightarrow> v
      | None \<Rightarrow> jfield (or_empty (api_object (jfield m ''data''))) key)"

definition records :: "json \<Rightarrow> jobj list" where
  "records v = (case v of JArr xs \<Rightarrow> List.map_filter api_object xs | _ \<Rightarrow> [])"

definition positive_int :: "json \<Rightarrow> int" where
  "positive_int v =
     (case v of
        JNum n \<Rightarrow> if int_lt_num 0 n \<and> num_lt_int n (2 ^ 30) then num_to_int n else 0
      | _ \<Rightarrow> 0)"

text \<open>The closure \<open>n\<close> of \<open>parseUsage\<close>, then the function itself.\<close>

fun usage_field :: "jobj \<Rightarrow> string list \<Rightarrow> int" where
  "usage_field m [] = 0"
| "usage_field m (k # ks) =
     (case jfield m k of
        JNum v \<Rightarrow> if num_lt_int v 0 then usage_field m ks else num_to_int v
      | _ \<Rightarrow> usage_field m ks)"

definition parse_usage :: "jobj \<Rightarrow> usage" where
  "parse_usage m =
     (let inp = usage_field m [''prompt_tokens'', ''input_tokens'', ''input_token'', ''inputTokens''];
          out = usage_field m [''completion_tokens'', ''output_tokens'', ''output_token'', ''outputTokens''];
          tot = usage_field m [''total_tokens'', ''total_token'', ''totalTokens''];
          cached = usage_field m [''cache_read_tokens'', ''cached_tokens'', ''cacheReadTokens''];
          reasoning = usage_field m [''reasoning_tokens'', ''reasoningTokens'']
      in \<lparr>u_input = inp, u_output = out,
          u_total = (if tot = 0 then int64 (inp + out) else tot),
          u_cached = (if cached > 0 then Some cached else None),
          u_reasoning = (if reasoning > 0 then Some reasoning else None)\<rparr>)"

lemma object_value_eq: "object_value = api_object"
  by (simp add: fun_eq_iff object_value_def api_object_def)

lemma first_string_eq: "first_string m ks = api_first_string m ks"
  by (induction ks) (auto split: json.splits)

lemma api_first_string_Nil [simp]: "api_first_string [] ks = []"
  by (induction ks) (auto simp: jfield_def jget_def)

lemma num_trunc_bounds:
  assumes "int_lt_num 0 n" "num_lt_int n k"
  shows "0 \<le> num_trunc n \<and> num_trunc n < k"
proof -
  let ?a = "num_numer n" and ?d = "num_denom n"
  have d: "0 < ?d" by (rule num_denom_pos)
  have a: "0 < ?a" "?a < k * ?d" using assms by (auto simp: int_lt_num_def num_lt_int_def)
  then have "num_trunc n = ?a div ?d" by (simp add: num_trunc_def)
  moreover have "?a div ?d < k"
  proof -
    have "?a div ?d * ?d \<le> ?a" using d by (simp add: minus_mod_eq_div_mult [symmetric])
    with a(2) have "?a div ?d * ?d < k * ?d" by linarith
    with d show ?thesis by (simp add: mult_less_cancel_right)
  qed
  moreover have "0 \<le> ?a div ?d" using a(1) d by (simp add: pos_imp_zdiv_nonneg_iff)
  ultimately show ?thesis by simp
qed

lemma positive_int_range: "0 \<le> positive_int v \<and> positive_int v < 2 ^ 30"
  using num_trunc_bounds [of _ "2 ^ 30"]
  by (force simp: positive_int_def num_to_int_def split: json.splits)

end
