(* ===== verification/IdeStream.thy ===== *)
theory IdeStream
  imports ApiValues
begin

text \<open>
  The reader of the upstream event stream, \<open>readIDEStream\<close> of \<open>upstream.go\<close> with
  \<open>ideAccumulator\<close> and its methods. The accumulator is a record; a method returns the new
  record and its error. Two parameters stand for what is outside: the \<open>emit\<close> callback (its
  answer to a delta may depend on the deltas before it) and the random part of
  \<open>newID\<close>, a stream of strings of which \<open>a_draws\<close> counts those taken. The field
  \<open>a_sent\<close> records the deltas handed to \<open>emit\<close>.
\<close>

section \<open>State\<close>

record accumulated_call =
  ac_call :: tool_call
  ac_sent :: bool
  ac_sent_args :: string

record acc =
  a_result :: completion
  a_calls :: "accumulated_call list"
  a_by_id :: "string \<Rightarrow> nat option"
  a_by_index :: "int \<Rightarrow> nat option"
  a_r :: chat_request
  a_terminal :: bool
  a_last_call :: nat
  a_sent :: "delta list"
  a_draws :: nat

record stream_env =
  se_emit :: "(delta list \<Rightarrow> delta \<Rightarrow> gerror option) option"
  se_rand :: "nat \<Rightarrow> string"

definition new_id :: "(nat \<Rightarrow> string) \<Rightarrow> string \<Rightarrow> nat \<Rightarrow> string" where
  "new_id rand pre n = pre @ rand n"

definition send :: "stream_env \<Rightarrow> delta \<Rightarrow> acc \<Rightarrow> acc eff" where
  "send env d a =
     (case se_emit env of
        None \<Rightarrow> (a, None)
      | Some f \<Rightarrow> (a\<lparr>a_sent := a_sent a @ [d]\<rparr>, f (a_sent a) d))"

section \<open>Snapshots and events\<close>

definition merge_snapshot :: "string \<Rightarrow> string \<Rightarrow> string \<times> string" where
  "merge_snapshot old nxt =
     (if nxt = [] \<or> has_prefix old nxt then (old, [])
      else if has_prefix nxt old then (nxt, trim_prefix nxt old)
      else (old @ nxt, nxt))"

definition normalize_event :: "string \<Rightarrow> string" where
  "normalize_event s =
     (let v = map char_of (filter (\<lambda>r. 97 \<le> r \<and> r \<le> 122) (map rune_lower (runes s)))
      in if v = ''responsedone'' \<or> v = ''streamdone'' then ''done'' else v)"

section \<open>Tool calls\<close>

text \<open>The function object of a call and whether it came in a native field.\<close>

definition call_function :: "jobj \<Rightarrow> jobj \<times> bool" where
  "call_function m =
     (case api_object (jfield m ''function_call'') of
        Some f \<Rightarrow> (f, True)
      | None \<Rightarrow>
          (case api_object (jfield m ''functionCall'') of
             Some f \<Rightarrow> (f, True)
           | None \<Rightarrow>
               (case api_object (jfield m ''function'') of
                  Some f \<Rightarrow> (f, False)
                | None \<Rightarrow> (m, False))))"

definition call_name :: "jobj \<Rightarrow> jobj \<Rightarrow> string" where
  "call_name m fn =
     (let n = api_first_string fn [''name''] in
      if n = [] then api_first_string m [''name'', ''tool_name''] else n)"

definition call_ident :: "jobj \<Rightarrow> jobj \<Rightarrow> string" where
  "call_ident m fn =
     (let i = api_first_string m [''id'', ''tool_call_id'', ''toolCallId''] in
      if i = [] then api_first_string fn [''id'', ''toolCallId''] else i)"

definition call_index :: "jobj \<Rightarrow> int \<Rightarrow> int res" where
  "call_index m fallback =
     (case jfield m ''index'' of
        JNum v \<Rightarrow>
          if num_lt_int v 0 \<or> int_lt_num 10000 v then Inl (ErrMsg ''invalid Trae tool index'')
          else Inr (num_to_int v)
      | _ \<Rightarrow> Inr fallback)"

definition known_tool :: "chat_request \<Rightarrow> string \<Rightarrow> bool" where
  "known_tool r name \<longleftrightarrow> (\<exists>t \<in> set (r_tools r). t_name t = name)"

text \<open>The slot an event addresses, if there is one already.\<close>

definition find_slot :: "acc \<Rightarrow> string \<Rightarrow> int \<Rightarrow> nat option res" where
  "find_slot a ident index =
     rbind
      (case (if 0 \<le> index then a_by_index a index else None) of
         None \<Rightarrow> Inr (a_by_id a ident)
       | Some indexed \<Rightarrow>
           (case a_by_id a ident of
              Some slot \<Rightarrow>
                if indexed \<noteq> slot then Inl (ErrMsg ''conflicting Trae tool ID and index'')
                else Inr (Some slot)
            | None \<Rightarrow>
                if ident \<noteq> [] \<and> tc_id (ac_call (a_calls a ! indexed)) \<noteq> ident
                then Inl (ErrMsg ''Trae changed tool identity during a stream'')
                else Inr (Some indexed)))
      (\<lambda>slot. Inr (if slot = None \<and> ident = [] \<and> index < 0 \<and> 0 < a_last_call a
                  then Some (a_last_call a - 1) else slot))"

text \<open>Opening a new slot: at most 128, with a drawn id when the event has none.\<close>

definition fresh_call :: "string \<Rightarrow> accumulated_call" where
  "fresh_call ident = \<lparr>ac_call = \<lparr>tc_id = ident, tc_type = ''function'',
      tc_fn = \<lparr>fn_name = [], fn_args = []\<rparr>\<rparr>, ac_sent = False, ac_sent_args = []\<rparr>"

definition open_slot :: "stream_env \<Rightarrow> string \<Rightarrow> acc \<Rightarrow> acc eff" where
  "open_slot env ident a =
     (if 128 \<le> length (a_calls a) then (a, Some (ErrMsg ''too many Trae tool calls''))
      else
        (let i = (if ident = [] then new_id (se_rand env) ''call_'' (a_draws a) else ident);
             draws = (if ident = [] then Suc (a_draws a) else a_draws a)
         in (a\<lparr>a_calls := a_calls a @ [fresh_call i],
               a_by_id := (a_by_id a)(i \<mapsto> length (a_calls a)),
               a_draws := draws\<rparr>, None)))"

definition address_slot :: "int \<Rightarrow> nat \<Rightarrow> acc \<Rightarrow> acc" where
  "address_slot index slot a =
     a\<lparr>a_by_index := (if 0 \<le> index then (a_by_index a)(index \<mapsto> slot) else a_by_index a),
       a_last_call := slot + 1\<rparr>"

text \<open>Writing to the call behind the pointer \<open>state\<close>.\<close>

definition upd_slot :: "nat \<Rightarrow> (accumulated_call \<Rightarrow> accumulated_call) \<Rightarrow> acc \<Rightarrow> acc" where
  "upd_slot slot f a = a\<lparr>a_calls := (a_calls a)[slot := f (a_calls a ! slot)]\<rparr>"

definition set_fn :: "(fn_call \<Rightarrow> fn_call) \<Rightarrow> accumulated_call \<Rightarrow> accumulated_call" where
  "set_fn f c = c\<lparr>ac_call := (ac_call c)\<lparr>tc_fn := f (tc_fn (ac_call c))\<rparr>\<rparr>"

definition slot_fn :: "acc \<Rightarrow> nat \<Rightarrow> fn_call" where
  "slot_fn a slot = tc_fn (ac_call (a_calls a ! slot))"

definition set_call_name :: "string \<Rightarrow> nat \<Rightarrow> acc \<Rightarrow> acc eff" where
  "set_call_name name slot a =
     (if name = [] then (a, None)
      else if fn_name (slot_fn a slot) \<noteq> [] \<and> fn_name (slot_fn a slot) \<noteq> name
        then (a, Some (ErrMsg ''Trae changed tool name during a stream''))
      else (upd_slot slot (set_fn (\<lambda>f. f\<lparr>fn_name := name\<rparr>)) a, None))"

fun args_value :: "jobj \<Rightarrow> string list \<Rightarrow> json option" where
  "args_value fn [] = None"
| "args_value fn (k # ks) = (case jget fn k of Some v \<Rightarrow> Some v | None \<Rightarrow> args_value fn ks)"

definition arg_keys :: "string list" where
  "arg_keys = [''arguments'', ''args'', ''input'', ''params'', ''parameters'']"

definition args_text :: "json \<Rightarrow> string" where
  "args_text v = (case v of JStr s \<Rightarrow> s | _ \<Rightarrow> marshal v)"

text \<open>
  The new arguments: a native string is a delta, another native value replaces the text, and
  a value from a non-native field is a snapshot.
\<close>

definition merge_args :: "bool \<Rightarrow> json option \<Rightarrow> string \<Rightarrow> string" where
  "merge_args native value old =
     (case value of
        None \<Rightarrow> old
      | Some v \<Rightarrow>
          if native then
            (case v of JStr s \<Rightarrow> old @ s | _ \<Rightarrow> args_text v)
          else fst (merge_snapshot old (args_text v)))"

text \<open>The permission checks on a named call, then the delta for what was not sent yet.\<close>

definition call_permitted :: "chat_request \<Rightarrow> string \<Rightarrow> bool" where
  "call_permitted r name \<longleftrightarrow> known_tool r name \<and> r_choice r \<noteq> ''none''
     \<and> (r_choice r = ''auto'' \<or> r_choice r = ''required'' \<or> r_choice r = name)"

definition call_delta :: "acc \<Rightarrow> nat \<Rightarrow> tool_call" where
  "call_delta a slot =
     (let st = a_calls a ! slot; c = ac_call st in
      \<lparr>tc_id = (if ac_sent st then [] else tc_id c),
       tc_type = (if ac_sent st then [] else ''function''),
       tc_fn = \<lparr>fn_name = (if ac_sent st then [] else fn_name (tc_fn c)),
                fn_args = trim_prefix (fn_args (tc_fn c)) (ac_sent_args st)\<rparr>\<rparr>)"

definition mark_sent :: "nat \<Rightarrow> acc \<Rightarrow> acc" where
  "mark_sent slot a =
     upd_slot slot (\<lambda>c. c\<lparr>ac_sent := True, ac_sent_args := fn_args (tc_fn (ac_call c))\<rparr>) a"

definition emit_call :: "stream_env \<Rightarrow> nat \<Rightarrow> acc \<Rightarrow> acc eff" where
  "emit_call env slot a =
     (let st = a_calls a ! slot; f = tc_fn (ac_call st); d = call_delta a slot in
      if fn_name f = [] then (a, None)
      else if \<not> call_permitted (a_r a) (fn_name f)
        then (a, Some (ErrMsg ''Trae requested an unavailable tool''))
      else if r_parallel (a_r a) = Some False \<and> 1 < length (a_calls a)
        then (a, Some (ErrMsg ''Trae returned parallel calls when disabled''))
      else if \<not> has_prefix (fn_args f) (ac_sent_args st)
        then (a, Some (ErrMsg ''Trae rewrote streamed tool arguments''))
      else if \<not> ac_sent st \<or> fn_args (tc_fn d) \<noteq> []
        then andthen (send env (empty_delta\<lparr>d_call := Some d, d_index := slot\<rparr>) a)
               (\<lambda>a. (mark_sent slot a, None))
      else (a, None))"

definition grow_args :: "bool \<Rightarrow> json option \<Rightarrow> nat \<Rightarrow> acc \<Rightarrow> acc eff" where
  "grow_args native value slot a =
     (let a' = upd_slot slot (set_fn (\<lambda>f. f\<lparr>fn_args := merge_args native value (fn_args f)\<rparr>)) a in
      if 4194304 < length (fn_args (slot_fn a' slot))
      then (a', Some (ErrMsg ''tool arguments exceed size limit'')) else (a', None))"

text \<open>The part of \<open>addCall\<close> from the moment the slot is known.\<close>

definition update_call ::
  "stream_env \<Rightarrow> string \<Rightarrow> bool \<Rightarrow> json option \<Rightarrow> nat \<Rightarrow> acc \<Rightarrow> acc eff" where
  "update_call env name native value slot a =
     andthen (set_call_name name slot a) (\<lambda>a.
       andthen (grow_args native value slot a) (emit_call env slot))"

definition add_call :: "stream_env \<Rightarrow> jobj \<Rightarrow> int \<Rightarrow> acc \<Rightarrow> acc eff" where
  "add_call env m fallback a =
     (case call_function m of
        (fn, native) \<Rightarrow>
          (let name = call_name m fn; ident = call_ident m fn; value = args_value fn arg_keys in
           if name \<in> {''finish'', ''done'', ''final''} \<and> \<not> known_tool (a_r a) name then (a, None)
           else
             (case call_index m fallback of
                Inl e \<Rightarrow> (a, Some e)
              | Inr index \<Rightarrow>
                  (case find_slot a ident index of
                     Inl e \<Rightarrow> (a, Some e)
                   | Inr (Some slot) \<Rightarrow>
                       update_call env name native value slot (address_slot index slot a)
                   | Inr None \<Rightarrow>
                       andthen (open_slot env ident a) (\<lambda>b.
                         update_call env name native value (length (a_calls a))
                           (address_slot index (length (a_calls a)) b))))))"

fun extract_records :: "stream_env \<Rightarrow> string \<Rightarrow> bool \<Rightarrow> nat \<Rightarrow> json list \<Rightarrow> acc \<Rightarrow> acc eff" where
  "extract_records env key many i [] a = (a, None)"
| "extract_records env key many i (raw # rs) a =
     (case api_object raw of
        None \<Rightarrow> (a, Some (ErrMsg ''invalid Trae tool event''))
      | Some m \<Rightarrow>
          (let m' = (if key = ''function_call'' \<and> jfield m ''function_call'' = JNull
                     then [(''function_call'', JObj m)] else m)
           in andthen (add_call env m' (if many then int i else - 1) a)
                (extract_records env key many (Suc i) rs)))"

definition call_keys :: "string list" where
  "call_keys = [''tool_calls'', ''tool_call'', ''function_call'', ''tool_call_info'', ''toolCallInfo'']"

fun extract_keys :: "stream_env \<Rightarrow> string list \<Rightarrow> jobj \<Rightarrow> acc \<Rightarrow> acc eff" where
  "extract_keys env [] obj a = (a, None)"
| "extract_keys env (k # ks) obj a =
     (case jget obj k of
        None \<Rightarrow> extract_keys env ks obj a
      | Some v \<Rightarrow>
          (let rs = (case v of JArr xs \<Rightarrow> xs | _ \<Rightarrow> [v]) in
           andthen (extract_records env k (1 < length rs) 0 rs a) (extract_keys env ks obj)))"

definition extract_calls :: "stream_env \<Rightarrow> jobj \<Rightarrow> acc \<Rightarrow> acc eff" where
  "extract_calls env obj a = extract_keys env call_keys obj a"

section \<open>Frames\<close>

definition set_usage :: "jobj \<Rightarrow> acc \<Rightarrow> acc" where
  "set_usage v a = a\<lparr>a_result := (a_result a)\<lparr>c_usage := Some (parse_usage v)\<rparr>\<rparr>"

definition set_finish :: "string \<Rightarrow> acc \<Rightarrow> acc" where
  "set_finish f a = a\<lparr>a_result := (a_result a)\<lparr>c_finish := f\<rparr>\<rparr>"

definition note_finish :: "jobj \<Rightarrow> acc \<Rightarrow> acc" where
  "note_finish obj a =
     (let f = api_first_string obj [''finish_reason'', ''finishReason'', ''stop_reason'', ''stopReason''] in
      if f = ''length'' \<or> f = ''max_tokens'' then set_finish ''length'' a
      else if f = ''content_filter'' then set_finish ''content_filter'' a
      else a)"

definition reason_keys :: "string list" where
  "reason_keys = [''reasoning_content'', ''reasoningContent'', ''thought'', ''thinking'']"

text \<open>The text and the reasoning of a frame, a thinking block of the text split off.\<close>

definition split_think :: "string \<times> string \<Rightarrow> string \<times> string" where
  "split_think p =
     (case p of (text, reason) \<Rightarrow>
        if has_prefix text ''<think>'' then
          (case str_index text ''</think>'' of
             Some at \<Rightarrow> (drop (at + length ''</think>'') text,
                          drop (length ''<think>'') (take at text))
           | None \<Rightarrow> ([], trim_prefix text ''<think>''))
        else (text, reason))"

definition frame_texts :: "jobj \<Rightarrow> string \<times> string" where
  "frame_texts obj =
     (let text = api_first_string obj [''response'', ''text'', ''content''];
          reason = api_first_string obj reason_keys
      in split_think
          (case api_object (jfield obj ''message'') of
             Some m \<Rightarrow>
               (if text = [] then api_first_string m [''content'', ''text''] else text,
                if reason = [] then api_first_string m reason_keys else reason)
           | None \<Rightarrow> (text, reason)))"

definition set_content :: "string \<Rightarrow> acc \<Rightarrow> acc" where
  "set_content t a =
     a\<lparr>a_result := (a_result a)\<lparr>c_message := (c_message (a_result a))\<lparr>m_content := t\<rparr>\<rparr>\<rparr>"

definition content :: "acc \<Rightarrow> string" where
  "content a = m_content (c_message (a_result a))"

definition reasoning :: "acc \<Rightarrow> string" where
  "reasoning a = c_reasoning (a_result a)"

definition emit_text :: "stream_env \<Rightarrow> string \<Rightarrow> acc \<Rightarrow> acc eff" where
  "emit_text env text a =
     (case merge_snapshot (content a) text of
        (c, d) \<Rightarrow>
          (let a' = set_content c a in
           if d = [] then (a', None) else send env (empty_delta\<lparr>d_text := d\<rparr>) a'))"

definition emit_reasoning :: "stream_env \<Rightarrow> string \<Rightarrow> acc \<Rightarrow> acc eff" where
  "emit_reasoning env reason a =
     (case merge_snapshot (reasoning a) reason of
        (c, d) \<Rightarrow>
          (let a' = a\<lparr>a_result := (a_result a)\<lparr>c_reasoning := c\<rparr>\<rparr> in
           if d = [] then (a', None) else send env (empty_delta\<lparr>d_reasoning := d\<rparr>) a'))"

definition check_size :: "acc \<Rightarrow> acc eff" where
  "check_size a =
     (if 16777216 < length (content a) + length (reasoning a)
      then (a, Some (ErrMsg ''Trae response exceeds size limit'')) else (a, None))"

text \<open>The data part of a frame: usage, finish reason, texts, tool calls, the terminal kind.\<close>

definition frame_data :: "stream_env \<Rightarrow> string \<Rightarrow> jobj \<Rightarrow> acc \<Rightarrow> acc eff" where
  "frame_data env kind obj a =
     (let a1 = (case api_object (jfield obj ''usage'') of Some v \<Rightarrow> set_usage v a | None \<Rightarrow> a);
          a2 = note_finish obj a1
      in (case frame_texts obj of
            (text, reason) \<Rightarrow>
              andthen (emit_text env text a2) (\<lambda>a.
              andthen (emit_reasoning env reason a) (\<lambda>a.
              andthen (check_size a) (\<lambda>a.
              andthen (extract_calls env obj a) (\<lambda>a.
              andthen (case api_object (jfield obj ''message'') of
                         Some m \<Rightarrow> extract_calls env m a | None \<Rightarrow> (a, None)) (\<lambda>a.
              (if kind = ''done'' then a\<lparr>a_terminal := True\<rparr> else a, None))))))))"

definition frame_error :: "string \<Rightarrow> jobj \<Rightarrow> gerror option" where
  "frame_error kind obj =
     (let code = api_first_string obj [''code''] in
      if code \<noteq> [] \<and> code \<noteq> ''0'' then
        (if code = ''401'' \<or> code = ''403'' \<or> code = ''1001'' then Some CredentialRejected
         else Some (ErrMsg ''Trae returned business error''))
      else if kind = ''error'' \<or> jfield obj ''error'' \<noteq> JNull
        then Some (ErrMsg ''Trae returned an error event'')
      else None)"

definition frame :: "stream_env \<Rightarrow> string \<Rightarrow> string \<Rightarrow> acc \<Rightarrow> acc eff" where
  "frame env event raw a =
     (if raw = ''[DONE]'' then (a\<lparr>a_terminal := True\<rparr>, None)
      else
        (case unmarshal_map raw of
           None \<Rightarrow> (a, Some (ErrMsg ''invalid Trae SSE JSON''))
         | Some mo \<Rightarrow>
             (let obj = or_empty mo;
                  ev = (if event = []
                        then api_first_string obj [''event'', ''event_type'', ''eventType'', ''type'']
                        else event);
                  kind = normalize_event ev
              in (case frame_error kind obj of
                    Some e \<Rightarrow> (a, Some e)
                  | None \<Rightarrow>
                      if kind \<in> {''heartbeat'', ''keepalive'', ''ping''}
                        then send env (empty_delta\<lparr>d_heartbeat := True\<rparr>) a
                      else if kind = ''tokenusage''
                        then (set_usage (case api_object (jfield obj ''usage'') of
                                           Some v \<Rightarrow> v | None \<Rightarrow> obj) a, None)
                      else frame_data env kind obj a))))"

section \<open>The line loop\<close>

text \<open>
  \<open>bufio.ScanLines\<close> with the 4 MiB buffer: the lines up to the first one that is too long,
  and whether there was one.
\<close>

definition drop_cr :: "string \<Rightarrow> string" where
  "drop_cr l = (if l \<noteq> [] \<and> last l = CHR 0x0D then butlast l else l)"

function scan_lines :: "string \<Rightarrow> string list \<times> bool" where
  "scan_lines [] = ([], False)"
| "scan_lines (c # cs) =
     (let raw = takeWhile (\<lambda>x. x \<noteq> CHR 0x0A) (c # cs);
          rest = drop 1 (dropWhile (\<lambda>x. x \<noteq> CHR 0x0A) (c # cs))
      in if 4194304 \<le> length raw then ([], True)
         else (case scan_lines rest of (ls, long) \<Rightarrow> (drop_cr raw # ls, long)))"
  by pat_completeness auto
termination
  by (relation "measure length") 
    (auto simp: less_Suc_eq_le intro: le_trans [OF diff_le_self] length_dropWhile_le)

text \<open>
  What the reader delivers: its bytes, the error it ends with (\<open>None\<close> is EOF), and whether
  the scanner has already met that error when the loop leaves early.
\<close>

record stream_input =
  si_bytes :: string
  si_err :: "gerror option"
  si_early :: bool

type_synonym reader = "acc \<times> string \<times> string list"

fun join_lines :: "string list \<Rightarrow> string" where
  "join_lines [] = []"
| "join_lines [x] = x"
| "join_lines (x # y # ys) = x @ [CHR 0x0A] @ join_lines (y # ys)"

definition flush :: "stream_env \<Rightarrow> reader \<Rightarrow> reader \<times> gerror option" where
  "flush env st =
     (case st of (a, event, data) \<Rightarrow>
        if data = [] then
          ((if normalize_event event = ''done'' then a\<lparr>a_terminal := True\<rparr> else a, [], []), None)
        else (case frame env event (join_lines data) a of (a', e) \<Rightarrow> ((a', [], []), e)))"

text \<open>One line that is not blank.\<close>

definition read_line :: "stream_env \<Rightarrow> string \<Rightarrow> reader \<Rightarrow> reader \<times> gerror option" where
  "read_line env line st =
     (case st of (a, event, data) \<Rightarrow>
        if has_prefix line ''event:'' then
          andthen (if data \<noteq> [] then flush env st else (st, None))
            (\<lambda>(a, event, data). ((a, trim_space (drop 6 line), data), None))
        else if has_prefix line ''data:'' then
          ((a, event, data @ [trim_space (drop 5 line)]), None)
        else if has_prefix line '':'' then
          (case send env (empty_delta\<lparr>d_heartbeat := True\<rparr>) a of (a', e) \<Rightarrow> ((a', event, data), e))
        else (st, None))"

text \<open>The loop; the flag tells that it broke off at a terminal event.\<close>

fun read_lines :: "stream_env \<Rightarrow> string list \<Rightarrow> reader \<Rightarrow> (reader \<times> bool) \<times> gerror option" where
  "read_lines env [] st = ((st, False), None)"
| "read_lines env (line # ls) st =
     (if trim_space line = [] then
        (case flush env st of
           (st', Some e) \<Rightarrow> ((st', False), Some e)
         | (st', None) \<Rightarrow>
             if a_terminal (fst st') then ((st', True), None) else read_lines env ls st')
      else
        (case read_line env line st of
           (st', Some e) \<Rightarrow> ((st', False), Some e)
         | (st', None) \<Rightarrow> read_lines env ls st'))"

section \<open>The end of the stream\<close>

definition add_result_call :: "tool_call \<Rightarrow> acc \<Rightarrow> acc" where
  "add_result_call c a =
     a\<lparr>a_result := (a_result a)\<lparr>c_message :=
        (c_message (a_result a))\<lparr>m_calls := m_calls (c_message (a_result a)) @ [c]\<rparr>\<rparr>\<rparr>"

definition args_only :: "string \<Rightarrow> tool_call" where
  "args_only s = \<lparr>tc_id = [], tc_type = [], tc_fn = \<lparr>fn_name = [], fn_args = s\<rparr>\<rparr>"

definition set_args :: "string \<Rightarrow> tool_call \<Rightarrow> tool_call" where
  "set_args s c = c\<lparr>tc_fn := (tc_fn c)\<lparr>fn_args := s\<rparr>\<rparr>"

text \<open>The body of the final loop over \<open>a.calls\<close>: an empty argument text becomes \<open>{}\<close>.\<close>

definition finish_call :: "stream_env \<Rightarrow> accumulated_call \<Rightarrow> acc \<Rightarrow> acc eff" where
  "finish_call env st a =
     (if \<not> ac_sent st then (a, Some (ErrMsg ''Trae returned an unnamed tool''))
      else
        (let empty = (fn_args (tc_fn (ac_call st)) = []);
             c = (if empty then set_args ''{}'' (ac_call st) else ac_call st)
         in andthen
             (if empty
              then send env (empty_delta\<lparr>d_index := length (m_calls (c_message (a_result a))),
                       d_call := Some (args_only ''{}'')\<rparr>) a
              else (a, None))
             (\<lambda>a. if \<not> json_valid (fn_args (tc_fn c))
                   then (a, Some (ErrMsg ''Trae returned invalid tool arguments''))
                   else (add_result_call c a, None))))"

fun finish_calls :: "stream_env \<Rightarrow> accumulated_call list \<Rightarrow> acc \<Rightarrow> acc eff" where
  "finish_calls env [] a = (a, None)"
| "finish_calls env (st # sts) a = andthen (finish_call env st a) (finish_calls env sts)"

definition finish_result :: "acc \<Rightarrow> acc eff" where
  "finish_result a =
     (if a_calls a = [] \<and> (r_choice (a_r a) = ''required''
           \<or> (r_choice (a_r a) \<noteq> ''auto'' \<and> r_choice (a_r a) \<noteq> ''none''))
      then (a, Some (ErrMsg ''Trae did not return the required tool call''))
      else
        (let a' = (if a_calls a \<noteq> [] then set_finish ''tool_calls'' a else a) in
         if content a' = [] \<and> reasoning a' = [] \<and> a_calls a' = []
         then (a', Some (ErrMsg ''Trae returned an empty response'')) else (a', None)))"

definition init_acc :: "chat_request \<Rightarrow> acc" where
  "init_acc r =
     \<lparr>a_result = empty_completion\<lparr>c_message := empty_message\<lparr>m_role := ''assistant''\<rparr>,
                                    c_finish := ''stop''\<rparr>,
      a_calls = [], a_by_id = Map.empty, a_by_index = Map.empty, a_r = r, a_terminal = False,
      a_last_call = 0, a_sent = [], a_draws = 0\<rparr>"

text \<open>Everything after the loop, given the scanner's error.\<close>

definition end_stream :: "stream_env \<Rightarrow> gerror option \<Rightarrow> reader \<Rightarrow> acc eff" where
  "end_stream env scan_err st =
     (case scan_err of
        Some e \<Rightarrow> (fst st, Some (Wrap ''Trae stream read failed: '' e))
      | None \<Rightarrow>
          andthen (if a_terminal (fst st) then (fst st, None)
                   else (case flush env st of (st', e) \<Rightarrow> (fst st', e)))
            (\<lambda>a. if \<not> a_terminal a
                 then (a, Some (ErrMsg ''Trae stream ended without a terminal event''))
                 else andthen (finish_calls env (a_calls a) a) finish_result))"

definition read_ide_stream :: "stream_env \<Rightarrow> stream_input \<Rightarrow> chat_request \<Rightarrow> acc eff" where
  "read_ide_stream env inp r =
     (case scan_lines (si_bytes inp) of
        (lines, long) \<Rightarrow>
          (case read_lines env lines (init_acc r, [], []) of
             ((st, broke), Some e) \<Rightarrow> (fst st, Some e)
           | ((st, broke), None) \<Rightarrow>
               end_stream env
                 (if broke then (if si_early inp then si_err inp else None)
                  else if long then Some (ErrMsg ''bufio.Scanner: token too long'')
                  else si_err inp) st))"

end
