(* ===== verification/IdeStreamCorrect.thy ===== *)
theory IdeStreamCorrect
  imports IdeStream
begin

text \<open>
  Correctness of the stream reader: the deltas sent to the client are the answer, text and
  reasoning for every outcome and tool calls on success; the limits and permissions an
  accepted answer obeys; that only a terminal event completes a stream.
\<close>

section \<open>Text\<close>

definition text_inv :: "acc \<Rightarrow> bool" where
  "text_inv a \<longleftrightarrow> content a = concat (map d_text (a_sent a))
     \<and> reasoning a = concat (map d_reasoning (a_sent a))"

lemma merge_snapshot_grows: "fst (merge_snapshot old nxt) = old @ snd (merge_snapshot old nxt)"
  by (auto simp: merge_snapshot_def append_trim_prefix)

lemma send_fields [simp]:
  "a_result (fst (send env d a)) = a_result a"
  "a_calls (fst (send env d a)) = a_calls a"
  "a_by_id (fst (send env d a)) = a_by_id a"
  "a_by_index (fst (send env d a)) = a_by_index a"
  "a_r (fst (send env d a)) = a_r a"
  "a_last_call (fst (send env d a)) = a_last_call a"
  "a_draws (fst (send env d a)) = a_draws a"
  "a_terminal (fst (send env d a)) = a_terminal a"
  by (auto simp: send_def split: option.splits)

lemma send_text:
  "text_inv a \<Longrightarrow> d_text d = [] \<Longrightarrow> d_reasoning d = [] \<Longrightarrow> text_inv (fst (send env d a))"
  by (auto simp: send_def text_inv_def content_def reasoning_def split: option.splits)

lemma emit_text_text:
  assumes "text_inv a" "se_emit env = Some f"
  shows "text_inv (fst (emit_text env t a))"
proof -
  obtain c d where m: "merge_snapshot (content a) t = (c, d)" by fastforce
  then have "c = content a @ d" using merge_snapshot_grows [of "content a" t] by simp
  with m assms show ?thesis
    by (auto simp: emit_text_def send_def text_inv_def set_content_def content_def reasoning_def
        empty_delta_def Let_def)
qed

lemma emit_reasoning_text:
  assumes "text_inv a" "se_emit env = Some f"
  shows "text_inv (fst (emit_reasoning env t a))"
proof -
  obtain c d where m: "merge_snapshot (reasoning a) t = (c, d)" by fastforce
  then have "c = reasoning a @ d" using merge_snapshot_grows [of "reasoning a" t] by simp
  with m assms show ?thesis
    by (auto simp: emit_reasoning_def send_def text_inv_def content_def reasoning_def
        empty_delta_def Let_def)
qed

lemma text_inv_helpers [simp]:
  "text_inv (a\<lparr>a_terminal := t\<rparr>) = text_inv a"
  "text_inv (set_usage v a) = text_inv a"
  "text_inv (note_finish obj a) = text_inv a"
  "text_inv (set_finish s a) = text_inv a"
  "text_inv (add_result_call c a) = text_inv a"
  by (simp_all add: set_usage_def note_finish_def set_finish_def add_result_call_def text_inv_def
      content_def reasoning_def Let_def)

subsection \<open>What tool calls leave alone\<close>

text \<open>
  The tool call code reaches the accumulator through few doors: the call slots, their two
  indexes, the last call, the id draws, and deltas without text. A predicate that these leave
  alone survives \<open>extractCalls\<close>, whatever it returns.
\<close>

locale call_passive =
  fixes env :: stream_env and P :: "acc \<Rightarrow> bool"
  assumes P_send: "P a \<Longrightarrow> d_text d = [] \<Longrightarrow> d_reasoning d = [] \<Longrightarrow> \<not> d_start d \<Longrightarrow> P (fst (send env d a))"
    and P_calls: "P a \<Longrightarrow> P (a\<lparr>a_calls := cs\<rparr>)"
    and P_by_id: "P a \<Longrightarrow> P (a\<lparr>a_by_id := bi\<rparr>)"
    and P_by_index: "P a \<Longrightarrow> P (a\<lparr>a_by_index := bx\<rparr>)"
    and P_last_call: "P a \<Longrightarrow> P (a\<lparr>a_last_call := n\<rparr>)"
    and P_draws: "P a \<Longrightarrow> P (a\<lparr>a_draws := k\<rparr>)"
begin

lemma emit_call_P: "P a \<Longrightarrow> P (fst (emit_call env slot a))"
  unfolding emit_call_def Let_def
  by (auto intro!: andthen_always [where P = P] P_send P_calls
      simp: empty_delta_def mark_sent_def upd_slot_def)

lemma update_call_P: "P a \<Longrightarrow> P (fst (update_call env name native v slot a))"
  unfolding update_call_def
  by (intro andthen_always [where P = P] emit_call_P)
    (auto simp: set_call_name_def grow_args_def Let_def upd_slot_def intro: P_calls)

lemma address_slot_P: "P a \<Longrightarrow> P (address_slot index slot a)"
  by (auto simp: address_slot_def intro: P_by_index P_last_call)

lemma open_slot_P: "P a \<Longrightarrow> P (fst (open_slot env ident a))"
  by (auto simp: open_slot_def Let_def intro: P_calls P_by_id P_draws)

lemma add_call_P: "P a \<Longrightarrow> P (fst (add_call env m fb a))"
  unfolding add_call_def Let_def
  by (auto split: prod.split sum.split option.split
      intro!: andthen_always [where P = P] update_call_P open_slot_P address_slot_P)

lemma extract_records_P: "P a \<Longrightarrow> P (fst (extract_records env key many i rs a))"
proof (induction rs arbitrary: i a)
  case (Cons raw rs)
  then show ?case
    by (cases "api_object raw") (auto simp: Let_def intro!: andthen_always [where P = P] add_call_P)
qed simp

lemma extract_keys_P: "P a \<Longrightarrow> P (fst (extract_keys env ks obj a))"
proof (induction ks arbitrary: a)
  case (Cons k ks)
  then show ?case
    by (cases "jget obj k") (auto simp: Let_def intro!: andthen_always [where P = P] extract_records_P)
qed simp

lemma extract_calls_P: "P a \<Longrightarrow> P (fst (extract_calls env obj a))"
  by (simp add: extract_calls_def extract_keys_P)

end

interpretation frozen: call_passive env
    "\<lambda>b. content b = c \<and> reasoning b = q \<and> a_r b = r \<and> c_finish (a_result b) = fin" for env c q r fin
  by unfold_locales (auto simp: content_def reasoning_def)

lemma extract_calls_frozen:
  "content (fst (extract_calls env obj a)) = content a"
  "reasoning (fst (extract_calls env obj a)) = reasoning a"
  "a_r (fst (extract_calls env obj a)) = a_r a"
  "c_finish (a_result (fst (extract_calls env obj a))) = c_finish (a_result a)"
  using frozen.extract_calls_P [where a = a and c = "content a" and q = "reasoning a" and r = "a_r a"
      and fin = "c_finish (a_result a)"]
  by simp_all

subsection \<open>What the whole reader leaves alone\<close>

text \<open>
  A predicate that also survives the two text deltas and the writes of the other fields of the
  answer survives the reading of a stream, whatever it returns.
\<close>

locale stream_passive = call_passive +
  assumes P_text: "P a \<Longrightarrow> P (fst (emit_text env t a))"
    and P_reasoning: "P a \<Longrightarrow> P (fst (emit_reasoning env t a))"
    and P_terminal: "P a \<Longrightarrow> P (a\<lparr>a_terminal := b\<rparr>)"
    and P_usage: "P a \<Longrightarrow> P (set_usage v a)"
    and P_note: "P a \<Longrightarrow> P (note_finish obj a)"
    and P_finish: "P a \<Longrightarrow> P (set_finish fin a)"
    and P_result: "P a \<Longrightarrow> P (add_result_call c a)"
begin

lemma heartbeat_P: "P a \<Longrightarrow> P (fst (send env (empty_delta\<lparr>d_heartbeat := True\<rparr>) a))"
  by (intro P_send) (simp_all add: empty_delta_def)

lemma frame_data_P:
  assumes "P a"
  shows "P (fst (frame_data env kind obj a))"
proof -
  obtain t r where tr: "frame_texts obj = (t, r)" by fastforce
  show ?thesis
    unfolding frame_data_def Let_def tr prod.case
    by (intro andthen_always [where P = P] P_text P_reasoning extract_calls_P)
      (auto simp: check_size_def assms split: option.split intro!: extract_calls_P P_note P_usage P_terminal)
qed

lemma frame_P:
  assumes "P a"
  shows "P (fst (frame env event raw a))"
proof (cases "raw = ''[DONE]''")
  case raw: False
  show ?thesis
  proof (cases "unmarshal_map raw")
    case None
    with raw assms show ?thesis by (simp add: frame_def)
  next
    case (Some mo)
    define kind where "kind = normalize_event (if event = []
      then api_first_string (or_empty mo) [''event'', ''event_type'', ''eventType'', ''type''] else event)"
    have "frame env event raw a = (case frame_error kind (or_empty mo) of
        Some e \<Rightarrow> (a, Some e)
      | None \<Rightarrow>
          if kind \<in> {''heartbeat'', ''keepalive'', ''ping''}
            then send env (empty_delta\<lparr>d_heartbeat := True\<rparr>) a
          else if kind = ''tokenusage''
            then (set_usage (case api_object (jfield (or_empty mo) ''usage'') of
                               Some v \<Rightarrow> v | None \<Rightarrow> or_empty mo) a, None)
          else frame_data env kind (or_empty mo) a)"
      using raw Some by (simp only: frame_def Let_def kind_def if_False option.case)
    then show ?thesis
      using assms by (cases "frame_error kind (or_empty mo)")
        (simp_all add: heartbeat_P frame_data_P P_usage)
  qed
qed (simp add: frame_def assms P_terminal)

lemma flush_P:
  assumes "P (fst st)"
  shows "P (fst (fst (flush env st)))"
proof -
  obtain a event data where st: "st = (a, event, data)" by (cases st)
  show ?thesis
    using frame_P [of a event "join_lines data"] assms by (auto simp: flush_def st split: prod.split intro: P_terminal)
qed

lemma read_line_P:
  assumes "P (fst st)"
  shows "P (fst (fst (read_line env line st)))"
proof -
  obtain a event data where st: "st = (a, event, data)" by (cases st)
  have "P (fst (fst (andthen (if data \<noteq> [] then flush env st else (st, None))
            (\<lambda>(a, event, data). ((a, trim_space (drop 6 line), data), None)))))"
    by (rule andthen_always [where P = "\<lambda>s. P (fst s)"])
      (use flush_P [OF assms] assms in \<open>auto split: prod.splits\<close>)
  moreover have "P (fst (send env (empty_delta\<lparr>d_heartbeat := True\<rparr>) a))"
    using assms by (intro heartbeat_P) (simp add: st)
  ultimately show ?thesis
    using assms by (auto simp: read_line_def st split: prod.split)
qed

lemma read_lines_P: "P (fst st) \<Longrightarrow> P (fst (fst (fst (read_lines env ls st))))"
proof (induction ls arbitrary: st)
  case (Cons line ls)
  show ?case
  proof (cases "trim_space line = []")
    case True
    obtain st' e where fl: "flush env st = (st', e)" by fastforce
    then have "P (fst st')" using flush_P [OF Cons.prems] by simp
    with Cons True fl show ?thesis by (cases e) auto
  next
    case False
    obtain st' e where fl: "read_line env line st = (st', e)" by fastforce
    then have "P (fst st')" using read_line_P [OF Cons.prems, of line] by simp
    with Cons False fl show ?thesis by (cases e) auto
  qed
qed simp

lemma finish_calls_P: "P a \<Longrightarrow> P (fst (finish_calls env sts a))"
proof (induction sts arbitrary: a)
  case (Cons st sts)
  have "P (fst (finish_call env st a))"
    unfolding finish_call_def Let_def
    using Cons.prems by (auto intro!: andthen_always [where P = P] P_send P_result simp: empty_delta_def)
  then show ?case
    by (simp add: Cons.IH andthen_always [where P = P])
qed simp

lemma finish_result_P: "P a \<Longrightarrow> P (fst (finish_result a))"
  by (auto simp: finish_result_def Let_def intro: P_finish)

lemma end_stream_P:
  assumes "P (fst st)"
  shows "P (fst (end_stream env se st))"
proof -
  have "P (fst (if a_terminal (fst st) then (fst st, None)
      else (case flush env st of (st', e) \<Rightarrow> (fst st', e))))"
    using flush_P [OF assms] assms by (auto split: prod.split)
  then show ?thesis
    using assms unfolding end_stream_def
    by (cases se) (auto intro!: andthen_always [where P = P] finish_calls_P finish_result_P)
qed

lemma read_stream_P:
  assumes "P (init_acc r)"
  shows "P (fst (read_ide_stream env inp r))"
proof -
  obtain lines long where sl: "scan_lines (si_bytes inp) = (lines, long)" by fastforce
  obtain st broke e where rl: "read_lines env lines (init_acc r, [], []) = ((st, broke), e)"
    by (metis prod.exhaust)
  have "P (fst st)"
    using read_lines_P [of "(init_acc r, [], [])" lines] rl assms by simp
  then show ?thesis
    unfolding read_ide_stream_def sl prod.case rl
    by (cases e) (auto intro!: end_stream_P)
qed

end

text \<open>With a callback the text stays what the deltas say; and no delta is a start.\<close>

interpretation texts: stream_passive env "\<lambda>a. se_emit env = None \<or> text_inv a" for env
proof unfold_locales
  show "se_emit env = None \<or> text_inv (fst (emit_text env t a))"
    if "se_emit env = None \<or> text_inv a" for a t
    using that by (cases "se_emit env") (auto intro: emit_text_text)
  show "se_emit env = None \<or> text_inv (fst (emit_reasoning env t a))"
    if "se_emit env = None \<or> text_inv a" for a t
    using that by (cases "se_emit env") (auto intro: emit_reasoning_text)
qed (auto simp: send_def text_inv_def content_def reasoning_def set_usage_def note_finish_def
    set_finish_def add_result_call_def Let_def split: option.split)

definition no_start :: "acc \<Rightarrow> bool" where
  "no_start a \<longleftrightarrow> list_all (\<lambda>d. \<not> d_start d) (a_sent a)"

interpretation plain: stream_passive env no_start for env
  by unfold_locales
    (auto simp: no_start_def send_def emit_text_def emit_reasoning_def set_content_def empty_delta_def
      set_usage_def note_finish_def set_finish_def add_result_call_def Let_def split: option.split prod.split)

interpretation silence: stream_passive env "\<lambda>a. se_emit env = None \<longrightarrow> a_sent a = []" for env
  by unfold_locales
    (auto simp: send_def emit_text_def emit_reasoning_def set_content_def
      set_usage_def note_finish_def set_finish_def add_result_call_def Let_def split: option.split prod.split)

lemma init_acc_simps [simp]:
  "a_calls (init_acc r) = []" "a_sent (init_acc r) = []" "a_r (init_acc r) = r"
  "a_by_id (init_acc r) = Map.empty" "a_by_index (init_acc r) = Map.empty"
  "a_last_call (init_acc r) = 0" "a_terminal (init_acc r) = False" "a_draws (init_acc r) = 0"
  "content (init_acc r) = []" "reasoning (init_acc r) = []"
  "m_calls (c_message (a_result (init_acc r))) = []"
  by (simp_all add: init_acc_def content_def reasoning_def empty_completion_def empty_message_def)

lemma read_stream_text:
  assumes "se_emit env = Some f"
  shows "text_inv (fst (read_ide_stream env inp r))"
  using texts.read_stream_P [of env r inp] assms by (simp add: text_inv_def)

lemma read_stream_plain: "no_start (fst (read_ide_stream env inp r))"
  using plain.read_stream_P [of r env inp] by (simp add: no_start_def)

lemma read_stream_silent: "se_emit env = None \<Longrightarrow> a_sent (fst (read_ide_stream env inp r)) = []"
  using silence.read_stream_P [of env r inp] by simp

text \<open>The deltas a stream may send: never a start, and none without a callback.\<close>

definition plain_deltas :: "stream_env \<Rightarrow> delta list \<Rightarrow> bool" where
  "plain_deltas env ds \<longleftrightarrow> list_all (\<lambda>d. \<not> d_start d) ds \<and> (se_emit env = None \<longrightarrow> ds = [])"

lemma plain_deltas_Nil [simp]: "plain_deltas env []"
  by (simp add: plain_deltas_def)

lemma read_stream_deltas: "read_ide_stream env inp r = (a, e) \<Longrightarrow> plain_deltas env (a_sent a)"
  using read_stream_plain [of env inp r] read_stream_silent [of env inp r]
  by (simp add: plain_deltas_def no_start_def)

section \<open>Tool calls\<close>

definition calls_at :: "nat \<Rightarrow> delta list \<Rightarrow> tool_call list" where
  "calls_at i ds = List.map_filter (\<lambda>d. if d_index d = i then d_call d else None) ds"

definition assembled :: "delta list \<Rightarrow> nat \<Rightarrow> tool_call" where
  "assembled ds i = (let cs = calls_at i ds in
     \<lparr>tc_id = concat (map tc_id cs), tc_type = concat (map tc_type cs),
      tc_fn = \<lparr>fn_name = concat (map (fn_name \<circ> tc_fn) cs),
               fn_args = concat (map (fn_args \<circ> tc_fn) cs)\<rparr>\<rparr>)"

definition slot_pre :: "chat_request \<Rightarrow> delta list \<Rightarrow> nat \<Rightarrow> accumulated_call \<Rightarrow> bool" where
  "slot_pre r ds i st \<longleftrightarrow> tc_id (ac_call st) \<noteq> [] \<and> tc_type (ac_call st) = ''function''
     \<and> length (fn_args (tc_fn (ac_call st))) \<le> 4194304
     \<and> (ac_sent st \<longrightarrow> fn_name (tc_fn (ac_call st)) \<noteq> [] \<and> call_permitted r (fn_name (tc_fn (ac_call st)))
          \<and> assembled ds i = set_args (ac_sent_args st) (ac_call st))
     \<and> (\<not> ac_sent st \<longrightarrow> ac_sent_args st = [] \<and> calls_at i ds = [])"

definition slot_clean :: "accumulated_call \<Rightarrow> bool" where
  "slot_clean st \<longleftrightarrow> (if ac_sent st then ac_sent_args st = fn_args (tc_fn (ac_call st))
     else fn_name (tc_fn (ac_call st)) = [])"

definition index_inv :: "acc \<Rightarrow> bool" where
  "index_inv a \<longleftrightarrow>
     (\<forall>k s. a_by_id a k = Some s \<longrightarrow> s < length (a_calls a) \<and> tc_id (ac_call (a_calls a ! s)) = k)
     \<and> (\<forall>k s. a_by_index a k = Some s \<longrightarrow> s < length (a_calls a))
     \<and> a_last_call a \<le> length (a_calls a)
     \<and> (a_draws a = 0 \<longrightarrow> (\<forall>i < length (a_calls a). a_by_id a (tc_id (ac_call (a_calls a ! i))) = Some i))"

definition calls_inv :: "nat set \<Rightarrow> acc \<Rightarrow> bool" where
  "calls_inv J a \<longleftrightarrow>
     (\<forall>i < length (a_calls a). slot_pre (a_r a) (a_sent a) i (a_calls a ! i)
        \<and> (i \<notin> J \<longrightarrow> slot_clean (a_calls a ! i)))
     \<and> length (a_calls a) \<le> 128
     \<and> (\<forall>d \<in> set (a_sent a). d_call d \<noteq> None \<longrightarrow> d_index d < length (a_calls a))
     \<and> (r_parallel (a_r a) = Some False \<longrightarrow>
          (\<forall>i < length (a_calls a). 0 < i \<longrightarrow> \<not> ac_sent (a_calls a ! i)))
     \<and> m_calls (c_message (a_result a)) = []
     \<and> index_inv a"

lemma calls_at_append [simp]: "calls_at i (ds @ es) = calls_at i ds @ calls_at i es"
  by (simp add: calls_at_def map_filter_def)

lemma calls_at_single:
  "calls_at i [d] = (if d_index d = i then (case d_call d of Some c \<Rightarrow> [c] | None \<Rightarrow> []) else [])"
  by (simp add: calls_at_def map_filter_def split: option.splits)

lemma calls_at_beyond:
  "\<forall>d \<in> set ds. d_call d \<noteq> None \<longrightarrow> d_index d < n \<Longrightarrow> n \<le> i \<Longrightarrow> calls_at i ds = []"
  by (induction ds) (auto simp: calls_at_def map_filter_def)

lemma assembled_quiet: "calls_at i es = [] \<Longrightarrow> assembled (ds @ es) i = assembled ds i"
  by (simp add: assembled_def)

lemma slot_pre_quiet: "calls_at i es = [] \<Longrightarrow> slot_pre r (ds @ es) i st = slot_pre r ds i st"
  by (simp add: slot_pre_def assembled_quiet)

text \<open>Operations that touch neither the calls nor the deltas that carry one.\<close>

lemma calls_inv_frame:
  assumes "calls_inv J a" "a_calls b = a_calls a" "a_r b = a_r a" "a_by_id b = a_by_id a"
    "a_by_index b = a_by_index a" "a_last_call b = a_last_call a" "a_draws b = a_draws a"
    "m_calls (c_message (a_result b)) = m_calls (c_message (a_result a))"
    "a_sent b = a_sent a \<or> (\<exists>d. a_sent b = a_sent a @ [d] \<and> d_call d = None)"
  shows "calls_inv J b"
proof -
  from assms(9) have "\<exists>es. a_sent b = a_sent a @ es \<and> (\<forall>i. calls_at i es = []) \<and> (\<forall>d \<in> set es. d_call d = None)"
    by (auto simp: calls_at_single) (auto simp: calls_at_def map_filter_def)
  then obtain es where es: "a_sent b = a_sent a @ es" "\<And>i. calls_at i es = []" "\<forall>d \<in> set es. d_call d = None"
    by blast
  show ?thesis
    using assms(1-8) unfolding calls_inv_def index_inv_def
    by (auto simp: es slot_pre_quiet)
qed

lemma send_quiet_inv:
  "calls_inv J a \<Longrightarrow> d_call d = None \<Longrightarrow> calls_inv J (fst (send env d a))"
  by (rule calls_inv_frame [of J a]) (auto simp: send_def split: option.splits)

lemma calls_inv_slot:
  assumes "calls_inv J a" "slot < length (a_calls a)"
  shows "slot_pre (a_r a) (a_sent a) slot (a_calls a ! slot)"
  using assms by (simp add: calls_inv_def)

text \<open>Rewriting one slot to a state with the same id.\<close>

lemma calls_inv_upd:
  assumes inv: "calls_inv J a" and slot: "slot < length (a_calls a)"
    and id: "tc_id (ac_call (g (a_calls a ! slot))) = tc_id (ac_call (a_calls a ! slot))"
    and pre: "slot_pre (a_r a) (a_sent a) slot (g (a_calls a ! slot))"
    and sent: "ac_sent (g (a_calls a ! slot)) = ac_sent (a_calls a ! slot)"
    and K: "insert slot J \<subseteq> K"
  shows "calls_inv K (upd_slot slot g a)"
  using inv slot id pre sent K
  unfolding calls_inv_def index_inv_def upd_slot_def
  by (auto simp: nth_list_update split: if_splits)

lemma set_call_name_inv:
  assumes "calls_inv {} a" "slot < length (a_calls a)" "set_call_name name slot a = (b, None)"
  shows "calls_inv {slot} b \<and> length (a_calls b) = length (a_calls a)"
proof (cases "name = []")
  case True
  then show ?thesis using assms by (auto simp: set_call_name_def calls_inv_def)
next
  case False
  with assms(3) have b: "b = upd_slot slot (set_fn (\<lambda>f. f\<lparr>fn_name := name\<rparr>)) a"
    and old: "fn_name (slot_fn a slot) = [] \<or> fn_name (slot_fn a slot) = name"
    by (auto simp: set_call_name_def split: if_splits)
  have "slot_pre (a_r a) (a_sent a) slot (set_fn (\<lambda>f. f\<lparr>fn_name := name\<rparr>) (a_calls a ! slot))"
    using calls_inv_slot [OF assms(1,2)] old
    by (auto simp: slot_pre_def set_fn_def slot_fn_def set_args_def)
  then show ?thesis
    unfolding b using assms(1,2)
    by (auto intro!: calls_inv_upd simp: set_fn_def) (auto simp: upd_slot_def)
qed

lemma grow_args_inv:
  assumes "calls_inv {slot} a" "slot < length (a_calls a)" "grow_args native v slot a = (b, None)"
  shows "calls_inv {slot} b \<and> length (a_calls b) = length (a_calls a)"
proof -
  let ?g = "set_fn (\<lambda>f. f\<lparr>fn_args := merge_args native v (fn_args f)\<rparr>)"
  from assms(2,3) have b: "b = upd_slot slot ?g a"
    and len: "length (fn_args (tc_fn (ac_call (?g (a_calls a ! slot))))) \<le> 4194304"
    by (auto simp: grow_args_def Let_def slot_fn_def upd_slot_def split: if_splits)
  have "slot_pre (a_r a) (a_sent a) slot (?g (a_calls a ! slot))"
    using calls_inv_slot [OF assms(1,2)] len
    by (auto simp: slot_pre_def set_fn_def set_args_def)
  then show ?thesis
    unfolding b using assms(1,2)
    by (auto intro!: calls_inv_upd simp: set_fn_def) (auto simp: upd_slot_def)
qed

lemma assembled_append_call:
  "assembled (ds @ [d]) i = (if d_index d = i then
     (case d_call d of Some c \<Rightarrow>
        \<lparr>tc_id = tc_id (assembled ds i) @ tc_id c, tc_type = tc_type (assembled ds i) @ tc_type c,
         tc_fn = \<lparr>fn_name = fn_name (tc_fn (assembled ds i)) @ fn_name (tc_fn c),
                  fn_args = fn_args (tc_fn (assembled ds i)) @ fn_args (tc_fn c)\<rparr>\<rparr>
      | None \<Rightarrow> assembled ds i) else assembled ds i)"
  by (simp add: assembled_def Let_def calls_at_single split: option.split)

lemma mark_sent_inv:
  assumes inv: "calls_inv {slot} a" and slot: "slot < length (a_calls a)"
    and ok: "fn_name (slot_fn a slot) \<noteq> []" "call_permitted (a_r a) (fn_name (slot_fn a slot))"
      "\<not> (r_parallel (a_r a) = Some False \<and> 1 < length (a_calls a))"
      "has_prefix (fn_args (slot_fn a slot)) (ac_sent_args (a_calls a ! slot))"
    and sent: "a_sent b = a_sent a @ [empty_delta\<lparr>d_call := Some (call_delta a slot), d_index := slot\<rparr>]"
      "b = a\<lparr>a_sent := a_sent b\<rparr>"
  shows "calls_inv {} (mark_sent slot b)"
proof -
  define st where "st = a_calls a ! slot"
  define d where "d = empty_delta\<lparr>d_call := Some (call_delta a slot), d_index := slot\<rparr>"
  have pre: "slot_pre (a_r a) (a_sent a) slot st" using calls_inv_slot [OF inv slot] st_def by simp
  have args: "ac_sent_args st @ trim_prefix (fn_args (tc_fn (ac_call st))) (ac_sent_args st)
      = fn_args (tc_fn (ac_call st))"
    using ok(4) by (simp add: append_trim_prefix slot_fn_def st_def)
  define st' where "st' = st\<lparr>ac_sent := True, ac_sent_args := fn_args (tc_fn (ac_call st))\<rparr>"
  have asm: "assembled (a_sent a @ [d]) slot = ac_call st"
  proof (cases "ac_sent st")
    case True
    then show ?thesis
      using pre args by (auto simp: slot_pre_def assembled_append_call d_def empty_delta_def
          call_delta_def st_def Let_def set_args_def)
  next
    case False
    then have "assembled (a_sent a) slot = \<lparr>tc_id = [], tc_type = [], tc_fn = \<lparr>fn_name = [], fn_args = []\<rparr>\<rparr>"
      using pre by (simp add: slot_pre_def assembled_def)
    then show ?thesis
      using pre args False by (auto simp: slot_pre_def assembled_append_call d_def empty_delta_def
          call_delta_def st_def Let_def)
  qed
  have new: "slot_pre (a_r a) (a_sent a @ [d]) slot st'" "slot_clean st'"
    using pre ok(1,2) asm
    by (auto simp: st'_def slot_pre_def slot_clean_def slot_fn_def st_def set_args_def)
  have others: "slot_pre (a_r a) (a_sent a @ [d]) i x = slot_pre (a_r a) (a_sent a) i x" if "i \<noteq> slot" for i x
    using that by (intro slot_pre_quiet) (simp add: calls_at_single d_def)
  have par: "slot = 0 \<or> r_parallel (a_r a) \<noteq> Some False" using ok(3) slot by auto
  have b: "mark_sent slot b = a\<lparr>a_sent := a_sent a @ [d], a_calls := (a_calls a)[slot := st']\<rparr>"
    using sent by (simp add: mark_sent_def upd_slot_def d_def st'_def st_def)
  have idx: "index_inv (mark_sent slot b)"
    using inv slot unfolding b calls_inv_def index_inv_def
    by (auto simp: nth_list_update st'_def st_def split: if_splits)
  show ?thesis
    unfolding calls_inv_def using idx
    using inv slot new others par unfolding b calls_inv_def
    by (auto simp: nth_list_update d_def st'_def)
qed


lemma emit_call_inv:
  assumes "calls_inv {slot} a" "slot < length (a_calls a)" "se_emit env = Some f"
    "emit_call env slot a = (b, None)"
  shows "calls_inv {} b"
proof -
  define st where "st = a_calls a ! slot"
  define fn where "fn = tc_fn (ac_call st)"
  have pre: "slot_pre (a_r a) (a_sent a) slot st" using calls_inv_slot [OF assms(1,2)] st_def by simp
  have clean: "slot_clean st \<Longrightarrow> calls_inv {} a"
    using assms(1) by (auto simp: calls_inv_def st_def)
  have eq: "emit_call env slot a =
     (if fn_name fn = [] then (a, None)
      else if \<not> call_permitted (a_r a) (fn_name fn)
        then (a, Some (ErrMsg ''Trae requested an unavailable tool''))
      else if r_parallel (a_r a) = Some False \<and> 1 < length (a_calls a)
        then (a, Some (ErrMsg ''Trae returned parallel calls when disabled''))
      else if \<not> has_prefix (fn_args fn) (ac_sent_args st)
        then (a, Some (ErrMsg ''Trae rewrote streamed tool arguments''))
      else if \<not> ac_sent st \<or> trim_prefix (fn_args fn) (ac_sent_args st) \<noteq> []
        then andthen (send env (empty_delta\<lparr>d_call := Some (call_delta a slot), d_index := slot\<rparr>) a)
               (\<lambda>a. (mark_sent slot a, None))
      else (a, None))"
    by (simp add: emit_call_def Let_def st_def fn_def call_delta_def)
  show ?thesis
  proof (cases "fn_name fn = []")
    case True
    then have "slot_clean st" using pre by (auto simp: slot_pre_def slot_clean_def fn_def)
    moreover have "b = a" using eq True assms(4) by simp
    ultimately show ?thesis using clean by simp
  next
    case fn_name_ne: False
    with eq assms(4) have perm: "call_permitted (a_r a) (fn_name fn)"
      and par: "\<not> (r_parallel (a_r a) = Some False \<and> 1 < length (a_calls a))"
      and pfx: "has_prefix (fn_args fn) (ac_sent_args st)"
      by (auto split: if_splits)
    show ?thesis
    proof (cases "ac_sent st \<and> trim_prefix (fn_args fn) (ac_sent_args st) = []")
      case True
      then have "slot_clean st"
        using append_trim_prefix [OF pfx] by (simp add: slot_clean_def fn_def)
      moreover have "b = a"
        using assms(4) fn_name_ne perm pfx par True unfolding eq by (simp split: if_splits)
      ultimately show ?thesis using clean by simp
    next
      case False
      define c where "c = fst (send env (empty_delta\<lparr>d_call := Some (call_delta a slot), d_index := slot\<rparr>) a)"
      have "andthen (send env (empty_delta\<lparr>d_call := Some (call_delta a slot), d_index := slot\<rparr>) a)
          (\<lambda>a. (mark_sent slot a, None)) = (b, None)"
        using assms(4) fn_name_ne perm par pfx False unfolding eq by (auto split: if_splits)
      then have "b = mark_sent slot c" by (auto simp: c_def elim: andthen_okE)
      moreover have "a_sent c = a_sent a @ [empty_delta\<lparr>d_call := Some (call_delta a slot), d_index := slot\<rparr>]"
          "c = a\<lparr>a_sent := a_sent c\<rparr>"
        using assms(3) by (simp_all add: c_def send_def)
      ultimately show ?thesis
        using mark_sent_inv [OF assms(1,2), of c] fn_name_ne perm par pfx
        by (simp add: slot_fn_def st_def fn_def)
    qed
  qed
qed

lemma update_call_inv:
  assumes "calls_inv {} a" "slot < length (a_calls a)" "se_emit env = Some f"
    "update_call env name native v slot a = (b, None)"
  shows "calls_inv {} b"
proof -
  from assms(4) obtain a1 a2 where 1: "set_call_name name slot a = (a1, None)"
    and 2: "grow_args native v slot a1 = (a2, None)" and 3: "emit_call env slot a2 = (b, None)"
    by (auto simp: update_call_def inv_iff)
  from set_call_name_inv [OF assms(1,2) 1] have "calls_inv {slot} a1" "slot < length (a_calls a1)"
    using assms(2) by auto
  with grow_args_inv [OF _ _ 2] have "calls_inv {slot} a2" "slot < length (a_calls a2)" by auto
  then show ?thesis using emit_call_inv assms(3) 3 by blast
qed

lemma address_slot_inv:
  "calls_inv J a \<Longrightarrow> slot < length (a_calls a) \<Longrightarrow> calls_inv J (address_slot index slot a)"
  by (auto simp: calls_inv_def index_inv_def address_slot_def)

lemma find_slot_range:
  assumes "calls_inv J a" "find_slot a ident index = Inr (Some slot)"
  shows "slot < length (a_calls a)"
  using assms unfolding find_slot_def calls_inv_def index_inv_def
  by (auto simp: inv_iff split: option.splits if_splits)

lemma find_slot_none:
  assumes "find_slot a ident index = Inr None"
  shows "a_by_id a ident = None"
  using assms unfolding find_slot_def
  by (auto simp: inv_iff split: option.splits if_splits)

lemma open_slot_inv:
  assumes inv: "calls_inv {} a" and none: "a_by_id a ident = None"
    and op: "open_slot env ident a = (b, None)"
  shows "calls_inv {} b \<and> length (a_calls b) = Suc (length (a_calls a))"
proof -
  define i where "i = (if ident = [] then new_id (se_rand env) ''call_'' (a_draws a) else ident)"
  define n where "n = length (a_calls a)"
  from op have lt: "n < 128"
    and b: "b = a\<lparr>a_calls := a_calls a @ [fresh_call i], a_by_id := (a_by_id a)(i \<mapsto> n),
      a_draws := (if ident = [] then Suc (a_draws a) else a_draws a)\<rparr>"
    by (auto simp: open_slot_def Let_def i_def n_def split: if_splits)
  have i: "i \<noteq> []" by (auto simp: i_def new_id_def)
  have "calls_at n (a_sent a) = []"
    using inv by (intro calls_at_beyond [of _ n]) (auto simp: calls_inv_def n_def)
  then have new: "slot_pre (a_r a) (a_sent a) n (fresh_call i)" "slot_clean (fresh_call i)"
    using i by (auto simp: slot_pre_def slot_clean_def fresh_call_def)
  have idx: "index_inv b"
    using inv none unfolding b calls_inv_def index_inv_def
    by (auto simp: nth_append n_def fresh_call_def i_def less_Suc_eq split: if_splits)
  show ?thesis
    unfolding calls_inv_def using idx inv new lt unfolding b calls_inv_def
    by (auto simp: nth_append n_def less_Suc_eq fresh_call_def)
qed

lemma add_call_inv:
  assumes "calls_inv {} a" "se_emit env = Some f" "add_call env m fb a = (b, None)"
  shows "calls_inv {} b"
proof -
  obtain fn native where fn: "call_function m = (fn, native)" by fastforce
  define name where "name = call_name m fn"
  define ident where "ident = call_ident m fn"
  define val where "val = args_value fn arg_keys"
  have eq: "add_call env m fb a =
     (if name \<in> {''finish'', ''done'', ''final''} \<and> \<not> known_tool (a_r a) name then (a, None)
      else (case call_index m fb of
          Inl e \<Rightarrow> (a, Some e)
        | Inr index \<Rightarrow>
            (case find_slot a ident index of
               Inl e \<Rightarrow> (a, Some e)
             | Inr (Some slot) \<Rightarrow> update_call env name native val slot (address_slot index slot a)
             | Inr None \<Rightarrow> andthen (open_slot env ident a) (\<lambda>b.
                   update_call env name native val (length (a_calls a))
                     (address_slot index (length (a_calls a)) b)))))"
    unfolding add_call_def fn prod.case Let_def name_def ident_def val_def by (rule refl)
  show ?thesis
  proof (cases "name \<in> {''finish'', ''done'', ''final''} \<and> \<not> known_tool (a_r a) name")
    case True
    have "b = a" using assms(3) unfolding eq if_P [OF True] by simp
    then show ?thesis using assms(1) by simp
  next
    case False
    with assms(3) obtain index slot where index: "call_index m fb = Inr index"
      and slot: "find_slot a ident index = Inr slot"
      unfolding eq by (auto split: sum.splits)
    have len [simp]: "length (a_calls (address_slot i s c)) = length (a_calls c)" for i s c
      by (simp add: address_slot_def)
    show ?thesis
    proof (cases slot)
      case (Some k)
      have k: "k < length (a_calls a)" using find_slot_range [OF assms(1)] slot Some by simp
      have "update_call env name native val k (address_slot index k a) = (b, None)"
        using assms(3) unfolding eq if_not_P [OF False] by (simp add: index slot Some)
      then show ?thesis
        using update_call_inv [OF address_slot_inv [OF assms(1) k]] k assms(2) by simp
    next
      case None
      have "andthen (open_slot env ident a) (\<lambda>c. update_call env name native val (length (a_calls a))
          (address_slot index (length (a_calls a)) c)) = (b, None)"
        using assms(3) unfolding eq if_not_P [OF False] by (simp add: index slot None)
      then obtain c where c: "open_slot env ident a = (c, None)"
        and u: "update_call env name native val (length (a_calls a))
          (address_slot index (length (a_calls a)) c) = (b, None)"
        by (rule andthen_okE)
      have "calls_inv {} c" "length (a_calls a) < length (a_calls c)"
        using open_slot_inv [OF assms(1) find_slot_none c] slot None by auto
      then show ?thesis
        using update_call_inv [OF address_slot_inv _ assms(2) u] by simp
    qed
  qed
qed

lemma extract_records_inv:
  "calls_inv {} a \<Longrightarrow> se_emit env = Some f \<Longrightarrow> extract_records env key many i rs a = (b, None)
     \<Longrightarrow> calls_inv {} b"
proof (induction rs arbitrary: i a)
  case (Cons raw rs)
  then show ?case
    by (auto simp: Let_def inv_iff split: option.splits dest: add_call_inv)
qed simp

lemma extract_keys_inv:
  "calls_inv {} a \<Longrightarrow> se_emit env = Some f \<Longrightarrow> extract_keys env ks obj a = (b, None) \<Longrightarrow> calls_inv {} b"
proof (induction ks arbitrary: a)
  case (Cons k ks)
  then show ?case
    by (cases "jget obj k") (auto simp: Let_def inv_iff dest: extract_records_inv)
qed simp

lemma extract_calls_inv:
  "calls_inv {} a \<Longrightarrow> se_emit env = Some f \<Longrightarrow> extract_calls env obj a = (b, None) \<Longrightarrow> calls_inv {} b"
  unfolding extract_calls_def by (rule extract_keys_inv)

text \<open>The parts of a frame outside the calls.\<close>

lemma calls_inv_helpers:
  "calls_inv J a \<Longrightarrow> calls_inv J (set_usage v a)"
  "calls_inv J a \<Longrightarrow> calls_inv J (note_finish obj a)"
  "calls_inv J a \<Longrightarrow> calls_inv J (set_finish s a)"
  "calls_inv J a \<Longrightarrow> calls_inv J (a\<lparr>a_terminal := t\<rparr>)"
  by (rule calls_inv_frame [of J a];
      auto simp: set_usage_def note_finish_def set_finish_def Let_def)+

lemma emit_text_inv: "calls_inv J a \<Longrightarrow> calls_inv J (fst (emit_text env t a))"
  by (rule calls_inv_frame [of J a])
    (auto simp: emit_text_def set_content_def send_def Let_def empty_delta_def split: prod.splits option.splits)

lemma emit_reasoning_inv: "calls_inv J a \<Longrightarrow> calls_inv J (fst (emit_reasoning env t a))"
  by (rule calls_inv_frame [of J a])
    (auto simp: emit_reasoning_def send_def Let_def empty_delta_def split: prod.splits option.splits)

definition size_ok :: "acc \<Rightarrow> bool" where
  "size_ok a \<longleftrightarrow> length (content a) + length (reasoning a) \<le> 16777216"

lemma frame_data_inv:
  assumes "calls_inv {} a" "se_emit env = Some f" "frame_data env kind obj a = (b, None)"
  shows "calls_inv {} b"
proof -
  define a2 where "a2 = note_finish obj
    (case api_object (jfield obj ''usage'') of Some v \<Rightarrow> set_usage v a | None \<Rightarrow> a)"
  have a2: "calls_inv {} a2"
    using assms(1) by (auto simp: a2_def intro: calls_inv_helpers split: option.split)
  obtain t r where tr: "frame_texts obj = (t, r)" by fastforce
  from assms(3) obtain a3 a4 a5 a6 where
    3: "emit_text env t a2 = (a3, None)" and 4: "emit_reasoning env r a3 = (a4, None)"
    and 5: "extract_calls env obj a4 = (a5, None)"
    and 6: "(case api_object (jfield obj ''message'') of
        Some m \<Rightarrow> extract_calls env m a5 | None \<Rightarrow> (a5, None)) = (a6, None)"
    and b: "b = (if kind = ''done'' then a6\<lparr>a_terminal := True\<rparr> else a6)"
    unfolding frame_data_def Let_def tr prod.case a2_def [symmetric]
    by (auto simp: inv_iff check_size_def split: if_splits)
  have "calls_inv {} a4"
    using emit_reasoning_inv [of "{}" a3 env r] emit_text_inv [OF a2, of env t] 3 4 by simp
  then have "calls_inv {} a5" using extract_calls_inv assms(2) 5 by blast
  then have "calls_inv {} a6"
    using extract_calls_inv [OF _ assms(2)] 6 by (auto split: option.splits)
  then show ?thesis using b by (auto intro: calls_inv_helpers)
qed

section \<open>The whole stream\<close>

text \<open>What holds between two lines of a stream that has returned no error so far.\<close>

definition plain_finish :: "acc \<Rightarrow> bool" where
  "plain_finish a \<longleftrightarrow> c_finish (a_result a) \<in> {''stop'', ''length'', ''content_filter''}"

definition stream_inv :: "chat_request \<Rightarrow> acc \<Rightarrow> bool" where
  "stream_inv r a \<longleftrightarrow> calls_inv {} a \<and> size_ok a \<and> plain_finish a \<and> a_r a = r"

lemma emit_text_r: "a_r (fst (emit_text env t a)) = a_r a"
  "c_finish (a_result (fst (emit_text env t a))) = c_finish (a_result a)"
  by (auto simp: emit_text_def send_def set_content_def Let_def split: prod.splits option.splits)

lemma emit_reasoning_r: "a_r (fst (emit_reasoning env t a)) = a_r a"
  "c_finish (a_result (fst (emit_reasoning env t a))) = c_finish (a_result a)"
  by (auto simp: emit_reasoning_def send_def Let_def split: prod.splits option.splits)

lemma helper_fields [simp]:
  "content (set_usage v a) = content a" "reasoning (set_usage v a) = reasoning a" "a_r (set_usage v a) = a_r a"
  "content (note_finish obj a) = content a" "reasoning (note_finish obj a) = reasoning a"
  "a_r (note_finish obj a) = a_r a"
  "content (a\<lparr>a_terminal := b\<rparr>) = content a" "reasoning (a\<lparr>a_terminal := b\<rparr>) = reasoning a"
  "content (set_finish s a) = content a" "reasoning (set_finish s a) = reasoning a" "a_r (set_finish s a) = a_r a"
  by (simp_all add: content_def reasoning_def set_usage_def note_finish_def set_finish_def Let_def)

lemma plain_finish_helpers [simp]:
  "plain_finish (set_usage v a) = plain_finish a"
  "plain_finish (a\<lparr>a_terminal := b\<rparr>) = plain_finish a"
  "plain_finish a \<Longrightarrow> plain_finish (note_finish obj a)"
  "plain_finish (fst (send env d a)) = plain_finish a"
  by (simp_all add: plain_finish_def set_usage_def note_finish_def set_finish_def Let_def)

lemma send_content [simp]:
  "content (fst (send env d a)) = content a" "reasoning (fst (send env d a)) = reasoning a"
  by (simp_all add: content_def reasoning_def)

lemma frame_data_size:
  assumes "frame_data env kind obj a = (b, None)" "plain_finish a"
  shows "size_ok b \<and> plain_finish b \<and> a_r b = a_r a"
proof -
  define a2 where "a2 = note_finish obj
    (case api_object (jfield obj ''usage'') of Some v \<Rightarrow> set_usage v a | None \<Rightarrow> a)"
  have a2: "a_r a2 = a_r a" "plain_finish a2"
    using assms(2) by (auto simp: a2_def split: option.split)
  obtain t r where tr: "frame_texts obj = (t, r)" by fastforce
  from assms(1) obtain a3 a4 a5 a6 where
    3: "emit_text env t a2 = (a3, None)" and 4: "emit_reasoning env r a3 = (a4, None)"
    and sz: "size_ok a4" and 5: "extract_calls env obj a4 = (a5, None)"
    and 6: "(case api_object (jfield obj ''message'') of
        Some m \<Rightarrow> extract_calls env m a5 | None \<Rightarrow> (a5, None)) = (a6, None)"
    and b: "b = (if kind = ''done'' then a6\<lparr>a_terminal := True\<rparr> else a6)"
    unfolding frame_data_def Let_def tr prod.case a2_def [symmetric]
    by (auto simp: inv_iff check_size_def size_ok_def split: if_splits)
  have "a_r a4 = a_r a" "plain_finish a4"
    using emit_text_r [of env t a2] emit_reasoning_r [of env r a3] 3 4 a2 by (simp_all add: plain_finish_def)
  moreover have "content a5 = content a4" "reasoning a5 = reasoning a4" "a_r a5 = a_r a4"
      "c_finish (a_result a5) = c_finish (a_result a4)"
    using extract_calls_frozen [of env obj a4] 5 by simp_all
  moreover have "content a6 = content a5 \<and> reasoning a6 = reasoning a5 \<and> a_r a6 = a_r a5
      \<and> c_finish (a_result a6) = c_finish (a_result a5)"
  proof (cases "api_object (jfield obj ''message'')")
    case (Some m)
    then show ?thesis using extract_calls_frozen [of env m a5] 6 by simp
  qed (use 6 in simp)
  ultimately show ?thesis using sz b by (auto simp: size_ok_def plain_finish_def)
qed

lemma frame_cases:
  assumes "frame env event raw a = (b, None)"
  shows "b = a\<lparr>a_terminal := True\<rparr> \<or> send env (empty_delta\<lparr>d_heartbeat := True\<rparr>) a = (b, None)
    \<or> (\<exists>v. b = set_usage v a) \<or> (\<exists>kind obj. frame_data env kind obj a = (b, None))"
proof (cases "raw = ''[DONE]''")
  case True
  then show ?thesis using assms by (simp add: frame_def)
next
  case raw: False
  with assms obtain mo where mo: "unmarshal_map raw = Some mo"
    by (auto simp: frame_def split: option.splits)
  define kind where "kind = normalize_event (if event = []
    then api_first_string (or_empty mo) [''event'', ''event_type'', ''eventType'', ''type''] else event)"
  have eq: "frame env event raw a = (case frame_error kind (or_empty mo) of
      Some e \<Rightarrow> (a, Some e)
    | None \<Rightarrow>
        if kind \<in> {''heartbeat'', ''keepalive'', ''ping''}
          then send env (empty_delta\<lparr>d_heartbeat := True\<rparr>) a
        else if kind = ''tokenusage''
          then (set_usage (case api_object (jfield (or_empty mo) ''usage'') of
                             Some v \<Rightarrow> v | None \<Rightarrow> or_empty mo) a, None)
        else frame_data env kind (or_empty mo) a)"
    using raw mo by (simp only: frame_def Let_def kind_def if_False option.case)
  with assms have "frame_error kind (or_empty mo) = None" by (auto split: option.splits)
  then show ?thesis using assms unfolding eq by (auto split: if_splits)
qed

lemma frame_inv:
  assumes "stream_inv r a" "se_emit env = Some f" "frame env event raw a = (b, None)"
  shows "stream_inv r b"
proof -
  have beat: "stream_inv r (fst (send env (empty_delta\<lparr>d_heartbeat := True\<rparr>) a))"
    using assms(1) send_quiet_inv [of "{}" a "empty_delta\<lparr>d_heartbeat := True\<rparr>" env]
    by (auto simp: stream_inv_def size_ok_def empty_delta_def)
  have data: "stream_inv r b" if "frame_data env kind obj a = (b, None)" for kind obj
    using assms(1,2) frame_data_inv [of a env f kind obj b] frame_data_size [OF that] that
    by (auto simp: stream_inv_def)
  have same: "stream_inv r (a\<lparr>a_terminal := True\<rparr>)" "stream_inv r (set_usage v a)" for v
    using assms(1) by (auto simp: stream_inv_def size_ok_def intro: calls_inv_helpers)
  from frame_cases [OF assms(3)] show ?thesis
  proof (elim disjE exE)
    assume "send env (empty_delta\<lparr>d_heartbeat := True\<rparr>) a = (b, None)"
    with beat show ?thesis by simp
  qed (simp_all add: same data)
qed

lemma flush_inv:
  assumes "stream_inv r (fst st)" "se_emit env = Some f" "flush env st = (st', None)"
  shows "stream_inv r (fst st')"
proof -
  obtain a event data where st: "st = (a, event, data)" by (cases st)
  show ?thesis
    using assms frame_inv [of r a env f event "join_lines data"]
    by (auto simp: flush_def st stream_inv_def size_ok_def intro: calls_inv_helpers
        split: if_splits prod.splits)
qed

lemma read_line_inv:
  assumes "stream_inv r (fst st)" "se_emit env = Some f" "read_line env line st = (st', None)"
  shows "stream_inv r (fst st')"
proof -
  obtain a event data where st: "st = (a, event, data)" by (cases st)
  consider (event) "andthen (if data \<noteq> [] then flush env st else (st, None))
            (\<lambda>(a, event, data). ((a, trim_space (drop 6 line), data), None)) = (st', None)"
    | (same) "fst st' = a" | (beat) "fst st' = fst (send env (empty_delta\<lparr>d_heartbeat := True\<rparr>) a)"
    using assms(3) by (auto simp: read_line_def st split: if_splits prod.splits)
  then show ?thesis
  proof cases
    case event
    then show ?thesis
      using assms(1) flush_inv [OF assms(1,2)] by (auto simp: inv_iff split: if_splits prod.splits)
  next
    case same
    then show ?thesis using assms(1) st by simp
  next
    case beat
    then show ?thesis
      using assms(1) send_quiet_inv [of "{}" a "empty_delta\<lparr>d_heartbeat := True\<rparr>" env]
      by (auto simp: stream_inv_def size_ok_def empty_delta_def st)
  qed
qed

lemma read_lines_inv:
  "stream_inv r (fst st) \<Longrightarrow> se_emit env = Some f \<Longrightarrow> read_lines env ls st = ((st', broke), None)
     \<Longrightarrow> stream_inv r (fst st')"
proof (induction ls arbitrary: st)
  case (Cons line ls)
  show ?case
  proof (cases "trim_space line = []")
    case True
    obtain st1 e where fl: "flush env st = (st1, e)" by fastforce
    with Cons.prems(3) True have e: "e = None" by (cases e) auto
    have "stream_inv r (fst st1)" using flush_inv [OF Cons.prems(1,2)] fl e by simp
    then show ?thesis using Cons.IH [OF _ Cons.prems(2)] Cons.prems(3) True fl e by (auto split: if_splits)
  next
    case False
    obtain st1 e where fl: "read_line env line st = (st1, e)" by fastforce
    with Cons.prems(3) False have e: "e = None" by (cases e) auto
    have "stream_inv r (fst st1)" using read_line_inv [OF Cons.prems(1,2)] fl e by simp
    then show ?thesis using Cons.IH [OF _ Cons.prems(2)] Cons.prems(3) False fl e by simp
  qed
qed simp

lemma init_inv: "stream_inv r (init_acc r)"
  by (simp add: stream_inv_def size_ok_def calls_inv_def index_inv_def plain_finish_def)
    (simp add: init_acc_def)


subsection \<open>Completing the calls\<close>

definition good_call :: "chat_request \<Rightarrow> tool_call \<Rightarrow> bool" where
  "good_call r c \<longleftrightarrow> tc_id c \<noteq> [] \<and> tc_type c = ''function'' \<and> call_permitted r (fn_name (tc_fn c))
     \<and> json_valid (fn_args (tc_fn c))"

definition done_calls :: "acc \<Rightarrow> tool_call list" where
  "done_calls a = m_calls (c_message (a_result a))"

text \<open>
  After \<open>n\<close> rounds of the final loop: the first \<open>n\<close> calls are in the answer as the client
  assembles them, the others are still what it has assembled.
\<close>

definition finishing :: "chat_request \<Rightarrow> accumulated_call list \<Rightarrow> nat \<Rightarrow> acc \<Rightarrow> bool" where
  "finishing r A n a \<longleftrightarrow> a_calls a = A \<and> n \<le> length A \<and> a_r a = r
     \<and> done_calls a = map (assembled (a_sent a)) [0..<n]
     \<and> (\<forall>i < length A. n \<le> i \<and> ac_sent (A ! i) \<longrightarrow> assembled (a_sent a) i = ac_call (A ! i))
     \<and> (\<forall>d \<in> set (a_sent a). d_call d \<noteq> None \<longrightarrow> d_index d < length A)
     \<and> (\<forall>c \<in> set (done_calls a). good_call r c)
     \<and> map tc_id (done_calls a) = map (tc_id \<circ> ac_call) (take n A)"

lemma done_calls_simps [simp]:
  "done_calls (add_result_call c a) = done_calls a @ [c]"
  "done_calls (fst (send env d a)) = done_calls a"
  "a_calls (add_result_call c a) = a_calls a" "a_sent (add_result_call c a) = a_sent a"
  "a_r (add_result_call c a) = a_r a" "a_terminal (add_result_call c a) = a_terminal a"
  "a_draws (add_result_call c a) = a_draws a"
  "c_finish (a_result (add_result_call c a)) = c_finish (a_result a)"
  "content (add_result_call c a) = content a" "reasoning (add_result_call c a) = reasoning a"
  by (simp_all add: done_calls_def add_result_call_def content_def reasoning_def)

lemma finish_call_step:
  assumes fin: "finishing r A n a" and n: "n < length A" and emit: "se_emit env = Some f"
    and pre: "slot_pre r ds n (A ! n)" and ok: "finish_call env (A ! n) a = (b, None)"
  shows "finishing r A (Suc n) b"
proof -
  define st where "st = A ! n"
  define empty where "empty = (fn_args (tc_fn (ac_call st)) = [])"
  define c where "c = (if empty then set_args ''{}'' (ac_call st) else ac_call st)"
  define d where "d = empty_delta\<lparr>d_index := n, d_call := Some (args_only ''{}'')\<rparr>"
  have len: "length (done_calls a) = n" using fin by (simp add: finishing_def)
  from ok obtain a1 where sent: "ac_sent st"
    and a1: "(if empty then send env d a else (a, None)) = (a1, None)"
    and valid: "json_valid (fn_args (tc_fn c))" and b: "b = add_result_call c a1"
    using len unfolding finish_call_def Let_def done_calls_def [symmetric]
    by (auto simp: inv_iff st_def empty_def c_def d_def split: if_splits)
  have a1': "a_calls a1 = A" "a_r a1 = r" "done_calls a1 = done_calls a"
    using a1 fin done_calls_simps(2) [of env d a] send_fields [of env d a]
    by (auto simp: finishing_def split: if_splits simp del: done_calls_simps(2) send_fields)
  have sent1: "a_sent a1 = (if empty then a_sent a @ [d] else a_sent a)"
    using a1 emit by (auto simp: send_def)
  have asm: "assembled (a_sent a) n = ac_call st"
    using fin n sent by (simp add: finishing_def st_def)
  have asm_n: "assembled (a_sent a1) n = c"
    using asm by (auto simp: sent1 assembled_append_call d_def c_def empty_def args_only_def set_args_def
        empty_delta_def)
  have asm_i: "assembled (a_sent a1) i = assembled (a_sent a) i" if "i \<noteq> n" for i
    using that by (auto simp: sent1 assembled_append_call d_def)
  have good: "good_call r c"
    using pre sent valid by (auto simp: slot_pre_def st_def good_call_def c_def set_args_def)
  have "tc_id c = tc_id (ac_call st)" by (simp add: c_def set_args_def)
  moreover have "map (assembled (a_sent a1)) [0..<n] = map (assembled (a_sent a)) [0..<n]"
    by (rule map_cong) (simp_all add: asm_i)
  moreover have "\<forall>e \<in> set (a_sent a1). d_call e \<noteq> None \<longrightarrow> d_index e < length A"
    using fin n by (auto simp: sent1 finishing_def d_def)
  ultimately show ?thesis
    using fin n a1' asm_n asm_i good unfolding b finishing_def
    by (auto simp: take_Suc_conv_app_nth st_def)
qed

lemma finish_calls_steps:
  assumes "finishing r A n a" "se_emit env = Some f"
    "\<forall>i < length A. slot_pre r ds i (A ! i)" "finish_calls env (drop n A) a = (b, None)"
  shows "finishing r A (length A) b"
  using assms
proof (induction "length A - n" arbitrary: n a)
  case 0
  then have "n = length A" by (simp add: finishing_def)
  with 0 show ?case by simp
next
  case (Suc k)
  then have n: "n < length A" by simp
  then have "drop n A = A ! n # drop (Suc n) A" by (simp add: Cons_nth_drop_Suc)
  with Suc.prems(4) obtain c where 1: "finish_call env (A ! n) a = (c, None)"
    and 2: "finish_calls env (drop (Suc n) A) c = (b, None)"
    by (auto simp: inv_iff)
  have "slot_pre r ds n (A ! n)" using Suc.prems(3) n by simp
  from finish_call_step [OF Suc.prems(1) n Suc.prems(2) this 1]
  show ?case using Suc.hyps(1) [of "Suc n"] Suc.hyps(2) Suc.prems(2,3) 2 by simp
qed

lemma finishing_start:
  assumes "stream_inv r a"
  shows "finishing r (a_calls a) 0 a"
proof -
  have "assembled (a_sent a) i = ac_call (a_calls a ! i)"
    if "i < length (a_calls a)" "ac_sent (a_calls a ! i)" for i
    using assms that by (auto simp: stream_inv_def calls_inv_def slot_pre_def slot_clean_def set_args_def)
  then show ?thesis
    using assms by (auto simp: finishing_def stream_inv_def calls_inv_def done_calls_def)
qed

lemma finish_calls_frozen:
  "content (fst (finish_calls env sts a)) = content a \<and> reasoning (fst (finish_calls env sts a)) = reasoning a
   \<and> a_terminal (fst (finish_calls env sts a)) = a_terminal a
   \<and> a_draws (fst (finish_calls env sts a)) = a_draws a
   \<and> c_finish (a_result (fst (finish_calls env sts a))) = c_finish (a_result a)"
proof (induction sts arbitrary: a)
  case (Cons st sts)
  let ?P = "\<lambda>b. content b = content a \<and> reasoning b = reasoning a \<and> a_terminal b = a_terminal a
    \<and> a_draws b = a_draws a \<and> c_finish (a_result b) = c_finish (a_result a)"
  have "?P (fst (finish_call env st a))"
    unfolding finish_call_def Let_def
    by (auto intro!: andthen_always [where P = ?P] split: if_splits)
  then show ?case
    by (simp only: finish_calls.simps, intro andthen_always [where P = ?P]) (simp_all add: Cons.IH)
qed simp


subsection \<open>The answer\<close>

lemma read_success:
  assumes "read_ide_stream env inp r = (a, None)" "se_emit env = Some f"
  obtains c b where "stream_inv r c" "a_terminal c" "finish_calls env (a_calls c) c = (b, None)"
    "finish_result b = (a, None)"
proof -
  obtain lines long where sl: "scan_lines (si_bytes inp) = (lines, long)" by fastforce
  obtain st broke e where rl: "read_lines env lines (init_acc r, [], []) = ((st, broke), e)"
    by (metis prod.exhaust)
  with assms(1) sl have e: "e = None" by (cases e) (auto simp: read_ide_stream_def)
  have inv: "stream_inv r (fst st)"
    using read_lines_inv [OF _ assms(2), of r "(init_acc r, [], [])"] rl e init_inv by simp
  from assms(1) obtain se where "end_stream env se st = (a, None)"
    by (auto simp: read_ide_stream_def sl rl e)
  then have "andthen (if a_terminal (fst st) then (fst st, None)
      else (case flush env st of (st', e) \<Rightarrow> (fst st', e)))
      (\<lambda>a. if \<not> a_terminal a then (a, Some (ErrMsg ''Trae stream ended without a terminal event''))
            else andthen (finish_calls env (a_calls a) a) finish_result) = (a, None)"
    by (cases se) (simp_all add: end_stream_def)
  then obtain c where c: "(if a_terminal (fst st) then (fst st, None)
      else (case flush env st of (st', e) \<Rightarrow> (fst st', e))) = (c, None)"
    and rest: "(if \<not> a_terminal c then (c, Some (ErrMsg ''Trae stream ended without a terminal event''))
            else andthen (finish_calls env (a_calls c) c) finish_result) = (a, None)"
    by (rule andthen_okE)
  have "stream_inv r c"
  proof (cases "a_terminal (fst st)")
    case True
    then show ?thesis using c inv by simp
  next
    case False
    obtain st' e' where "flush env st = (st', e')" by fastforce
    then show ?thesis using c False flush_inv [OF inv assms(2)] by auto
  qed
  moreover from rest have "a_terminal c" by (auto split: if_splits)
  moreover from rest this obtain b where "finish_calls env (a_calls c) c = (b, None)"
    "finish_result b = (a, None)" by (auto simp: inv_iff)
  ultimately show thesis using that by blast
qed

lemma finish_result_ok:
  assumes "finish_result b = (a, None)"
  shows "a = (if a_calls b \<noteq> [] then set_finish ''tool_calls'' b else b)"
    and "content b \<noteq> [] \<or> reasoning b \<noteq> [] \<or> a_calls b \<noteq> []"
    and "a_calls b = [] \<Longrightarrow> r_choice (a_r b) = ''auto'' \<or> r_choice (a_r b) = ''none''"
  using assms by (auto simp: finish_result_def Let_def split: if_splits)

lemma set_finish_fields [simp]:
  "done_calls (set_finish s a) = done_calls a" "a_sent (set_finish s a) = a_sent a"
  "a_calls (set_finish s a) = a_calls a" "a_terminal (set_finish s a) = a_terminal a"
  "a_draws (set_finish s a) = a_draws a" "c_finish (a_result (set_finish s a)) = s"
  by (simp_all add: set_finish_def done_calls_def)

lemma read_success_facts:
  assumes "read_ide_stream env inp r = (a, None)" "se_emit env = Some f"
  shows "finishing r (a_calls a) (length (a_calls a)) a" "a_terminal a" "size_ok a"
    "length (a_calls a) \<le> 128"
    "r_parallel r = Some False \<Longrightarrow> length (a_calls a) \<le> 1"
    "a_draws a = 0 \<Longrightarrow> distinct (map (tc_id \<circ> ac_call) (a_calls a))"
    "content a \<noteq> [] \<or> reasoning a \<noteq> [] \<or> a_calls a \<noteq> []"
    "a_calls a = [] \<Longrightarrow> r_choice r = ''auto'' \<or> r_choice r = ''none''"
    "c_finish (a_result a) \<in> (if a_calls a = [] then {''stop'', ''length'', ''content_filter''} else {''tool_calls''})"
proof -
  obtain c b where inv: "stream_inv r c" and trm: "a_terminal c"
    and fc: "finish_calls env (a_calls c) c = (b, None)" and fr: "finish_result b = (a, None)"
    using read_success [OF assms] .
  have slots: "\<forall>i < length (a_calls c). slot_pre r (a_sent c) i (a_calls c ! i)"
    using inv by (auto simp: stream_inv_def calls_inv_def)
  have b: "finishing r (a_calls c) (length (a_calls c)) b"
    using finish_calls_steps [OF finishing_start [OF inv] assms(2) slots] fc by simp
  have fz: "content b = content c" "reasoning b = reasoning c" "a_terminal b = a_terminal c"
      "a_draws b = a_draws c" "c_finish (a_result b) = c_finish (a_result c)"
    using finish_calls_frozen [of env "a_calls c" c] fc by simp_all
  note ok = finish_result_ok [OF fr]
  have calls: "a_calls b = a_calls c" "a_calls a = a_calls c" "a_r b = r"
    using b ok(1) by (auto simp: finishing_def)
  have sent: "ac_sent (a_calls c ! i)" if "i < length (a_calls c)" for i
  proof -
    have "\<forall>st \<in> set sts. ac_sent st" if "finish_calls env sts x = (y, None)" for sts x y
      using that by (induction sts arbitrary: x) (auto simp: inv_iff finish_call_def split: if_splits)
    then show ?thesis using fc that by (meson nth_mem)
  qed
  show "finishing r (a_calls a) (length (a_calls a)) a"
    using b ok(1) calls by (auto simp: finishing_def)
  show "a_terminal a" using ok(1) fz trm by simp
  show "size_ok a" using inv ok(1) fz by (simp add: stream_inv_def size_ok_def)
  show "length (a_calls a) \<le> 128" using inv calls by (simp add: stream_inv_def calls_inv_def)
  show "length (a_calls a) \<le> 1" if "r_parallel r = Some False"
  proof (rule ccontr)
    assume "\<not> length (a_calls a) \<le> 1"
    then have "1 < length (a_calls c)" using calls by simp
    then have "\<not> ac_sent (a_calls c ! 1)" using inv that by (auto simp: stream_inv_def calls_inv_def)
    then show False using sent \<open>1 < length (a_calls c)\<close> by blast
  qed
  show "distinct (map (tc_id \<circ> ac_call) (a_calls a))" if "a_draws a = 0"
  proof -
    have "a_draws c = 0" using that ok(1) fz by (auto split: if_splits)
    then have "\<forall>i < length (a_calls c). a_by_id c (tc_id (ac_call (a_calls c ! i))) = Some i"
      using inv by (simp add: stream_inv_def calls_inv_def index_inv_def)
    then show ?thesis
      unfolding calls distinct_conv_nth by (auto simp: nth_eq_iff_index_eq) (metis option.inject)
  qed
  show "content a \<noteq> [] \<or> reasoning a \<noteq> [] \<or> a_calls a \<noteq> []" using ok calls by auto
  show "r_choice r = ''auto'' \<or> r_choice r = ''none''" if "a_calls a = []"
    using ok(3) calls that by simp
  show "c_finish (a_result a) \<in> (if a_calls a = [] then {''stop'', ''length'', ''content_filter''} else {''tool_calls''})"
    using inv ok(1) fz calls by (auto simp: stream_inv_def plain_finish_def)
qed

section \<open>Properties\<close>

text \<open>A concrete stream for the witnesses.\<close>

definition lf_lines :: "string list \<Rightarrow> string" where
  "lf_lines ls = concat (map (\<lambda>l. l @ [CHR 0x0A]) ls)"

definition demo_request :: chat_request where
  "demo_request = sample_validated\<lparr>r_parallel := Some False\<rparr>"

definition demo_input :: stream_input where
  "demo_input = \<lparr>si_bytes = lf_lines
     [dq ''data: {`text`:`a`}'', [],
      dq ''data: {`text`:`ab`,`tool_call`:{`id`:`1`,`name`:`f`}}'', [],
      ''event: done'', []], si_err = None, si_early = False\<rparr>"

definition demo_env :: stream_env where
  "demo_env = \<lparr>se_emit = Some (\<lambda>_ _. None), se_rand = (\<lambda>_. [])\<rparr>"

definition demo_acc :: acc where
  "demo_acc = fst (read_ide_stream demo_env demo_input demo_request)"

lemma demo_emit: "se_emit demo_env = Some (\<lambda>_ _. None)"
  by (simp add: demo_env_def)

lemma demo_run: "read_ide_stream demo_env demo_input demo_request = (demo_acc, None)"
proof -
  have "snd (read_ide_stream demo_env demo_input demo_request) = None" by code_simp
  then show ?thesis by (simp add: demo_acc_def prod_eq_iff)
qed

text \<open>
  C3. A streaming client loses nothing: whatever the stream and however the read ends, the text
  and the reasoning collected for the answer are the deltas handed to the callback, in order.
\<close>

theorem stream_text_matches_deltas:
  assumes "se_emit env = Some f"
  shows "content (fst (read_ide_stream env inp r)) = concat (map d_text (a_sent (fst (read_ide_stream env inp r))))
    \<and> reasoning (fst (read_ide_stream env inp r))
        = concat (map d_reasoning (a_sent (fst (read_ide_stream env inp r))))"
  using read_stream_text [OF assms] by (simp add: text_inv_def)

theorem stream_text_matches_deltas_witness:
  "content (fst (read_ide_stream demo_env demo_input demo_request)) = ''ab''
   \<and> concat (map d_text (a_sent (fst (read_ide_stream demo_env demo_input demo_request)))) = ''ab''"
proof -
  have "content (fst (read_ide_stream demo_env demo_input demo_request)) = ''ab''" by code_simp
  then show ?thesis using stream_text_matches_deltas [OF demo_emit, of demo_input demo_request] by simp
qed

text \<open>
  C4. When the read succeeds, the tool calls of the answer are exactly what a client assembles
  from the call deltas by index (ids, types, names and argument pieces concatenated), and no
  delta names an index beyond them.
\<close>

theorem stream_calls_match_deltas:
  assumes "read_ide_stream env inp r = (a, None)" and "se_emit env = Some f"
  shows "done_calls a = map (assembled (a_sent a)) [0..<length (done_calls a)]
    \<and> (\<forall>d \<in> set (a_sent a). d_call d \<noteq> None \<longrightarrow> d_index d < length (done_calls a))"
  using read_success_facts(1) [OF assms] by (simp add: finishing_def)

theorem stream_calls_match_deltas_witness:
  "done_calls demo_acc = map (assembled (a_sent demo_acc)) [0..<1]
   \<and> map (fn_args \<circ> tc_fn) (done_calls demo_acc) = [''{}'']"
proof -
  have "map (fn_args \<circ> tc_fn) (done_calls (fst (read_ide_stream demo_env demo_input demo_request))) = [''{}'']"
    by code_simp
  then have *: "map (fn_args \<circ> tc_fn) (done_calls demo_acc) = [''{}'']" by (simp add: demo_acc_def)
  then have "length (done_calls demo_acc) = 1" by (metis length_map length_Cons list.size(3) One_nat_def)
  with * stream_calls_match_deltas [OF demo_run demo_emit] show ?thesis by simp
qed

text \<open>A successful answer with a callback; see \<open>IdeStreamModes\<close> for both modes.\<close>

lemma streamed_result_wellformed:
  assumes "read_ide_stream env inp r = (a, None)" and "se_emit env = Some f"
  shows "(\<forall>c \<in> set (done_calls a). good_call r c) \<and> length (done_calls a) \<le> 128
    \<and> (r_parallel r = Some False \<longrightarrow> length (done_calls a) \<le> 1)
    \<and> (a_draws a = 0 \<longrightarrow> distinct (map tc_id (done_calls a)))
    \<and> length (content a) + length (reasoning a) \<le> 16777216"
  using read_success_facts [OF assms] by (auto simp: finishing_def size_ok_def)

text \<open>
  A stream completes only on a terminal event, and the outcome it reports is consistent: it
  has text, reasoning or a tool call; the finish reason is \<open>tool_calls\<close> exactly when there
  are calls, and otherwise \<open>stop\<close>, \<open>length\<close> or \<open>content_filter\<close>; a required or
  named tool choice has been met by at least one call.
\<close>

theorem stream_finish_consistent:
  assumes "read_ide_stream env inp r = (a, None)" and "se_emit env = Some f"
  shows "a_terminal a \<and> (content a \<noteq> [] \<or> reasoning a \<noteq> [] \<or> done_calls a \<noteq> [])
    \<and> c_finish (a_result a) \<in> {''stop'', ''length'', ''content_filter'', ''tool_calls''}
    \<and> (c_finish (a_result a) = ''tool_calls'' \<longleftrightarrow> done_calls a \<noteq> [])
    \<and> (r_choice r \<notin> {''auto'', ''none''} \<longrightarrow> done_calls a \<noteq> [])"
proof -
  have "done_calls a = [] \<longleftrightarrow> a_calls a = []"
    using read_success_facts(1) [OF assms] by (auto simp: finishing_def)
  then show ?thesis
    using read_success_facts(2,7,8,9) [OF assms] by (auto split: if_splits)
qed

theorem stream_finish_consistent_witness:
  "a_terminal demo_acc \<and> c_finish (a_result demo_acc) = ''tool_calls''"
proof -
  have "done_calls (fst (read_ide_stream demo_env demo_input demo_request)) \<noteq> []" by code_simp
  then have "done_calls demo_acc \<noteq> []" by (simp add: demo_acc_def)
  then show ?thesis using stream_finish_consistent [OF demo_run demo_emit] by simp
qed

end
