(* ===== verification/IdeStreamModes.thy ===== *)
theory IdeStreamModes
  imports IdeStreamCorrect
begin

text \<open>
  The callback decides nothing but when to stop: a reader without callback (a request without
  \<open>stream\<close>) and one whose callback accepts every delta go through the same states. The
  proof follows the code: every operation commutes with forgetting the deltas. So what holds of
  every streamed answer holds of the others.
\<close>

definition silent :: "(nat \<Rightarrow> string) \<Rightarrow> stream_env" where
  "silent rand = \<lparr>se_emit = None, se_rand = rand\<rparr>"

definition accepting :: "(nat \<Rightarrow> string) \<Rightarrow> stream_env" where
  "accepting rand = \<lparr>se_emit = Some (\<lambda>_ _. None), se_rand = rand\<rparr>"

definition forget :: "acc \<Rightarrow> acc" where
  "forget a = a\<lparr>a_sent := []\<rparr>"

named_theorems commute \<open>operations that commute with forgetting the deltas\<close>

lemma andthen_commute:
  assumes "m' = apfst h m" and "\<And>s. g (h s) = apfst h (f s)"
  shows "andthen m' g = apfst h (andthen m f)"
  using assms by (cases m, cases "snd m") auto

lemma forget_fields [simp]:
  "a_result (forget a) = a_result a" "a_calls (forget a) = a_calls a" "a_by_id (forget a) = a_by_id a"
  "a_by_index (forget a) = a_by_index a" "a_r (forget a) = a_r a" "a_terminal (forget a) = a_terminal a"
  "a_last_call (forget a) = a_last_call a" "a_draws (forget a) = a_draws a"
  "content (forget a) = content a" "reasoning (forget a) = reasoning a" "slot_fn (forget a) = slot_fn a"
  by (simp_all add: forget_def content_def reasoning_def slot_fn_def fun_eq_iff)

lemma forget_updates:
  "upd_slot i g (forget a) = forget (upd_slot i g a)"
  "mark_sent i (forget a) = forget (mark_sent i a)"
  "address_slot x i (forget a) = forget (address_slot x i a)"
  "set_usage v (forget a) = forget (set_usage v a)"
  "set_finish s (forget a) = forget (set_finish s a)"
  "note_finish obj (forget a) = forget (note_finish obj a)"
  "set_content t (forget a) = forget (set_content t a)"
  "add_result_call c (forget a) = forget (add_result_call c a)"
  "(forget a)\<lparr>a_terminal := b\<rparr> = forget (a\<lparr>a_terminal := b\<rparr>)"
proof -
  show "upd_slot i g (forget a) = forget (upd_slot i g a)" by (simp add: forget_def upd_slot_def)
  show "mark_sent i (forget a) = forget (mark_sent i a)" by (simp add: forget_def mark_sent_def upd_slot_def)
  show "address_slot x i (forget a) = forget (address_slot x i a)" by (simp add: forget_def address_slot_def)
  show "set_usage v (forget a) = forget (set_usage v a)" by (simp add: forget_def set_usage_def)
  show fin: "set_finish s (forget a) = forget (set_finish s a)" for s by (simp add: forget_def set_finish_def)
  show "note_finish obj (forget a) = forget (note_finish obj a)" unfolding note_finish_def Let_def by (simp only: fin if_distrib [of forget])
  show "set_content t (forget a) = forget (set_content t a)" by (simp add: forget_def set_content_def)
  show "add_result_call c (forget a) = forget (add_result_call c a)" by (simp add: forget_def add_result_call_def)
  show "(forget a)\<lparr>a_terminal := b\<rparr> = forget (a\<lparr>a_terminal := b\<rparr>)" by (simp add: forget_def)
qed

lemma send_commute [commute]: "send (silent rd) d (forget a) = apfst forget (send (accepting rd) d a)"
  by (simp add: send_def silent_def accepting_def forget_def)

lemma open_slot_commute [commute]:
  "open_slot (silent rd) i (forget a) = apfst forget (open_slot (accepting rd) i a)"
  by (simp add: open_slot_def silent_def accepting_def forget_def Let_def)

lemma find_slot_forget [simp]: "find_slot (forget a) i x = find_slot a i x"
  unfolding find_slot_def forget_fields by (rule refl)

lemma set_call_name_commute [commute]:
  "set_call_name n i (forget a) = apfst forget (set_call_name n i a)"
  by (simp add: set_call_name_def forget_updates)

lemma grow_args_commute [commute]:
  "grow_args ntv v i (forget a) = apfst forget (grow_args ntv v i a)"
  by (simp add: grow_args_def Let_def forget_updates)

lemma emit_call_commute [commute]:
  "emit_call (silent rd) i (forget a) = apfst forget (emit_call (accepting rd) i a)"
proof -
  have "andthen (send (silent rd) d (forget a)) (\<lambda>a. (mark_sent i a, None)) =
      apfst forget (andthen (send (accepting rd) d a) (\<lambda>a. (mark_sent i a, None)))" for d
    by (rule andthen_commute) (simp_all add: commute forget_updates)
  then show ?thesis by (simp add: emit_call_def Let_def call_delta_def)
qed

lemma update_call_commute [commute]:
  "update_call (silent rd) n ntv v i (forget a) = apfst forget (update_call (accepting rd) n ntv v i a)"
  unfolding update_call_def by (intro andthen_commute commute)

lemma add_call_commute [commute]:
  "add_call (silent rd) m fb (forget a) = apfst forget (add_call (accepting rd) m fb a)"
proof -
  have "andthen (open_slot (silent rd) i (forget a)) (\<lambda>b.
        update_call (silent rd) n ntv v k (address_slot x k b)) =
      apfst forget (andthen (open_slot (accepting rd) i a) (\<lambda>b.
        update_call (accepting rd) n ntv v k (address_slot x k b)))" for i n ntv v k x
    by (intro andthen_commute commute) (simp add: forget_updates commute)
  then show ?thesis
    by (auto simp: add_call_def Let_def forget_updates commute split: prod.split sum.split option.split)
qed

lemma extract_records_commute [commute]:
  "extract_records (silent rd) key many i rs (forget a)
    = apfst forget (extract_records (accepting rd) key many i rs a)"
proof (induction rs arbitrary: i a)
  case (Cons raw rs)
  then show ?case
    by (auto simp: Let_def split: option.split intro!: andthen_commute add_call_commute)
qed simp

lemma extract_keys_commute [commute]:
  "extract_keys (silent rd) ks obj (forget a) = apfst forget (extract_keys (accepting rd) ks obj a)"
proof (induction ks arbitrary: a)
  case (Cons k ks)
  then show ?case
    by (auto simp: Let_def split: option.split intro!: andthen_commute extract_records_commute)
qed simp

lemma extract_calls_commute [commute]:
  "extract_calls (silent rd) obj (forget a) = apfst forget (extract_calls (accepting rd) obj a)"
  by (simp add: extract_calls_def commute)

lemma emit_text_commute [commute]:
  "emit_text (silent rd) t (forget a) = apfst forget (emit_text (accepting rd) t a)"
  by (auto simp: emit_text_def Let_def forget_updates commute split: prod.split)

lemma emit_reasoning_commute [commute]:
  "emit_reasoning (silent rd) t (forget a) = apfst forget (emit_reasoning (accepting rd) t a)"
proof -
  have "(forget a)\<lparr>a_result := x\<rparr> = forget (a\<lparr>a_result := x\<rparr>)" for x by (simp add: forget_def)
  then show ?thesis by (auto simp: emit_reasoning_def Let_def commute split: prod.split)
qed

lemma check_size_commute [commute]: "check_size (forget a) = apfst forget (check_size a)"
  by (simp add: check_size_def)

lemma frame_data_commute [commute]:
  "frame_data (silent rd) kind obj (forget a) = apfst forget (frame_data (accepting rd) kind obj a)"
proof -
  obtain t r where tr: "frame_texts obj = (t, r)" by fastforce
  have start: "note_finish obj (case api_object (jfield obj ''usage'') of
        Some v \<Rightarrow> set_usage v (forget a) | None \<Rightarrow> forget a)
      = forget (note_finish obj (case api_object (jfield obj ''usage'') of
        Some v \<Rightarrow> set_usage v a | None \<Rightarrow> a))"
    by (simp add: forget_updates split: option.split)
  have msg: "(case api_object (jfield obj ''message'') of
        Some m \<Rightarrow> extract_calls (silent rd) m (forget b) | None \<Rightarrow> (forget b, None))
      = apfst forget (case api_object (jfield obj ''message'') of
        Some m \<Rightarrow> extract_calls (accepting rd) m b | None \<Rightarrow> (b, None))" for b
    by (simp add: commute split: option.split)
  show ?thesis
    unfolding frame_data_def Let_def tr prod.case start
    by (intro andthen_commute commute msg) (simp add: forget_updates)
qed

lemma frame_commute [commute]:
  "frame (silent rd) ev raw (forget a) = apfst forget (frame (accepting rd) ev raw a)"
proof (cases "raw = ''[DONE]'' \<or> unmarshal_map raw = None")
  case True
  then show ?thesis by (auto simp: frame_def forget_updates(9))
next
  case False
  then obtain mo where mo: "unmarshal_map raw = Some mo" and raw: "raw \<noteq> ''[DONE]''" by auto
  define kind where "kind = normalize_event (if ev = []
    then api_first_string (or_empty mo) [''event'', ''event_type'', ''eventType'', ''type''] else ev)"
  define use where "use = (case api_object (jfield (or_empty mo) ''usage'') of Some v \<Rightarrow> v | None \<Rightarrow> or_empty mo)"
  have eq: "frame env ev raw b = (case frame_error kind (or_empty mo) of
      Some e \<Rightarrow> (b, Some e)
    | None \<Rightarrow>
        if kind \<in> {''heartbeat'', ''keepalive'', ''ping''} then send env (empty_delta\<lparr>d_heartbeat := True\<rparr>) b
        else if kind = ''tokenusage'' then (set_usage use b, None)
        else frame_data env kind (or_empty mo) b)" for env b
    using raw mo by (simp only: frame_def Let_def kind_def use_def if_False option.case)
  show ?thesis
    unfolding eq by (cases "frame_error kind (or_empty mo)") (simp_all add: forget_updates(4) commute)
qed

lemma flush_commute:
  "flush (silent rd) (apfst forget st) = apfst (apfst forget) (flush (accepting rd) st)"
proof -
  obtain a ev data where st: "st = (a, ev, data)" by (cases st)
  obtain b e where fr: "frame (accepting rd) ev (join_lines data) a = (b, e)" by fastforce
  then have "frame (silent rd) ev (join_lines data) (forget a) = (forget b, e)"
    by (simp add: commute)
  with fr show ?thesis by (simp add: flush_def st forget_updates)
qed

lemma read_line_commute:
  "read_line (silent rd) line (apfst forget st) = apfst (apfst forget) (read_line (accepting rd) line st)"
proof -
  obtain a ev data where st: "st = (a, ev, data)" by (cases st)
  have "andthen (if data \<noteq> [] then flush (silent rd) (apfst forget st) else (apfst forget st, None))
            (\<lambda>(a, event, data). ((a, trim_space (drop 6 line), data), None))
      = apfst (apfst forget) (andthen (if data \<noteq> [] then flush (accepting rd) st else (st, None))
            (\<lambda>(a, event, data). ((a, trim_space (drop 6 line), data), None)))"
    by (rule andthen_commute) (auto simp: flush_commute)
  then show ?thesis
    by (cases "send (accepting rd) (empty_delta\<lparr>d_heartbeat := True\<rparr>) a")
      (auto simp: read_line_def st commute)
qed

lemma read_lines_commute:
  "read_lines (silent rd) ls (apfst forget st)
    = apfst (apfst (apfst forget)) (read_lines (accepting rd) ls st)"
proof (induction ls arbitrary: st)
  case (Cons line ls)
  show ?case
  proof (cases "trim_space line = []")
    case True
    obtain st' e where "flush (accepting rd) st = (st', e)" by fastforce
    moreover then have "flush (silent rd) (apfst forget st) = (apfst forget st', e)"
      by (simp add: flush_commute)
    ultimately show ?thesis using True Cons.IH by (cases e) auto
  next
    case False
    obtain st' e where "read_line (accepting rd) line st = (st', e)" by fastforce
    moreover then have "read_line (silent rd) line (apfst forget st) = (apfst forget st', e)"
      by (simp add: read_line_commute)
    ultimately show ?thesis using False Cons.IH by (cases e) auto
  qed
qed simp

lemma finish_call_commute:
  "finish_call (silent rd) st (forget a) = apfst forget (finish_call (accepting rd) st a)"
  unfolding finish_call_def Let_def
  by (auto simp: forget_updates commute intro!: andthen_commute)

lemma finish_calls_commute:
  "finish_calls (silent rd) sts (forget a) = apfst forget (finish_calls (accepting rd) sts a)"
  by (induction sts arbitrary: a) (auto intro!: andthen_commute finish_call_commute)

lemma finish_result_commute: "finish_result (forget a) = apfst forget (finish_result a)"
  by (simp add: finish_result_def Let_def forget_updates)

lemma end_stream_commute:
  "end_stream (silent rd) se (apfst forget st) = apfst forget (end_stream (accepting rd) se st)"
proof (cases se)
  case None
  have "(if a_terminal (fst (apfst forget st)) then (fst (apfst forget st), None)
       else (case flush (silent rd) (apfst forget st) of (st', e) \<Rightarrow> (fst st', e)))
    = apfst forget (if a_terminal (fst st) then (fst st, None)
       else (case flush (accepting rd) st of (st', e) \<Rightarrow> (fst st', e)))"
    by (simp add: flush_commute split: prod.split)
  then show ?thesis
    unfolding end_stream_def None option.case
    by (rule andthen_commute)
      (auto intro!: andthen_commute finish_result_commute simp: finish_calls_commute)
qed (simp add: end_stream_def)

lemma silent_is_forgetful:
  "read_ide_stream (silent rd) inp r = apfst forget (read_ide_stream (accepting rd) inp r)"
proof -
  obtain lines long where sl: "scan_lines (si_bytes inp) = (lines, long)" by fastforce
  obtain st broke e where rl: "read_lines (accepting rd) lines (init_acc r, [], []) = ((st, broke), e)"
    by (metis prod.exhaust)
  have "forget (init_acc r) = init_acc r" by (simp add: forget_def init_acc_def)
  then have "read_lines (silent rd) lines (init_acc r, [], []) = ((apfst forget st, broke), e)"
    using read_lines_commute [of rd lines "(init_acc r, [], [])"] rl by simp
  with rl sl show ?thesis by (cases e) (auto simp: read_ide_stream_def end_stream_commute)
qed

text \<open>
  C6. Streaming and non-streaming requests get the same answer: reading a stream without a
  callback and reading it with a callback that accepts every delta end with the same error or
  none and the same message, reasoning, usage and finish reason.
\<close>

theorem stream_modes_agree:
  "snd (read_ide_stream (silent rd) inp r) = snd (read_ide_stream (accepting rd) inp r)
   \<and> a_result (fst (read_ide_stream (silent rd) inp r)) = a_result (fst (read_ide_stream (accepting rd) inp r))"
  by (simp add: silent_is_forgetful)

text \<open>
  C5. Every tool call of a successful answer, streamed to a callback or not, is well formed and
  was permitted: a nonempty id, the type \<open>function\<close>, the name of a request tool that the tool
  choice allows, and arguments that are valid JSON. There are at most 128 of them, at most one
  when parallel calls are disabled, with distinct ids when the upstream named them all; text
  and reasoning together stay within 16 MiB.
\<close>

theorem stream_result_wellformed:
  assumes "read_ide_stream env inp r = (a, None)"
  shows "(\<forall>c \<in> set (done_calls a). good_call r c) \<and> length (done_calls a) \<le> 128
    \<and> (r_parallel r = Some False \<longrightarrow> length (done_calls a) \<le> 1)
    \<and> (a_draws a = 0 \<longrightarrow> distinct (map tc_id (done_calls a)))
    \<and> length (content a) + length (reasoning a) \<le> 16777216"
proof (cases "se_emit env")
  case (Some f)
  then show ?thesis by (rule streamed_result_wellformed [OF assms])
next
  case None
  then have env: "env = silent (se_rand env)" by (simp add: silent_def)
  obtain b e where ac: "read_ide_stream (accepting (se_rand env)) inp r = (b, e)" by fastforce
  have "apfst forget (b, e) = (a, None)"
    using assms silent_is_forgetful [of "se_rand env" inp r] unfolding ac env [symmetric] by simp
  then have a: "a = forget b" "e = None" by simp_all
  have "se_emit (accepting (se_rand env)) = Some (\<lambda>_ _. None)" by (simp add: accepting_def)
  from streamed_result_wellformed [OF ac [unfolded a(2)] this] show ?thesis
    by (simp add: a(1) done_calls_def)
qed

theorem stream_result_wellformed_witness:
  "list_all (good_call demo_request) (done_calls (fst (read_ide_stream (silent (\<lambda>_. [])) demo_input demo_request)))
   \<and> done_calls (fst (read_ide_stream (silent (\<lambda>_. [])) demo_input demo_request)) \<noteq> []"
proof -
  obtain a e where r: "read_ide_stream (silent (\<lambda>_. [])) demo_input demo_request = (a, e)" by fastforce
  have "snd (read_ide_stream (silent (\<lambda>_. [])) demo_input demo_request) = None
      \<and> done_calls (fst (read_ide_stream (silent (\<lambda>_. [])) demo_input demo_request)) \<noteq> []" by code_simp
  then have "e = None" "done_calls a \<noteq> []" by (simp_all add: r)
  with stream_result_wellformed [OF r [unfolded \<open>e = None\<close>]] show ?thesis by (simp add: r list_all_iff)
qed

end
