(* ===== verification/Transport.thy ===== *)
theory Transport
  imports ApiValues
begin

text \<open>
  What the parts that talk to the upstream share: the configuration of \<open>main.go\<close>, the access
  credential of \<open>credential_store.go\<close>, and HTTP. The server side of a request is a
  parameter: its answer may depend on the requests sent before. Times are nanoseconds since
  Go's zero time, so that \<open>IsZero\<close> is the comparison with 0. A request keeps its body as
  the value whose \<open>jsonText\<close> is sent.
\<close>

section \<open>Configuration and credential\<close>

record config =
  cf_addr :: string
  cf_auth_addr :: string
  cf_api_token :: string
  cf_base_url :: string
  cf_auth_base_url :: string
  cf_auth_url :: string
  cf_client_id :: string
  cf_ide_version :: string
  cf_ide_version_code :: string
  cf_max_concurrent :: int
  cf_queue_timeout :: int
  cf_request_timeout :: int
  cf_shutdown_timeout :: int

definition second :: int where
  "second = 1000000000"

definition minute :: int where
  "minute = 60 * second"

definition default_config :: config where
  "default_config = \<lparr>
     cf_addr = ''127.0.0.1:8723'', cf_auth_addr = ''127.0.0.1:8765'', cf_api_token = [],
     cf_base_url = ''https://trae-api-cn.mchost.guru'',
     cf_auth_base_url = ''https://api.trae.cn'',
     cf_auth_url = ''https://www.trae.cn/authorization'',
     cf_client_id = ''ono9krqynydwx5'',
     cf_ide_version = ''3.3.65'', cf_ide_version_code = ''20260401'',
     cf_max_concurrent = 2, cf_queue_timeout = minute, cf_request_timeout = 5 * minute,
     cf_shutdown_timeout = 30 * second\<rparr>"

record api_credential =
  ak_version :: int
  ak_token :: string
  ak_expires_at :: int
  ak_user_id :: string
  ak_client_id :: string
  ak_device_id :: string
  ak_machine_id :: string

section \<open>HTTP\<close>

record http_request =
  hq_method :: string
  hq_url :: string
  hq_header :: "(string \<times> string) list"
  hq_body :: json

text \<open>
  The outcome of \<open>http.Client.Do\<close>: no response, with the value \<open>ctx.Err()\<close> has then, or a
  status with the bytes of the body.
\<close>

datatype http_outcome = NoReply "gerror option" | Reply int string

record api_env =
  ae_url_error :: "string \<Rightarrow> gerror option"
  ae_do :: "http_request list \<Rightarrow> http_request \<Rightarrow> http_outcome"
  ae_now :: "nat \<Rightarrow> int"
  ae_rand :: "nat \<Rightarrow> string"

text \<open>\<open>http.Header.Set\<close>: the canonical form of the key, which replaces the old value.\<close>

fun canonical_from :: "bool \<Rightarrow> string \<Rightarrow> string" where
  "canonical_from up [] = []"
| "canonical_from up (c # cs) =
     (let n = of_char c :: nat;
          d = (if up \<and> 97 \<le> n \<and> n \<le> 122 then char_of (n - 32)
               else if \<not> up \<and> 65 \<le> n \<and> n \<le> 90 then char_of (n + 32) else c)
      in d # canonical_from (c = CHR ''-'') cs)"

definition canonical_key :: "string \<Rightarrow> string" where
  "canonical_key k = canonical_from True k"

definition set_header :: "string \<Rightarrow> string \<Rightarrow> (string \<times> string) list \<Rightarrow> (string \<times> string) list" where
  "set_header k v h = mput (canonical_key k) v h"

text \<open>\<open>strings.TrimRight(s, "/")\<close>.\<close>

definition trim_slash :: "string \<Rightarrow> string" where
  "trim_slash s = rev (dropWhile (\<lambda>c. c = CHR ''/'') (rev s))"

text \<open>
  \<open>json.NewDecoder(io.LimitReader(body, n)).Decode(&root)\<close> for a \<open>map[string]any\<close>: the
  first value within the limit; what follows it is not looked at.
\<close>

definition decode_map :: "nat \<Rightarrow> string \<Rightarrow> jobj option option" where
  "decode_map n body =
     (let s = take n body in
      case pvalue (fuel_for s) s of
        Some (JObj m, r) \<Rightarrow> if nums_ok (JObj m) then Some (Some m) else None
      | Some (JNull, r) \<Rightarrow> Some None
      | _ \<Rightarrow> None)"

text \<open>A Go \<open>int\<close> as a JSON number.\<close>

definition jint :: "int \<Rightarrow> json" where
  "jint i = JNum (Number (i < 0) (nat \<bar>i\<bar>) 0)"

lemma map_of_set_header [simp]: "map_of (set_header k v h) = (map_of h)(canonical_key k \<mapsto> v)"
  by (simp add: set_header_def)

lemma mwf_set_header [simp]: "mwf h \<Longrightarrow> mwf (set_header k v h)"
  by (simp add: set_header_def)

lemma jint_inject [simp]: "jint i = jint j \<longleftrightarrow> i = j"
  by (auto simp: jint_def)

end
