(* ===== verification/JsonWrite.thy ===== *)
theory JsonWrite
  imports Json
begin

text \<open>
  Objects written member by member, as \<open>json.Marshal\<close> writes a struct: the members in the
  order of the fields, each with the text of its value. What is written parses back, as a
  value and as raw members.
\<close>

lemma hex_char_val: "d < 16 \<Longrightarrow> hex_val (hex_char d) = Some d"
  by (auto simp: hex_val_def hex_char_def Let_def)

lemma pstring_plain:
  "c \<noteq> CHR 0x22 \<Longrightarrow> c \<noteq> CHR 0x5C \<Longrightarrow> \<not> (of_char c :: nat) < 32 \<Longrightarrow>
   pstring (c # t) = map_option (\<lambda>(x, u). (c # x, u)) (pstring t)"
  by simp

lemma pstring_escaped:
  "e \<noteq> CHR ''u'' \<Longrightarrow> simple_escape e = Some d \<Longrightarrow>
   pstring (CHR 0x5C # e # t) = map_option (\<lambda>(x, u). (d # x, u)) (pstring t)"
  by simp

lemma pstring_hex:
  assumes "n < 128"
  shows "pstring (CHR 0x5C # CHR ''u'' # CHR ''0'' # CHR ''0'' # hex_char (n div 16) # hex_char (n mod 16) # t)
    = map_option (\<lambda>(x, u). (char_of n # x, u)) (pstring t)"
proof -
  have "hex_val (CHR ''0'') = Some 0" by (simp add: hex_val_def)
  moreover have "n div 16 * 16 + n mod 16 = n" by simp
  ultimately have h: "hex4 (CHR ''0'' # CHR ''0'' # hex_char (n div 16) # hex_char (n mod 16) # t) = Some n"
    using assms hex_char_val [of "n div 16"] hex_char_val [of "n mod 16"] by (simp add: hex4_def)
  have "encode_rune n = [char_of n]" using assms by (simp add: encode_rune_def)
  then show ?thesis using assms
    unfolding pstring.simps h by (simp add: h)
qed

lemma pstring_escape_char:
  "pstring (escape_char c @ t) = map_option (\<lambda>(x, u). (c # x, u)) (pstring t)"
proof -
  let ?n = "of_char c :: nat"
  consider "c = CHR 0x22 \<or> c = CHR 0x5C" | "?n \<in> {8, 12, 10, 13, 9}"
    | "c \<noteq> CHR 0x22" "c \<noteq> CHR 0x5C" "?n \<notin> {8, 12, 10, 13, 9}" "?n < 32 \<or> c = CHR ''<'' \<or> c = CHR ''>'' \<or> c = CHR ''&''"
    | "c \<noteq> CHR 0x22" "c \<noteq> CHR 0x5C" "\<not> ?n < 32" "c \<noteq> CHR ''<''" "c \<noteq> CHR ''>''" "c \<noteq> CHR ''&''"
    by blast
  then show ?thesis
  proof cases
    case 1
    then show ?thesis by (auto simp: escape_char_def simple_escape_def)
  next
    case 2
    have "char_of ?n = c" by (rule char_of_char)
    with 2 have "c \<in> char_of ` {8, 12, 10, 13, 9 :: nat}" by (metis image_eqI)
    then have "c \<in> {CHR 0x08, CHR 0x0C, CHR 0x0A, CHR 0x0D, CHR 0x09}" by (simp add: char_of_def bit_0)
    then show ?thesis by (auto simp: escape_char_def simple_escape_def)
  next
    case 3
    have n: "?n < 128" using 3(4) by auto
    have "escape_char c = CHR 0x5C # CHR ''u'' # CHR ''0'' # CHR ''0'' # [hex_char (?n div 16), hex_char (?n mod 16)]"
      using 3 by (auto simp: escape_char_def Let_def)
    then show ?thesis using pstring_hex [OF n, of t] by simp
  next
    case 4
    have "escape_char c = [c]" using 4 by (auto simp: escape_char_def Let_def)
    then show ?thesis using 4 by simp
  qed
qed

lemma pstring_quote: "pstring (concat (map escape_char s) @ CHR 0x22 # rest) = Some (s, rest)"
  by (induction s) (simp_all add: pstring_escape_char del: pstring.simps(2), simp)

text \<open>A member's text as the encoder writes it, and an object of such members.\<close>

definition raw_item :: "string \<times> string \<Rightarrow> string" where
  "raw_item p = quote_str (fst p) @ '':'' @ snd p"

definition raw_obj :: "(string \<times> string) list \<Rightarrow> string" where
  "raw_obj ms = ''{'' @ commas (map raw_item ms) @ ''}''"

text \<open>The text of a value that ends where the object goes on.\<close>

definition value_text :: "string \<Rightarrow> json \<Rightarrow> bool" where
  "value_text r v \<longleftrightarrow> r \<noteq> [] \<and> \<not> ws_char (hd r) \<and>
     (\<forall>n rest. take 1 rest = ''}'' \<or> take 1 rest = '','' \<longrightarrow> pvalue (Suc n) (r @ rest) = Some (v, rest))"

lemma value_textD:
  "value_text r v \<Longrightarrow> take 1 t = ''}'' \<or> take 1 t = '','' \<Longrightarrow> pvalue (Suc n) (r @ t) = Some (v, t)"
  unfolding value_text_def by blast

lemma skip_ws_id: "s \<noteq> [] \<Longrightarrow> \<not> ws_char (hd s) \<Longrightarrow> skip_ws s = s"
  by (cases s) (simp_all add: skip_ws_def)

lemma skip_ws_lits [simp]:
  "skip_ws (CHR 0x22 # t) = CHR 0x22 # t" "skip_ws (CHR '':'' # t) = CHR '':'' # t"
  "skip_ws (CHR '','' # t) = CHR '','' # t" "skip_ws (CHR ''}'' # t) = CHR ''}'' # t"
  "skip_ws (CHR ''{'' # t) = CHR ''{'' # t"
  by (simp_all add: skip_ws_def ws_char_def)

lemma quote_str_cons: "quote_str s @ t = CHR 0x22 # concat (map escape_char s) @ CHR 0x22 # t"
  by (simp add: quote_str_def)

lemma raw_item_cons: "raw_item (k, r) @ t = CHR 0x22 # concat (map escape_char k) @ CHR 0x22 # CHR '':'' # r @ t"
  by (simp add: raw_item_def quote_str_cons)

lemma value_text_string: "value_text (quote_str s) (JStr s)"
  unfolding value_text_def
  by (auto simp: quote_str_cons pvalue.simps pstring_quote Let_def) (simp_all add: quote_str_def ws_char_def)

lemma value_text_bool: "value_text ''true'' (JBool True)" "value_text ''false'' (JBool False)"
  by (simp_all add: value_text_def pvalue.simps skip_ws_def ws_char_def)

lemma commas_Cons: "commas (x # xs) = (if xs = [] then x else x @ '','' @ commas xs)"
  by (cases xs) auto

lemma pmembers_items:
  assumes "list_all2 (\<lambda>p q. fst q = fst p \<and> value_text (snd p) (snd q)) ms vs" "ms \<noteq> []" "length ms < n"
  shows "pmembers n (commas (map raw_item ms) @ ''}'' @ rest) = Some (vs, rest)"
  using assms
proof (induction ms arbitrary: n vs)
  case (Cons p ms)
  obtain k r where p: "p = (k, r)" by (cases p)
  obtain q us where vs: "vs = q # us" using Cons.prems(1) by (cases vs) auto
  from Cons.prems(1) p vs obtain v where q: "q = (k, v)" "value_text r v"
    "list_all2 (\<lambda>p q. fst q = fst p \<and> value_text (snd p) (snd q)) ms us" by (cases q) auto
  obtain j where n: "n = Suc j" "length ms < j" using Cons.prems(3) by (cases n) auto
  have val: "pvalue j (r @ t) = Some (v, t)" if "take 1 t = ''}'' \<or> take 1 t = '',''" for t
    using value_textD [OF q(2) that] n(2) by (cases j) auto
  show ?case
  proof (cases "ms = []")
    case True
    then show ?thesis using q vs
      by (simp add: p n(1) raw_item_cons pmembers.simps(2) pstring_quote val Let_def)
  next
    case False
    then have "pmembers j (commas (map raw_item ms) @ ''}'' @ rest) = Some (us, rest)"
      using Cons.IH [OF q(3)] n(2) by simp
    then show ?thesis using False q vs
      by (simp add: p n(1) raw_item_cons commas_Cons pmembers.simps(2) pstring_quote val Let_def)
  qed
qed simp

lemma praw_items:
  assumes "list_all2 (\<lambda>p q. fst q = fst p \<and> value_text (snd p) (snd q)) ms vs" "ms \<noteq> []" "length ms \<le> n"
  shows "praw n (commas (map raw_item ms) @ ''}'' @ rest) = Some ms"
  using assms
proof (induction ms arbitrary: n vs)
  case (Cons p ms)
  obtain k r where p: "p = (k, r)" by (cases p)
  obtain q us where vs: "vs = q # us" using Cons.prems(1) by (cases vs) auto
  from Cons.prems(1) p vs obtain v where q: "value_text r v"
    "list_all2 (\<lambda>p q. fst q = fst p \<and> value_text (snd p) (snd q)) ms us" by auto
  obtain j where n: "n = Suc j" using Cons.prems(3) by (cases n) auto
  have val: "pvalue (fuel_for t) (r @ u) = Some (v, u)" if "take 1 u = ''}'' \<or> take 1 u = '',''" for t u
    using value_textD [OF q(1) that] by (simp add: fuel_for_def)
  have r: "skip_ws (r @ t) = r @ t" for t
    using q(1) by (intro skip_ws_id) (auto simp: value_text_def)
  show ?case
  proof (cases "ms = []")
    case True
    then show ?thesis
      by (simp add: p n raw_item_cons pstring_quote val r Let_def)
  next
    case False
    then have "praw j (commas (map raw_item ms) @ ''}'' @ rest) = Some ms"
      using Cons.IH [OF q(2)] Cons.prems(3) n by simp
    then show ?thesis using False
      by (simp add: p n raw_item_cons commas_Cons pstring_quote val r Let_def)
  qed
qed simp

lemma length_commas_ge: "length xs \<le> length (commas xs) + 1"
proof (induction xs)
  case (Cons x xs)
  then show ?case by (cases "xs = []") (auto simp: commas_Cons)
qed simp

text \<open>An object printed member by member parses back, as a value and as raw members.\<close>

lemma raw_obj_roundtrip:
  assumes "list_all2 (\<lambda>p q. fst q = fst p \<and> value_text (snd p) (snd q)) ms vs" "ms \<noteq> []"
  shows "pvalue (fuel_for (raw_obj ms)) (raw_obj ms) = Some (JObj vs, [])"
    "parse_json (raw_obj ms) = Some (JObj vs)" "raw_members (raw_obj ms) = Some (Some ms)"
proof -
  define body where "body = commas (map raw_item ms) @ ''}''"
  have obj: "raw_obj ms = CHR ''{'' # body" by (simp add: raw_obj_def body_def)
  have "length ms \<le> length body"
    using length_commas_ge [of "map raw_item ms"] by (simp add: body_def)
  then have len: "length ms \<le> length (raw_obj ms)" by (simp add: obj)
  obtain k r ps where ms: "ms = (k, r) # ps" using assms(2) by (cases ms) auto
  have "\<exists>t. body = CHR 0x22 # t"
    by (cases "ps = []") (simp_all add: body_def ms commas_Cons raw_item_cons)
  then obtain t where hd: "body = CHR 0x22 # t" by blast
  have "pmembers (Suc (2 * length (raw_obj ms))) body = Some (vs, [])"
    unfolding body_def using len pmembers_items [OF assms, of _ "[]"] by (simp only: append_Nil2)
  moreover have "fuel_for (raw_obj ms) = Suc (Suc (2 * length (raw_obj ms)))" by (simp add: fuel_for_def)
  ultimately show pv: "pvalue (fuel_for (raw_obj ms)) (raw_obj ms) = Some (JObj vs, [])"
    by (simp only: pvalue.simps(2) obj skip_ws_lits) (simp add: hd)
  show p: "parse_json (raw_obj ms) = Some (JObj vs)" by (simp add: parse_json_def pv skip_ws_def)
  have "praw (length (raw_obj ms)) body = Some ms"
    unfolding body_def using praw_items [OF assms len, of "[]"] by (simp only: append_Nil2)
  moreover obtain q qs where "vs = q # qs" using assms(1) ms by (cases vs) auto
  ultimately show "raw_members (raw_obj ms) = Some (Some ms)"
    unfolding raw_members_def p by (simp add: obj)
qed

end
