(* ===== verification/Credential.thy ===== *)
theory Credential
  imports Transport JsonWrite
begin

text \<open>
  The credential of \<open>auth.go\<close> and its two readings of the disk (\<open>credential_store.go\<close>):
  \<open>storedCredential\<close>, which Auth decodes strictly and in full, and \<open>apiCredential\<close>, the
  narrow snapshot of the API. The texts of a time and of a private key are parameters: what
  \<open>time.Time\<close> marshals to depends on its location, and X.509 is not modelled.
\<close>

section \<open>Data\<close>

text \<open>An ECDSA private key: whether its curve is P-256, and which key it is.\<close>

record device_key =
  dk_p256 :: bool
  dk_id :: nat

datatype private_key = Ecdsa device_key | OtherKey

record credential =
  cr_token :: string
  cr_refresh_token :: string
  cr_user_id :: string
  cr_client_id :: string
  cr_expires_at :: int
  cr_refresh_expires_at :: int
  cr_refresh_pending :: bool
  cr_device_id :: string
  cr_machine_id :: string
  cr_device_key :: "device_key option"

definition empty_credential :: credential where
  "empty_credential = \<lparr>cr_token = [], cr_refresh_token = [], cr_user_id = [], cr_client_id = [],
     cr_expires_at = 0, cr_refresh_expires_at = 0, cr_refresh_pending = False, cr_device_id = [],
     cr_machine_id = [], cr_device_key = None\<rparr>"

record stored_credential =
  sc_credential :: credential
  sc_version :: int
  sc_device_private_key :: string

text \<open>
  The parameters: the JSON text of a time (\<open>None\<close> outside the years it can write) and its
  reading; PKCS#8 of a key; base64 of the standard alphabet.
\<close>

record codec =
  co_time_text :: "int \<Rightarrow> string option"
  co_time_parse :: "string \<Rightarrow> int option"
  co_pkcs8 :: "device_key \<Rightarrow> string option"
  co_pkcs8_parse :: "string \<Rightarrow> private_key option"
  co_base64 :: "string \<Rightarrow> string"
  co_base64_decode :: "string \<Rightarrow> string option"

definition credential_version :: int where
  "credential_version = 1"

section \<open>Decoding\<close>

text \<open>
  The values of one field among raw members, in source order, and the assignments they make
  to a field of the four types the credentials have. \<open>null\<close> leaves a field as it is.
\<close>

definition raw_values :: "string \<Rightarrow> (string \<times> string) list \<Rightarrow> string list" where
  "raw_values name ms = map snd (filter (\<lambda>p. key_matches name (fst p)) ms)"

fun assign_raw :: "(string \<Rightarrow> 'a option) \<Rightarrow> 'a \<Rightarrow> string list \<Rightarrow> 'a option" where
  "assign_raw f x [] = Some x"
| "assign_raw f x (r # rs) =
     (if r = ''null'' then assign_raw f x rs
      else (case f r of Some y \<Rightarrow> assign_raw f y rs | None \<Rightarrow> None))"

definition raw_string :: "string \<Rightarrow> string option" where
  "raw_string r = (case parse_json r of Some (JStr s) \<Rightarrow> Some s | _ \<Rightarrow> None)"

definition raw_bool :: "string \<Rightarrow> bool option" where
  "raw_bool r = (case parse_json r of Some (JBool b) \<Rightarrow> Some b | _ \<Rightarrow> None)"

text \<open>\<open>strconv.ParseInt\<close> of a number literal, which has no fraction and no exponent.\<close>

definition raw_int :: "string \<Rightarrow> int option" where
  "raw_int r =
     (let neg = (take 1 r = ''-''); d = (if neg then drop 1 r else r);
          n = (if neg then - int (nat_of_digits d) else int (nat_of_digits d))
      in if d \<noteq> [] \<and> list_all is_digit d \<and> - (2 ^ 63) \<le> n \<and> n < 2 ^ 63 then Some n else None)"

definition field_str :: "string \<Rightarrow> (string \<times> string) list \<Rightarrow> string option" where
  "field_str name ms = assign_raw raw_string [] (raw_values name ms)"

text \<open>
  \<open>decodeCredential\<close>: one value, nothing after it, and in strict mode only known members.
  What it decodes into is \<open>fill\<close>; a \<open>null\<close> document leaves the target as it is.
\<close>

definition known_member :: "string list \<Rightarrow> string \<times> string \<Rightarrow> bool" where
  "known_member names p \<longleftrightarrow> list_ex (\<lambda>n. key_matches n (fst p)) names"

definition decode_credential ::
  "((string \<times> string) list \<Rightarrow> 'a option) \<Rightarrow> string list \<Rightarrow> bool \<Rightarrow> string \<Rightarrow> 'a res" where
  "decode_credential fill names strict s =
     (case pvalue (fuel_for s) s of
        None \<Rightarrow> Inl (ErrMsg ''invalid credential JSON'')
      | Some (v, rest) \<Rightarrow>
          (case raw_members (take (length s - length rest) s) of
             None \<Rightarrow> Inl (ErrMsg ''invalid credential JSON'')
           | Some mo \<Rightarrow>
               (let ms = (case mo of Some ms \<Rightarrow> ms | None \<Rightarrow> []) in
                if strict \<and> \<not> list_all (known_member names) ms
                then Inl (ErrMsg ''invalid credential JSON'')
                else (case fill ms of
                        None \<Rightarrow> Inl (ErrMsg ''invalid credential JSON'')
                      | Some x \<Rightarrow>
                          if skip_ws rest = [] then Inr x
                          else Inl (ErrMsg ''trailing credential JSON'')))))"

definition obind :: "'a option \<Rightarrow> ('a \<Rightarrow> 'b option) \<Rightarrow> 'b option" where
  "obind x f = (case x of Some y \<Rightarrow> f y | None \<Rightarrow> None)"

definition field_time :: "codec \<Rightarrow> string \<Rightarrow> (string \<times> string) list \<Rightarrow> int option" where
  "field_time co name ms = assign_raw (co_time_parse co) 0 (raw_values name ms)"

definition field_version :: "(string \<times> string) list \<Rightarrow> int option" where
  "field_version ms = assign_raw raw_int 0 (raw_values ''version'' ms)"

definition fill_api :: "codec \<Rightarrow> (string \<times> string) list \<Rightarrow> api_credential option" where
  "fill_api co ms =
     obind (field_version ms) (\<lambda>ver.
     obind (field_str ''token'' ms) (\<lambda>token.
     obind (field_time co ''expires_at'' ms) (\<lambda>expires.
     obind (field_str ''user_id'' ms) (\<lambda>user.
     obind (field_str ''client_id'' ms) (\<lambda>client.
     obind (field_str ''device_id'' ms) (\<lambda>device.
     obind (field_str ''machine_id'' ms) (\<lambda>machine.
       Some \<lparr>ak_version = ver, ak_token = token, ak_expires_at = expires, ak_user_id = user,
             ak_client_id = client, ak_device_id = device, ak_machine_id = machine\<rparr>)))))))"

text \<open>The fields of the embedded \<open>credential\<close>, in its order, and the two of \<open>storedCredential\<close>.\<close>

definition fill_stored :: "codec \<Rightarrow> (string \<times> string) list \<Rightarrow> stored_credential option" where
  "fill_stored co ms =
     obind (field_str ''token'' ms) (\<lambda>token.
     obind (field_str ''refresh_token'' ms) (\<lambda>refresh.
     obind (field_str ''user_id'' ms) (\<lambda>user.
     obind (field_str ''client_id'' ms) (\<lambda>client.
     obind (field_time co ''expires_at'' ms) (\<lambda>expires.
     obind (field_time co ''refresh_expires_at'' ms) (\<lambda>refresh_expires.
     obind (assign_raw raw_bool False (raw_values ''refresh_pending'' ms)) (\<lambda>pending.
     obind (field_str ''device_id'' ms) (\<lambda>device.
     obind (field_str ''machine_id'' ms) (\<lambda>machine.
     obind (field_version ms) (\<lambda>ver.
     obind (field_str ''device_private_key'' ms) (\<lambda>key.
       Some \<lparr>sc_credential = \<lparr>cr_token = token, cr_refresh_token = refresh, cr_user_id = user,
               cr_client_id = client, cr_expires_at = expires, cr_refresh_expires_at = refresh_expires,
               cr_refresh_pending = pending, cr_device_id = device, cr_machine_id = machine,
               cr_device_key = None\<rparr>,
             sc_version = ver, sc_device_private_key = key\<rparr>)))))))))))"

definition api_names :: "string list" where
  "api_names = [''version'', ''token'', ''expires_at'', ''user_id'', ''client_id'', ''device_id'', ''machine_id'']"

definition stored_names :: "string list" where
  "stored_names = [''token'', ''refresh_token'', ''user_id'', ''client_id'', ''expires_at'',
     ''refresh_expires_at'', ''refresh_pending'', ''device_id'', ''machine_id'', ''version'',
     ''device_private_key'']"

section \<open>Checks\<close>

definition validate_api :: "api_credential \<Rightarrow> gerror option" where
  "validate_api c =
     (if ak_version c \<noteq> credential_version
        then Some (ErrMsg (''unsupported credential version '' @ show_int (ak_version c)))
      else if ak_token c = [] \<or> ak_user_id c = [] \<or> ak_client_id c = [] \<or> ak_device_id c = []
          \<or> ak_machine_id c = [] \<or> ak_expires_at c = 0
        then Some (ErrMsg ''incomplete credential'')
      else None)"

definition api_view :: "int \<Rightarrow> credential \<Rightarrow> api_credential" where
  "api_view ver c = \<lparr>ak_version = ver, ak_token = cr_token c, ak_expires_at = cr_expires_at c,
     ak_user_id = cr_user_id c, ak_client_id = cr_client_id c, ak_device_id = cr_device_id c,
     ak_machine_id = cr_machine_id c\<rparr>"

text \<open>What \<open>Load\<close> makes of the bytes of the file.\<close>

definition load_bytes :: "codec \<Rightarrow> string \<Rightarrow> credential res" where
  "load_bytes co data =
     rbind (decode_credential (fill_stored co) stored_names True data) (\<lambda>disk.
      let c = sc_credential disk in
      case validate_api (api_view (sc_version disk) c) of
        Some e \<Rightarrow> Inl e
      | None \<Rightarrow>
          if cr_refresh_token c = [] \<or> cr_refresh_expires_at c = 0 \<or> sc_device_private_key disk = []
          then Inl (ErrMsg ''incomplete Auth credential'')
          else (case co_base64_decode co (sc_device_private_key disk) of
                  None \<Rightarrow> Inl (ErrMsg ''invalid device private key'')
                | Some der \<Rightarrow>
                    (case co_pkcs8_parse co der of
                       None \<Rightarrow> Inl (ErrMsg ''invalid device private key'')
                     | Some OtherKey \<Rightarrow> Inl (ErrMsg ''device private key must be P-256'')
                     | Some (Ecdsa k) \<Rightarrow>
                         if \<not> dk_p256 k then Inl (ErrMsg ''device private key must be P-256'')
                         else Inr (c\<lparr>cr_device_key := Some k\<rparr>))))"

text \<open>What \<open>readAPICredential\<close> makes of them at a time.\<close>

definition api_bytes :: "codec \<Rightarrow> int \<Rightarrow> string \<Rightarrow> api_credential res" where
  "api_bytes co now data =
     rbind (decode_credential (fill_api co) api_names False data) (\<lambda>c.
       case validate_api c of
         Some e \<Rightarrow> Inl e
       | None \<Rightarrow> if \<not> now < ak_expires_at c then Inl LoginRequired else Inr c)"

section \<open>Encoding\<close>

definition encode_stored :: "codec \<Rightarrow> credential \<Rightarrow> string \<Rightarrow> string option" where
  "encode_stored co c key =
     obind (co_time_text co (cr_expires_at c)) (\<lambda>expires.
     obind (co_time_text co (cr_refresh_expires_at c)) (\<lambda>refresh_expires.
       Some (raw_obj [
         (''token'', quote_str (cr_token c)),
         (''refresh_token'', quote_str (cr_refresh_token c)),
         (''user_id'', quote_str (cr_user_id c)),
         (''client_id'', quote_str (cr_client_id c)),
         (''expires_at'', expires),
         (''refresh_expires_at'', refresh_expires),
         (''refresh_pending'', if cr_refresh_pending c then ''true'' else ''false''),
         (''device_id'', quote_str (cr_device_id c)),
         (''machine_id'', quote_str (cr_machine_id c)),
         (''version'', show_int credential_version),
         (''device_private_key'', quote_str key)])))"

text \<open>The first half of \<open>Save\<close>: the checks and the bytes to write.\<close>

definition save_bytes :: "codec \<Rightarrow> credential \<Rightarrow> string res" where
  "save_bytes co c =
     (case validate_api (api_view credential_version c) of
        Some e \<Rightarrow> Inl e
      | None \<Rightarrow>
          (case cr_device_key c of
             None \<Rightarrow> Inl (ErrMsg ''incomplete Auth credential'')
           | Some k \<Rightarrow>
               if cr_refresh_token c = [] \<or> cr_refresh_expires_at c = 0 \<or> \<not> dk_p256 k
               then Inl (ErrMsg ''incomplete Auth credential'')
               else (case co_pkcs8 co k of
                       None \<Rightarrow> Inl (ErrMsg ''encode device private key failed'')
                     | Some der \<Rightarrow>
                         (case encode_stored co c (co_base64 co der) of
                            None \<Rightarrow> Inl (ErrMsg ''encode credential failed'')
                          | Some data \<Rightarrow> Inr data))))"

end
