(* ===== verification/AuthTokens.thy ===== *)
theory AuthTokens
  imports Credential
begin

text \<open>
  The token exchange of \<open>auth.go\<close>: the texts it reads (expiry times, JWT claims), the two
  requests that renew a credential and the reading of their answer. Randomness, the key pair
  and the digest are parameters (\<open>auth_env\<close>), as is the server.
\<close>

section \<open>Times\<close>

text \<open>Nanoseconds since the zero time of a Unix time in seconds.\<close>

definition unix_time :: "int \<Rightarrow> int" where
  "unix_time s = (s + 62135596800) * second"

definition leap_year :: "int \<Rightarrow> bool" where
  "leap_year y \<longleftrightarrow> y mod 4 = 0 \<and> (y mod 100 \<noteq> 0 \<or> y mod 400 = 0)"

definition month_days :: "int \<Rightarrow> nat \<Rightarrow> int" where
  "month_days y m = (if m = 2 then (if leap_year y then 29 else 28)
     else if m \<in> {4, 6, 9, 11} then 30 else 31)"

text \<open>The days from 1 January of year 1 to a date.\<close>

definition date_days :: "int \<Rightarrow> nat \<Rightarrow> int \<Rightarrow> int" where
  "date_days y m d = (y - 1) * 365 + (y - 1) div 4 - (y - 1) div 100 + (y - 1) div 400
     + sum_list (map (month_days y) [1..<m]) + (d - 1)"

text \<open>The pieces of \<open>time.Parse\<close>: a value and the text that follows it.\<close>

definition fixed_digits :: "nat \<Rightarrow> string \<Rightarrow> (int \<times> string) option" where
  "fixed_digits n s = (if n \<le> length s \<and> list_all is_digit (take n s)
     then Some (int (nat_of_digits (take n s)), drop n s) else None)"

definition loose_digits :: "string \<Rightarrow> (int \<times> string) option" where
  "loose_digits s = (case fixed_digits 2 s of Some r \<Rightarrow> Some r | None \<Rightarrow> fixed_digits 1 s)"

definition literal :: "char \<Rightarrow> string \<Rightarrow> string option" where
  "literal c s = (case s of x # t \<Rightarrow> if x = c then Some t else None | [] \<Rightarrow> None)"

text \<open>A space of the layout matches all the spaces there are.\<close>

definition date_separator :: "bool \<Rightarrow> string \<Rightarrow> string option" where
  "date_separator rfc s = (if rfc then literal (CHR ''T'') s
     else map_option (dropWhile (\<lambda>c. c = CHR '' '')) (literal (CHR '' '') s))"

text \<open>A fraction of a second: any number of digits, of which nine count.\<close>

definition parse_fraction :: "string \<Rightarrow> int \<times> string" where
  "parse_fraction s =
     (let d = takeWhile is_digit (drop 1 s) in
      if (take 1 s = ''.'' \<or> take 1 s = '','') \<and> d \<noteq> []
      then (int (nat_of_digits (take 9 (d @ replicate 9 (CHR ''0'')))), drop (1 + length d) s)
      else (0, s))"

definition parse_zone :: "string \<Rightarrow> (int \<times> string) option" where
  "parse_zone s =
     (if take 1 s = ''Z'' then Some (0, drop 1 s)
      else if take 1 s = ''+'' \<or> take 1 s = ''-'' then
        obind (fixed_digits 2 (drop 1 s)) (\<lambda>(h, t).
        obind (literal (CHR '':'') t) (\<lambda>t.
        obind (fixed_digits 2 t) (\<lambda>(m, t).
          if 24 < h \<or> 60 < m then None
          else Some ((if take 1 s = ''-'' then - 1 else 1) * (h * 3600 + m * 60), t))))
      else None)"

text \<open>
  \<open>time.Parse\<close> for the two layouts of \<open>parseExpiry\<close>: RFC 3339 with a fraction and a zone,
  and \<open>2006-01-02 15:04:05\<close> in UTC.
\<close>

definition parse_time :: "bool \<Rightarrow> string \<Rightarrow> int option" where
  "parse_time rfc s =
     obind (fixed_digits 4 s) (\<lambda>(y, s).
     obind (literal (CHR ''-'') s) (\<lambda>s.
     obind (fixed_digits 2 s) (\<lambda>(mo, s).
     obind (literal (CHR ''-'') s) (\<lambda>s.
     obind (fixed_digits 2 s) (\<lambda>(d, s).
     obind (date_separator rfc s) (\<lambda>s.
     obind (loose_digits s) (\<lambda>(h, s).
     obind (literal (CHR '':'') s) (\<lambda>s.
     obind (fixed_digits 2 s) (\<lambda>(mi, s).
     obind (literal (CHR '':'') s) (\<lambda>s.
     obind (fixed_digits 2 s) (\<lambda>(sec, s).
     case parse_fraction s of (ns, s) \<Rightarrow>
     obind (if rfc then parse_zone s else Some (0, s)) (\<lambda>(zone, s).
       if s = [] \<and> 1 \<le> mo \<and> mo \<le> 12 \<and> 1 \<le> d \<and> d \<le> month_days y (nat mo)
          \<and> h < 24 \<and> mi < 60 \<and> sec < 60
       then Some ((date_days y (nat mo) d * 86400 + h * 3600 + mi * 60 + sec - zone) * second + ns)
       else None))))))))))))"

text \<open>
  \<open>strconv.ParseFloat\<close> on decimal text; infinities, NaN and hexadecimal floats are left out.
\<close>

definition parse_float :: "string \<Rightarrow> number option" where
  "parse_float s =
     (let neg = (take 1 s = ''-''); t = (if take 1 s = ''-'' \<or> take 1 s = ''+'' then drop 1 s else s);
          a = takeWhile is_digit t; r = dropWhile is_digit t;
          b = (if take 1 r = ''.'' then takeWhile is_digit (drop 1 r) else []);
          r2 = (if take 1 r = ''.'' then dropWhile is_digit (drop 1 r) else r)
      in if a @ b = [] then None
         else (case pexp r2 of
                 Some (e, []) \<Rightarrow>
                   (let x = Number neg (nat_of_digits (a @ b)) (e - int (length b)) in
                    if num_in_range x then Some x else None)
               | _ \<Rightarrow> None))"

fun num_div1000 :: "number \<Rightarrow> number" where
  "num_div1000 (Number neg m e) = Number neg m (e - 3)"

definition expiry_number :: "number \<Rightarrow> int option" where
  "expiry_number n =
     (if int_lt_num 0 n
      then Some (unix_time (num_to_int (if int_lt_num (10 ^ 12) n then num_div1000 n else n)))
      else None)"

text \<open>
  \<open>parseExpiry\<close>. \<open>fmt.Sprint\<close> of a number reads back as the number, and of anything that is
  neither number nor text as no time.
\<close>

definition parse_expiry :: "json \<Rightarrow> int" where
  "parse_expiry v =
     (case v of
        JNum n \<Rightarrow> (case expiry_number n of Some t \<Rightarrow> t | None \<Rightarrow> 0)
      | JStr s \<Rightarrow>
          (case (case parse_float s of Some n \<Rightarrow> expiry_number n | None \<Rightarrow> None) of
             Some t \<Rightarrow> t
           | None \<Rightarrow> (case parse_time True s of
                Some t \<Rightarrow> t
              | None \<Rightarrow> (case parse_time False s of Some t \<Rightarrow> t | None \<Rightarrow> 0)))
      | _ \<Rightarrow> 0)"

section \<open>JWT claims\<close>

definition b64_url_val :: "char \<Rightarrow> nat option" where
  "b64_url_val c =
     (let n = of_char c in
      if 65 \<le> n \<and> n \<le> 90 then Some (n - 65)
      else if 97 \<le> n \<and> n \<le> 122 then Some (n - 71)
      else if 48 \<le> n \<and> n \<le> 57 then Some (n + 4)
      else if n = 45 then Some 62 else if n = 95 then Some 63 else None)"

fun b64_groups :: "nat list \<Rightarrow> nat list option" where
  "b64_groups [] = Some []"
| "b64_groups [a] = None"
| "b64_groups [a, b] = Some [a * 4 + b div 16]"
| "b64_groups [a, b, c] = Some [a * 4 + b div 16, (b mod 16) * 16 + c div 4]"
| "b64_groups (a # b # c # d # r) =
     map_option (\<lambda>t. [a * 4 + b div 16, (b mod 16) * 16 + c div 4, (c mod 4) * 64 + d] @ t)
       (b64_groups r)"

text \<open>\<open>base64.RawURLEncoding\<close>; line ends are skipped.\<close>

definition b64_url_decode :: "string \<Rightarrow> string option" where
  "b64_url_decode s =
     (let vs = map b64_url_val (filter (\<lambda>c. c \<noteq> CHR 0x0A \<and> c \<noteq> CHR 0x0D) s) in
      if None \<in> set vs then None else map_option (map char_of) (b64_groups (map the vs)))"

fun split_char :: "char \<Rightarrow> string \<Rightarrow> string list" where
  "split_char c [] = [[]]"
| "split_char c (x # xs) =
     (if x = c then [] # split_char c xs
      else (case split_char c xs of [] \<Rightarrow> [[x]] | p # ps \<Rightarrow> (x # p) # ps))"

definition jwt_claims :: "string \<Rightarrow> jobj" where
  "jwt_claims token =
     (case split_char (CHR ''.'') token of
        [h, p, s] \<Rightarrow>
          (case b64_url_decode p of
             None \<Rightarrow> []
           | Some b \<Rightarrow> (case unmarshal_map b of Some (Some m) \<Rightarrow> m | _ \<Rightarrow> []))
      | _ \<Rightarrow> [])"

section \<open>The answer of an exchange\<close>

text \<open>A field that may come under two names; the first time that is not zero.\<close>

definition first_expiry :: "jobj \<Rightarrow> string list \<Rightarrow> int" where
  "first_expiry m ks = foldl (\<lambda>t k. if t = 0 then parse_expiry (jfield m k) else t) 0 ks"

text \<open>The user the answer names, in one of the two places, has to be the known one.\<close>

definition check_user :: "jobj \<Rightarrow> credential \<Rightarrow> credential res" where
  "check_user m c =
     (let v = first_string m [''UserID'', ''userId''] in
      if v = [] then Inr c
      else if cr_user_id c \<noteq> [] \<and> cr_user_id c \<noteq> v then Inl LoginRequired
      else Inr (c\<lparr>cr_user_id := v\<rparr>))"

definition exchange_data :: "jobj \<Rightarrow> jobj" where
  "exchange_data root =
     (case jfield root ''Result'' of
        JObj m \<Rightarrow> m
      | _ \<Rightarrow> (case jfield root ''result'' of JObj m \<Rightarrow> m | _ \<Rightarrow> root))"

definition renewed :: "jobj \<Rightarrow> string \<Rightarrow> credential \<Rightarrow> credential" where
  "renewed m token c =
     (let refresh = first_string m [''RefreshToken'', ''refreshToken''];
          client = first_string m [''ClientID'', ''clientId''];
          e = first_expiry m [''TokenExpireAt'', ''tokenExpireAt''];
          expires = (if e = 0 then parse_expiry (jfield (jwt_claims token) ''exp'') else e);
          re = first_expiry m [''RefreshExpireAt'', ''refreshExpireAt'']
      in c\<lparr>cr_token := token,
           cr_refresh_token := (if refresh \<noteq> [] then refresh else cr_refresh_token c),
           cr_client_id := (if client \<noteq> [] then client else cr_client_id c),
           cr_expires_at := expires,
           cr_refresh_expires_at := (if re \<noteq> 0 then re else cr_refresh_expires_at c)\<rparr>)"

definition exchange_info :: "jobj \<Rightarrow> jobj" where
  "exchange_info m =
     (let info = or_empty (object_value (jfield m ''UserInfo'')) in
      if info = [] then or_empty (object_value (jfield m ''userInfo'')) else info)"

definition accept_exchange :: "jobj \<Rightarrow> credential \<Rightarrow> credential res" where
  "accept_exchange m c =
     (let token = first_string m [''Token'', ''token'', ''AccessToken'', ''accessToken''];
          region = first_string (exchange_info m) [''Region'', ''region'']
      in if token = [] then Inl AmbiguousExchange
         else if region \<noteq> [] \<and> \<not> equal_fold region ''CN''
         then Inl (ErrMsg ''only CN accounts are supported'')
         else rbind (check_user (exchange_info m) (renewed m token c)) (check_user m))"

definition decode_exchange :: "int \<Rightarrow> string \<Rightarrow> credential \<Rightarrow> credential res" where
  "decode_exchange status body c =
     (if status = 401 \<or> status = 403 then Inl LoginRequired
      else if status \<noteq> 200 then Inl (ErrMsg (''token exchange returned HTTP '' @ show_int status))
      else (case decode_map 1048576 body of
              None \<Rightarrow> Inl (ErrMsg ''invalid token exchange response'')
            | Some root \<Rightarrow> accept_exchange (exchange_data (or_empty root)) c))"

section \<open>The two requests\<close>

text \<open>
  \<open>xe_nonce n\<close> are the random bytes drawn for the request that follows \<open>n\<close> others,
  \<open>xe_sign\<close> the DER signature with a key, \<open>xe_public\<close> the PEM text of the public key.
\<close>

record auth_env =
  xe_api :: api_env
  xe_nonce :: "nat \<Rightarrow> string option"
  xe_sign :: "device_key \<Rightarrow> string \<Rightarrow> string option"
  xe_sha256 :: "string \<Rightarrow> string"
  xe_base64 :: "string \<Rightarrow> string"
  xe_public :: "device_key \<Rightarrow> string option"

definition hex_text :: "string \<Rightarrow> string" where
  "hex_text s = concat (map (\<lambda>c. [hex_char (of_char c div 16), hex_char (of_char c mod 16)]) s)"

definition device_exchange_path :: string where
  "device_exchange_path = ''/trae/api/v3/oauth/ExchangeToken''"

definition newline :: string where
  "newline = [CHR 0x0A]"

definition proof_text :: "string \<Rightarrow> string \<Rightarrow> int \<Rightarrow> string \<Rightarrow> string" where
  "proof_text client refresh at nonce =
     ''POST'' @ newline @ device_exchange_path @ newline @ client @ newline @ refresh @ newline
       @ show_int at @ newline @ nonce"

definition bound_body ::
  "string \<times> string \<times> string \<Rightarrow> credential \<Rightarrow> string \<Rightarrow> int \<Rightarrow> string \<Rightarrow> string \<Rightarrow> json" where
  "bound_body as c sig at nonce pub =
     (case as of (ident, platform, version) \<Rightarrow>
      JObj [
        (''ClientID'', JStr ident), (''ClientSecret'', JStr []),
        (''DeviceInfo'', JObj [
          (''ClientVersion'', JStr version),
          (''DeviceBrand'', JStr ''ASUS TUF Gaming A15 FA507RM_FA507RM''),
          (''DeviceCPU'', JStr ''AMD''), (''DeviceID'', JStr (cr_device_id c)),
          (''DeviceModel'', JStr []), (''DeviceName'', JStr []),
          (''DevicePublicKey'', JStr pub), (''DeviceType'', JStr ''PC''),
          (''MachineID'', JStr (cr_machine_id c)), (''OSInfo'', JStr ''Windows''),
          (''OSVersion'', JStr ''10.0.22631''), (''PlatformCode'', JStr platform)]),
        (''DeviceProof'', JObj [
          (''Nonce'', JStr nonce), (''Signature'', JStr sig), (''Timestamp'', jint at)]),
        (''IDEVersion'', JStr version), (''RefreshToken'', JStr (cr_refresh_token c))])"

definition exchange_clients :: "(string \<times> string \<times> string) list" where
  "exchange_clients = [(''en1oxy7wnw8j9n'', ''SOLO_PC'', ''0.1.64''),
     (''ono9krqynydwx5'', ''IDE_PC'', ''3.3.99'')]"

definition json_headers :: "(string \<times> string) list" where
  "json_headers = set_header ''Accept'' ''application/json''
     (set_header ''Content-Type'' ''application/json'' [])"

text \<open>Sending one request: what it adds to the log, and the outcome.\<close>

definition send_request ::
  "api_env \<Rightarrow> string \<Rightarrow> (string \<times> string) list \<Rightarrow> json \<Rightarrow> http_request list
    \<Rightarrow> http_request list \<times> http_outcome res" where
  "send_request env url h body log =
     (case ae_url_error env url of
        Some e \<Rightarrow> (log, Inl e)
      | None \<Rightarrow>
          (let req = \<lparr>hq_method = ''POST'', hq_url = url, hq_header = h, hq_body = body\<rparr>
           in (log @ [req], Inr (ae_do env log req))))"

text \<open>The loop of \<open>boundExchange\<close>; \<open>prev\<close> is the error of the client before.\<close>

fun bound_clients ::
  "auth_env \<Rightarrow> config \<Rightarrow> string \<Rightarrow> device_key \<Rightarrow> credential \<Rightarrow> gerror \<Rightarrow> (string \<times> string \<times> string) list
    \<Rightarrow> http_request list \<Rightarrow> http_request list \<times> credential res" where
  "bound_clients env cf pub key c prev [] log = (log, Inl prev)"
| "bound_clients env cf pub key c prev (as # rest) log =
     (case xe_nonce env (length log) of
        None \<Rightarrow> (log, Inl (ErrMsg ''device nonce generation failed''))
      | Some nonce \<Rightarrow>
          (let at = ae_now (xe_api env) (length log) div second - 62135596800;
               text = proof_text (fst as) (cr_refresh_token c) at (hex_text nonce)
           in case xe_sign env key (xe_sha256 env text) of
                None \<Rightarrow> (log, Inl (ErrMsg ''device signing failed''))
              | Some sig \<Rightarrow>
                  (case send_request (xe_api env) (trim_slash (cf_auth_base_url cf) @ device_exchange_path)
                      (if cr_token c \<noteq> [] then set_header ''Authorization'' (''Bearer '' @ cr_token c) json_headers
                       else json_headers)
                      (bound_body as c (xe_base64 env sig) at (hex_text nonce) pub) log of
                     (log', Inl e) \<Rightarrow> (log', Inl e)
                   | (log', Inr (NoReply (Some e))) \<Rightarrow> (log', Inl e)
                   | (log', Inr (NoReply None)) \<Rightarrow> (log', Inl (ErrMsg ''device exchange connection failed''))
                   | (log', Inr (Reply st body)) \<Rightarrow>
                       (case decode_exchange st body c of
                          Inr fresh \<Rightarrow> (log', Inr fresh)
                        | Inl e \<Rightarrow>
                            if st \<noteq> 401 \<and> st \<noteq> 403 then (log', Inl e)
                            else bound_clients env cf pub key c e rest log'))))"

definition bound_exchange ::
  "auth_env \<Rightarrow> config \<Rightarrow> device_key \<Rightarrow> credential \<Rightarrow> http_request list \<Rightarrow> http_request list \<times> credential res" where
  "bound_exchange env cf key c log =
     (case xe_public env key of
        None \<Rightarrow> (log, Inl (ErrMsg ''device public key encoding failed''))
      | Some pub \<Rightarrow> bound_clients env cf pub key c (ErrMsg []) exchange_clients log)"

definition legacy_body :: "credential \<Rightarrow> json" where
  "legacy_body c = JObj [(''ClientID'', JStr (cr_client_id c)), (''ClientSecret'', JStr ''-''),
     (''RefreshToken'', JStr (cr_refresh_token c)), (''UserID'', JStr (cr_user_id c))]"

definition legacy_exchange ::
  "auth_env \<Rightarrow> config \<Rightarrow> credential \<Rightarrow> http_request list \<Rightarrow> http_request list \<times> credential res" where
  "legacy_exchange env cf c log =
     (case send_request (xe_api env) (trim_slash (cf_auth_base_url cf) @ ''/cloudide/api/v3/trae/oauth/ExchangeToken'')
         json_headers (legacy_body c) log of
        (log', Inl e) \<Rightarrow> (log', Inl e)
      | (log', Inr (NoReply (Some e))) \<Rightarrow> (log', Inl e)
      | (log', Inr (NoReply None)) \<Rightarrow> (log', Inl (ErrMsg ''token exchange connection failed''))
      | (log', Inr (Reply st body)) \<Rightarrow> (log', decode_exchange st body c))"

text \<open>\<open>exchange\<close>; \<open>now\<close> is its one reading of the clock.\<close>

definition exchange ::
  "auth_env \<Rightarrow> config \<Rightarrow> int \<Rightarrow> credential \<Rightarrow> http_request list \<Rightarrow> http_request list \<times> credential res" where
  "exchange env cf now c log =
     (if cr_refresh_token c = [] \<or> cr_refresh_expires_at c \<noteq> 0 \<and> cr_refresh_expires_at c < now
      then (log, Inl LoginRequired)
      else if cr_device_key c \<noteq> None \<or> cr_device_id c \<noteq> [] \<or> cr_machine_id c \<noteq> [] then
        (case cr_device_key c of
           None \<Rightarrow> (log, Inl LoginRequired)
         | Some key \<Rightarrow>
             if cr_device_id c = [] \<or> cr_machine_id c = [] then (log, Inl LoginRequired)
             else bound_exchange env cf key c log)
      else legacy_exchange env cf c log)"

end
