(* ===== verification/CredStore.thy ===== *)
theory CredStore
  imports Credential
begin

text \<open>
  The credential store of \<open>credential_store.go\<close> over a small file system: a map from paths
  to nodes, changed by one system call at a time. Every call may fail; the failures are a
  parameter. \<open>ds_history\<close> records the map after each call: these are the states in which
  another process, the API, may read the file.
\<close>

section \<open>Files and system calls\<close>

datatype node = Directory nat | Regular nat string | Symlink | Special

type_synonym files = "string \<Rightarrow> node option"

text \<open>
  An advisory lock belongs to a file, not to its path: \<open>ds_owner\<close> is the process that holds the
  lock of a file.
\<close>

type_synonym lock_id = "string \<times> nat"

record disk =
  ds_files :: files
  ds_owner :: "lock_id \<Rightarrow> nat option"
  ds_calls :: nat
  ds_history :: "files list"

text \<open>
  \<open>os_fail n\<close> is the error of the \<open>n\<close>th call, \<open>os_partial n\<close> how much a failing write
  writes, \<open>os_random n\<close> the random part of a name.
\<close>

record os_env =
  os_fail :: "nat \<Rightarrow> gerror option"
  os_partial :: "nat \<Rightarrow> nat"
  os_random :: "nat \<Rightarrow> string"

type_synonym 'a act = "disk \<Rightarrow> disk \<times> 'a res"

definition tick :: "files \<Rightarrow> disk \<Rightarrow> disk" where
  "tick fs d = d\<lparr>ds_files := fs, ds_calls := Suc (ds_calls d), ds_history := ds_history d @ [fs]\<rparr>"

definition syscall :: "os_env \<Rightarrow> (files \<Rightarrow> files \<times> 'a res) \<Rightarrow> 'a act" where
  "syscall os f d =
     (case os_fail os (ds_calls d) of
        Some e \<Rightarrow> (tick (ds_files d) d, Inl e)
      | None \<Rightarrow> (case f (ds_files d) of (fs, r) \<Rightarrow> (tick fs d, r)))"

definition abind :: "'a act \<Rightarrow> ('a \<Rightarrow> 'b act) \<Rightarrow> 'b act" where
  "abind m f d = (case m d of (d', Inl e) \<Rightarrow> (d', Inl e) | (d', Inr x) \<Rightarrow> f x d')"

definition areturn :: "'a res \<Rightarrow> 'a act" where
  "areturn r d = (d, r)"

definition map_err :: "(gerror \<Rightarrow> gerror) \<Rightarrow> 'a act \<Rightarrow> 'a act" where
  "map_err f m d = (case m d of (d', Inl e) \<Rightarrow> (d', Inl (f e)) | (d', Inr x) \<Rightarrow> (d', Inr x))"

text \<open>\<open>filepath.Dir\<close> of a clean absolute path below the root.\<close>

definition path_dir :: "string \<Rightarrow> string" where
  "path_dir p = rev (drop 1 (dropWhile (\<lambda>c. c \<noteq> CHR ''/'') (rev p)))"

text \<open>The permission bits 0600 and 0700.\<close>

definition mode_file :: nat where "mode_file = 384"
definition mode_dir :: nat where "mode_dir = 448"

definition sys_lstat :: "os_env \<Rightarrow> string \<Rightarrow> node act" where
  "sys_lstat os p = syscall os (\<lambda>fs. (fs, case fs p of Some n \<Rightarrow> Inr n | None \<Rightarrow> Inl ErrNotExist))"

definition err_exist :: gerror where
  "err_exist = ErrMsg ''file already exists''"

definition sys_mkdir :: "os_env \<Rightarrow> string \<Rightarrow> unit act" where
  "sys_mkdir os p = syscall os (\<lambda>fs. case fs p of
     None \<Rightarrow> (fs(p \<mapsto> Directory mode_dir), Inr ())
   | Some (Directory m) \<Rightarrow> (fs, Inr ())
   | Some n \<Rightarrow> (fs, Inl (ErrMsg ''not a directory'')))"

text \<open>\<open>open\<close> with \<open>O_NOFOLLOW\<close>: the node behind the descriptor.\<close>

definition sys_open :: "os_env \<Rightarrow> string \<Rightarrow> node act" where
  "sys_open os p = syscall os (\<lambda>fs. (fs, case fs p of
     None \<Rightarrow> Inl ErrNotExist
   | Some Symlink \<Rightarrow> Inl (ErrMsg ''too many levels of symbolic links'')
   | Some n \<Rightarrow> Inr n))"

text \<open>A call on an open descriptor that changes no name: \<open>fstat\<close>, \<open>read\<close>, \<open>fsync\<close>, \<open>close\<close>.\<close>

definition sys_fd :: "os_env \<Rightarrow> 'a \<Rightarrow> 'a act" where
  "sys_fd os x = syscall os (\<lambda>fs. (fs, Inr x))"

definition sys_create_temp :: "os_env \<Rightarrow> string \<Rightarrow> string act" where
  "sys_create_temp os dir d =
     (let name = dir @ ''/.auth-'' @ os_random os (ds_calls d) in
      syscall os (\<lambda>fs. if fs name = None then (fs(name \<mapsto> Regular mode_file []), Inr name)
                       else (fs, Inl err_exist)) d)"

definition sys_chmod :: "os_env \<Rightarrow> string \<Rightarrow> nat \<Rightarrow> unit act" where
  "sys_chmod os p mode = syscall os (\<lambda>fs. case fs p of
     Some (Regular m s) \<Rightarrow> (fs(p \<mapsto> Regular mode s), Inr ())
   | _ \<Rightarrow> (fs, Inr ()))"

definition put_text :: "string \<Rightarrow> string \<Rightarrow> files \<Rightarrow> files" where
  "put_text p s fs = (case fs p of Some (Regular m t) \<Rightarrow> fs(p \<mapsto> Regular m (t @ s)) | _ \<Rightarrow> fs)"

text \<open>A write that fails may have written a part.\<close>

definition sys_write :: "os_env \<Rightarrow> string \<Rightarrow> string \<Rightarrow> unit act" where
  "sys_write os p s d =
     (case os_fail os (ds_calls d) of
        Some e \<Rightarrow> (tick (put_text p (take (os_partial os (ds_calls d)) s) (ds_files d)) d, Inl e)
      | None \<Rightarrow> (tick (put_text p s (ds_files d)) d, Inr ()))"

definition sys_rename :: "os_env \<Rightarrow> string \<Rightarrow> string \<Rightarrow> unit act" where
  "sys_rename os p q = syscall os (\<lambda>fs. case fs p of
     None \<Rightarrow> (fs, Inl ErrNotExist)
   | Some n \<Rightarrow>
       (case fs q of
          Some (Directory m) \<Rightarrow> (fs, Inl err_exist)
        | _ \<Rightarrow> (fs(p := None, q \<mapsto> n), Inr ())))"

definition sys_remove :: "os_env \<Rightarrow> string \<Rightarrow> unit act" where
  "sys_remove os p = syscall os (\<lambda>fs. case fs p of
     None \<Rightarrow> (fs, Inl ErrNotExist)
   | Some n \<Rightarrow> (fs(p := None), Inr ()))"

section \<open>Reading\<close>

definition checked_credential_dir :: "os_env \<Rightarrow> string \<Rightarrow> bool \<Rightarrow> unit act" where
  "checked_credential_dir os dir create d =
     (case (case sys_lstat os dir d of
              (d1, Inl e) \<Rightarrow>
                if errors_is e ErrNotExist \<and> create then
                  (case sys_mkdir os dir d1 of
                     (d2, Inl e2) \<Rightarrow>
                       if errors_is e2 err_exist then map_err (Wrap ''credential directory unavailable: '') (sys_lstat os dir) d2
                       else (d2, Inl (Wrap ''create credential directory: '' e2))
                   | (d2, Inr _) \<Rightarrow> map_err (Wrap ''credential directory unavailable: '') (sys_lstat os dir) d2)
                else (d1, Inl (Wrap ''credential directory unavailable: '' e))
            | (d1, Inr n) \<Rightarrow> (d1, Inr n)) of
        (d', Inl e) \<Rightarrow> (d', Inl e)
      | (d', Inr n) \<Rightarrow>
          (d', if n = Directory mode_dir then Inr ()
               else Inl (ErrMsg ''credential directory is not a private regular directory (0700)'')))"

definition size_limit :: nat where
  "size_limit = 1048576"

definition read_credential_file :: "os_env \<Rightarrow> string \<Rightarrow> string act" where
  "read_credential_file os p =
     abind (checked_credential_dir os (path_dir p) False) (\<lambda>_.
     abind (sys_open os p) (\<lambda>n.
     abind (sys_fd os n) (\<lambda>info.
       (case info of
          Regular m s \<Rightarrow>
            if m \<noteq> mode_file then areturn (Inl (ErrMsg ''unsafe credential file type or mode''))
            else abind (sys_fd os s) (\<lambda>s.
                   areturn (if size_limit < length s then Inl (ErrMsg ''credential file too large'') else Inr s))
        | _ \<Rightarrow> areturn (Inl (ErrMsg ''unsafe credential file type or mode''))))))"

definition load :: "os_env \<Rightarrow> codec \<Rightarrow> string \<Rightarrow> credential act" where
  "load os co p = abind (read_credential_file os p) (\<lambda>s. areturn (load_bytes co s))"

text \<open>\<open>readAPICredential\<close>; the configuration directory and the clock are arguments.\<close>

definition credential_path :: "gerror + string \<Rightarrow> string res" where
  "credential_path config_dir =
     (case config_dir of
        Inl e \<Rightarrow> Inl (Wrap ''determine user config directory: '' e)
      | Inr dir \<Rightarrow>
          if dir = [] then Inl (Wrap ''determine user config directory: '' (ErrMsg ''empty config directory''))
          else Inr (dir @ ''/trae-api/auth.json''))"

definition read_api_credential ::
  "os_env \<Rightarrow> codec \<Rightarrow> gerror + string \<Rightarrow> int \<Rightarrow> api_credential act" where
  "read_api_credential os co config_dir now d =
     (case credential_path config_dir of
        Inl e \<Rightarrow> (d, Inl e)
      | Inr p \<Rightarrow>
          (case read_credential_file os p d of
             (d', Inl e) \<Rightarrow>
               (d', Inl (if errors_is e ErrNotExist then LoginRequired
                         else Wrap ''credential unavailable: '' e))
           | (d', Inr s) \<Rightarrow> (d', api_bytes co now s)))"

section \<open>The store\<close>

record store =
  st_path :: string
  st_open :: bool
  st_pid :: nat
  st_lock :: lock_id

text \<open>The descriptor's steps after the temporary file exists, up to the rename.\<close>

definition publish :: "os_env \<Rightarrow> string \<Rightarrow> string \<Rightarrow> string \<Rightarrow> unit act" where
  "publish os p temp data =
     abind (sys_chmod os temp mode_file) (\<lambda>_.
     abind (sys_write os temp data) (\<lambda>_.
     abind (sys_fd os ()) (\<lambda>_.
     abind (sys_fd os ()) (\<lambda>_.
       sys_rename os temp p))))"

definition sync_dir :: "os_env \<Rightarrow> string \<Rightarrow> string \<Rightarrow> unit act" where
  "sync_dir os what dir =
     abind (map_err (Wrap (what @ '' but directory sync unavailable: '')) (sys_open os dir)) (\<lambda>_.
       map_err (Wrap (what @ '' but directory sync failed: '')) (sys_fd os ()))"

text \<open>The deferred removal of the temporary file, whose error is dropped.\<close>

definition finally_remove :: "os_env \<Rightarrow> string \<Rightarrow> 'a act \<Rightarrow> 'a act" where
  "finally_remove os temp m d = (case m d of (d', r) \<Rightarrow> (fst (sys_remove os temp d'), r))"

definition check_existing :: "os_env \<Rightarrow> codec \<Rightarrow> string \<Rightarrow> unit act" where
  "check_existing os co p d =
     (case load os co p d of
        (d', Inl e) \<Rightarrow>
          (d', if errors_is e ErrNotExist then Inr ()
               else Inl (Wrap ''refusing to replace invalid credential: '' e))
      | (d', Inr c) \<Rightarrow> (d', Inr ()))"

definition save :: "os_env \<Rightarrow> codec \<Rightarrow> store \<Rightarrow> credential \<Rightarrow> unit act" where
  "save os co st c =
     (if \<not> st_open st then areturn (Inl (ErrMsg ''credential store closed''))
      else
        (case save_bytes co c of
           Inl e \<Rightarrow> areturn (Inl e)
         | Inr data \<Rightarrow>
             abind (checked_credential_dir os (path_dir (st_path st)) False) (\<lambda>_.
             abind (check_existing os co (st_path st)) (\<lambda>_.
             abind (sys_create_temp os (path_dir (st_path st))) (\<lambda>temp.
               finally_remove os temp
                 (abind (publish os (st_path st) temp data) (\<lambda>_.
                    sync_dir os ''credential published'' (path_dir (st_path st)))))))))"

text \<open>The move, once the file is known to hold the rejected token.\<close>

definition move_aside :: "os_env \<Rightarrow> string \<Rightarrow> string \<Rightarrow> unit act" where
  "move_aside os p destination =
     abind (sys_rename os p destination)
       (\<lambda>_. sync_dir os ''rejected credential quarantined'' (path_dir p))"

definition quarantine_to :: "os_env \<Rightarrow> string \<Rightarrow> string \<Rightarrow> unit act" where
  "quarantine_to os p destination d =
     (case sys_lstat os destination d of
        (d', Inr n) \<Rightarrow> (d', Inl (ErrMsg ''credential quarantine destination exists''))
      | (d', Inl e) \<Rightarrow> if \<not> errors_is e ErrNotExist then (d', Inl e) else move_aside os p destination d')"

definition quarantine_rejected :: "os_env \<Rightarrow> codec \<Rightarrow> store \<Rightarrow> string \<Rightarrow> unit act" where
  "quarantine_rejected os co st token =
     (if \<not> st_open st then areturn (Inl (ErrMsg ''credential store closed''))
      else
        abind (checked_credential_dir os (path_dir (st_path st)) False) (\<lambda>_.
        abind (load os co (st_path st)) (\<lambda>current.
          if cr_token current \<noteq> token then areturn (Inl (ErrMsg ''credential changed during rejection''))
          else (\<lambda>d. quarantine_to os (st_path st)
                 (st_path st @ ''.rejected-'' @ os_random os (ds_calls d)) d))))"

text \<open>Opening takes the writer lock for the life of the store; closing gives it back.\<close>

definition release :: "lock_id \<Rightarrow> nat \<Rightarrow> disk \<Rightarrow> disk" where
  "release l pid d = (if ds_owner d l = Some pid then d\<lparr>ds_owner := (ds_owner d)(l := None)\<rparr> else d)"

text \<open>
  Which file is at a path: the number of the last recorded state in which there was none, so
  that a file which is removed and made again is another one.
\<close>

definition file_id :: "disk \<Rightarrow> string \<Rightarrow> nat" where
  "file_id d p = length (dropWhile (\<lambda>fs. fs p \<noteq> None) (rev (ds_history d)))"

text \<open>\<open>open\<close> with \<open>O_CREAT\<close> and \<open>O_NOFOLLOW\<close>: the node, and which file it is.\<close>

definition sys_open_lock :: "os_env \<Rightarrow> string \<Rightarrow> (node \<times> lock_id) act" where
  "sys_open_lock os p d =
     (case syscall os (\<lambda>fs. case fs p of
          None \<Rightarrow> (fs(p \<mapsto> Regular mode_file []), Inr (Regular mode_file []))
        | Some Symlink \<Rightarrow> (fs, Inl (ErrMsg ''too many levels of symbolic links''))
        | Some n \<Rightarrow> (fs, Inr n)) d of
        (d', Inl e) \<Rightarrow> (d', Inl e)
      | (d', Inr n) \<Rightarrow> (d', Inr (n, p, file_id d' p)))"

definition lock_safe :: "node \<Rightarrow> bool" where
  "lock_safe n \<longleftrightarrow> (case n of Regular m s \<Rightarrow> m = mode_file | _ \<Rightarrow> False)"

definition sys_flock :: "os_env \<Rightarrow> lock_id \<Rightarrow> nat \<Rightarrow> unit act" where
  "sys_flock os l pid d =
     (case os_fail os (ds_calls d) of
        Some e \<Rightarrow> (tick (ds_files d) d, Inl e)
      | None \<Rightarrow>
          if ds_owner d l \<noteq> None
          then (tick (ds_files d) d, Inl (ErrMsg ''resource temporarily unavailable''))
          else ((tick (ds_files d) d)\<lparr>ds_owner := (ds_owner d)(l \<mapsto> pid)\<rparr>, Inr ()))"

text \<open>
  The two halves of \<open>openCredentialStore\<close>, before and from the call of \<open>flock\<close>: another process
  may remove, make or lock files between them.
\<close>

definition open_writer_lock :: "os_env \<Rightarrow> gerror + string \<Rightarrow> (string \<times> lock_id) act" where
  "open_writer_lock os config_dir =
     (case credential_path config_dir of
        Inl e \<Rightarrow> areturn (Inl e)
      | Inr p \<Rightarrow>
          abind (checked_credential_dir os (path_dir p) True) (\<lambda>_.
          abind (map_err (Wrap ''open credential writer lock: '') (sys_open_lock os (p @ ''.lock''))) (\<lambda>(n, l).
          abind (map_err (\<lambda>_. ErrMsg ''unsafe credential writer lock'') (sys_fd os n)) (\<lambda>info.
            areturn (if \<not> lock_safe info then Inl (ErrMsg ''unsafe credential writer lock'') else Inr (p, l))))))"

definition take_writer_lock :: "os_env \<Rightarrow> codec \<Rightarrow> nat \<Rightarrow> string \<times> lock_id \<Rightarrow> store act" where
  "take_writer_lock os co pid pl =
     (case pl of (p, l) \<Rightarrow>
       abind (map_err (Wrap ''credential writer already active: '') (sys_flock os l pid)) (\<lambda>_ d.
         case load os co p d of
           (d', Inl e) \<Rightarrow>
             if errors_is e ErrNotExist
             then (d', Inr \<lparr>st_path = p, st_open = True, st_pid = pid, st_lock = l\<rparr>)
             else (release l pid d', Inl e)
         | (d', Inr c) \<Rightarrow> (d', Inr \<lparr>st_path = p, st_open = True, st_pid = pid, st_lock = l\<rparr>)))"

definition open_credential_store ::
  "os_env \<Rightarrow> codec \<Rightarrow> gerror + string \<Rightarrow> nat \<Rightarrow> store act" where
  "open_credential_store os co config_dir pid =
     abind (open_writer_lock os config_dir) (take_writer_lock os co pid)"

text \<open>\<open>Close\<close>: the descriptor is closed whatever the two calls report, and with it the lock.\<close>

definition close_store :: "os_env \<Rightarrow> store \<Rightarrow> disk \<Rightarrow> store \<times> disk eff" where
  "close_store os st d =
     (if \<not> st_open st then (st, d, None)
      else (case sys_fd os () d of
              (d1, r1) \<Rightarrow> (case sys_fd os () d1 of
                (d2, r2) \<Rightarrow> (st\<lparr>st_open := False\<rparr>, release (st_lock st) (st_pid st) d2,
                  case r1 of Inl e \<Rightarrow> Some e
                  | Inr _ \<Rightarrow> (case r2 of Inl e \<Rightarrow> Some e | Inr _ \<Rightarrow> None)))))"

end
