(* ===== verification/AuthManager.thy ===== *)
theory AuthManager
  imports AuthTokens CredStore
begin

text \<open>
  The auth manager of \<open>auth.go\<close>: its state under the mutex and the sections that run while
  it is held. \<open>get\<close> and \<open>callback\<close> release the mutex around a token exchange, so each is two
  sections and the exchange between them. The readings of the clock and of \<open>ctx.Err()\<close> in a
  section are numbered from 0 in program order.
\<close>

section \<open>State\<close>

record login_attempt =
  la_expires :: int
  la_device :: string
  la_machine :: string
  la_key :: device_key
  la_generation :: "64 word"

record login_result =
  lr_status :: string
  lr_expires :: int

text \<open>
  \<open>am_refreshing\<close> is the channel of the exchange in flight; \<open>am_channels\<close> counts the channels
  made, so that each has a number. Every channel made but the one in flight is closed.
\<close>

record auth_manager =
  am_cred :: credential
  am_generation :: "64 word"
  am_refreshing :: "nat option"
  am_channels :: nat
  am_refresh_err :: "gerror option"
  am_uncertain :: bool
  am_pending :: "(string \<times> login_attempt) list"
  am_callback_url :: string
  am_latest :: string
  am_results :: "(string \<times> login_result) list"
  am_refreshed_at :: int
  am_store :: "store option"

text \<open>What the manager uses: the exchange's environment, the system calls, the encodings.\<close>

record auth_ctx =
  ax_env :: auth_env
  ax_os :: os_env
  ax_codec :: codec
  ax_config :: config

type_synonym clock = "nat \<Rightarrow> int"
type_synonym ctx_errs = "nat \<Rightarrow> gerror option"

definition new_auth_manager :: auth_manager where
  "new_auth_manager = \<lparr>am_cred = empty_credential, am_generation = 0, am_refreshing = None,
     am_channels = 0, am_refresh_err = None, am_uncertain = False, am_pending = [],
     am_callback_url = [], am_latest = [], am_results = [], am_refreshed_at = 0, am_store = None\<rparr>"

definition manager_snapshot :: "auth_manager \<Rightarrow> credential \<times> 64 word" where
  "manager_snapshot a = (am_cred a, am_generation a)"

text \<open>The access part is still good at a time: \<open>!ExpiresAt.IsZero() && now.Before(ExpiresAt)\<close>.\<close>

definition unexpired :: "int \<Rightarrow> credential \<Rightarrow> bool" where
  "unexpired now c \<longleftrightarrow> cr_expires_at c \<noteq> 0 \<and> now < cr_expires_at c"

section \<open>Reconciling a failed save\<close>

definition same_credential :: "credential \<Rightarrow> credential \<Rightarrow> bool" where
  "same_credential a b \<longleftrightarrow>
     cr_token a = cr_token b \<and> cr_refresh_token a = cr_refresh_token b \<and>
     cr_user_id a = cr_user_id b \<and> cr_client_id a = cr_client_id b \<and>
     cr_expires_at a = cr_expires_at b \<and> cr_refresh_expires_at a = cr_refresh_expires_at b \<and>
     cr_refresh_pending a = cr_refresh_pending b \<and> cr_device_id a = cr_device_id b \<and>
     cr_machine_id a = cr_machine_id b \<and> cr_device_key a \<noteq> None \<and> cr_device_key b \<noteq> None \<and>
     cr_device_key a = cr_device_key b"

text \<open>
  \<open>reconcilePublished\<close> over the store's \<open>Load\<close>: whether the credential is published, and the
  error to report.
\<close>

definition reconcile_published ::
  "('s \<Rightarrow> 's \<times> credential res) \<Rightarrow> credential \<Rightarrow> unit res \<Rightarrow> 's \<Rightarrow> 's \<times> bool \<times> gerror option" where
  "reconcile_published load_c c save_result d =
     (case save_result of
        Inr _ \<Rightarrow> (d, True, None)
      | Inl save_err \<Rightarrow>
          (case load_c d of
             (d', Inl read_err) \<Rightarrow>
               (d', False, Some (Joined [save_err, Wrap ''read back credential: '' read_err]))
           | (d', Inr c') \<Rightarrow>
               if \<not> same_credential c' c
               then (d', False, Some (Joined [save_err, ErrMsg ''published credential does not match exchange'']))
               else (d', True, Some (Wrap ''credential visible but durability unconfirmed: '' save_err))))"

definition save_reconciled ::
  "auth_ctx \<Rightarrow> store option \<Rightarrow> credential \<Rightarrow> disk \<Rightarrow> disk \<times> bool \<times> gerror option" where
  "save_reconciled ax sto c d =
     (case sto of
        None \<Rightarrow> (d, True, None)
      | Some st \<Rightarrow>
          (case save (ax_os ax) (ax_codec ax) st c d of
             (d', r) \<Rightarrow> reconcile_published (load (ax_os ax) (ax_codec ax) (st_path st)) c r d'))"

section \<open>Getting a credential\<close>

datatype entered =
    Got credential "64 word" "gerror option"
  | Waits nat
  | Exchanges credential "64 word" nat

text \<open>The section of \<open>get\<close> before the exchange (lines 94 to 140).\<close>

definition get_fresh :: "clock \<Rightarrow> auth_manager \<Rightarrow> bool" where
  "get_fresh now a \<longleftrightarrow> cr_expires_at (am_cred a) = 0 \<or> 2 * minute < cr_expires_at (am_cred a) - now 1
     \<or> 0 < cr_expires_at (am_cred a) - now 2 \<and> now 3 - am_refreshed_at a < minute"

definition start_exchange :: "credential \<Rightarrow> auth_manager \<Rightarrow> auth_manager \<times> entered" where
  "start_exchange old a =
     (a\<lparr>am_refreshing := Some (am_channels a), am_channels := Suc (am_channels a)\<rparr>,
      Exchanges old (am_generation a) (am_channels a))"

definition get_fence ::
  "auth_ctx \<Rightarrow> clock \<Rightarrow> auth_manager \<Rightarrow> disk \<Rightarrow> auth_manager \<times> disk \<times> entered" where
  "get_fence ax now a d =
     (let old = am_cred a in
      case am_store a of
        None \<Rightarrow> (case start_exchange old a of (a', r) \<Rightarrow> (a', d, r))
      | Some st \<Rightarrow>
          (let waiting = old\<lparr>cr_refresh_pending := True\<rparr> in
           case save (ax_os ax) (ax_codec ax) st waiting d of
             (d', Inl e) \<Rightarrow>
               (a\<lparr>am_refreshed_at := now 4\<rparr>, d',
                if unexpired (now 5) old then Got old (am_generation a) None
                else Got empty_credential 0 (Some (Wrap ''prepare refresh state: '' e)))
           | (d', Inr _) \<Rightarrow>
               (case start_exchange waiting (a\<lparr>am_cred := waiting\<rparr>) of (a', r) \<Rightarrow> (a', d', r))))"

definition get_enter ::
  "auth_ctx \<Rightarrow> clock \<Rightarrow> auth_manager \<Rightarrow> disk \<Rightarrow> auth_manager \<times> disk \<times> entered" where
  "get_enter ax now a d =
     (if cr_token (am_cred a) = [] then (a, d, Got empty_credential 0 (Some LoginRequired))
      else
        (case am_refresh_err a of
           Some e \<Rightarrow>
             if errors_is e AmbiguousExchange \<and> unexpired (now 0) (am_cred a)
             then (a, d, Got (am_cred a) (am_generation a) None)
             else (a, d, Got empty_credential 0 (Some LoginRequired))
         | None \<Rightarrow>
             if get_fresh now a then (a, d, Got (am_cred a) (am_generation a) None)
             else
               (case am_refreshing a of
                  Some ch \<Rightarrow> (a, d, Waits ch)
                | None \<Rightarrow> get_fence ax now a d)))"

text \<open>
  The section after the exchange (lines 142 to 202). What it decides: whether the fresh
  credential is published, whether the old one is still usable, and the error.
\<close>

record outcome =
  oc_published :: bool
  oc_usable :: bool
  oc_err :: "gerror option"

definition finish_answered ::
  "auth_ctx \<Rightarrow> clock \<Rightarrow> credential \<Rightarrow> credential \<Rightarrow> auth_manager \<Rightarrow> disk \<Rightarrow> auth_manager \<times> disk \<times> outcome" where
  "finish_answered ax now old fresh a d =
     (case save_reconciled ax (am_store a) fresh d of
        (d', published, e) \<Rightarrow>
          if published
          then (a\<lparr>am_cred := fresh, am_refreshed_at := now 0, am_refresh_err := None,
                  am_uncertain := (e \<noteq> None)\<rparr>, d',
                \<lparr>oc_published = True, oc_usable = False, oc_err = e\<rparr>)
          else (a\<lparr>am_refresh_err := Some AmbiguousExchange\<rparr>, d',
                \<lparr>oc_published = False, oc_usable = unexpired (now 0) old, oc_err = e\<rparr>))"

text \<open>
  A definitive rejection also takes the credential away from the API: an expired copy replaces
  it, or it is moved aside.
\<close>

definition revoke ::
  "('s \<Rightarrow> credential \<Rightarrow> 's \<times> unit res) \<Rightarrow> ('s \<Rightarrow> string \<Rightarrow> 's \<times> unit res)
    \<Rightarrow> credential \<Rightarrow> string \<Rightarrow> gerror \<Rightarrow> 's \<Rightarrow> 's \<times> gerror" where
  "revoke save_c quarantine_c invalid token e d =
     (case save_c d invalid of
        (d', Inr _) \<Rightarrow> (d', e)
      | (d', Inl save_err) \<Rightarrow>
          (case quarantine_c d' token of
             (d'', Inr _) \<Rightarrow> (d'', e)
           | (d'', Inl q_err) \<Rightarrow>
               (d'', Joined [Wrap ''invalidate rejected credential: '' save_err,
                             Wrap ''quarantine rejected credential: '' q_err])))"

definition invalidated :: "int \<Rightarrow> credential \<Rightarrow> credential" where
  "invalidated now old = old\<lparr>cr_expires_at := now - second, cr_refresh_pending := False\<rparr>"

definition revoke_on_disk ::
  "auth_ctx \<Rightarrow> int \<Rightarrow> credential \<Rightarrow> store option \<Rightarrow> gerror \<Rightarrow> disk \<Rightarrow> disk \<times> gerror" where
  "revoke_on_disk ax now old sto e d =
     (case sto of
        None \<Rightarrow> (d, e)
      | Some st \<Rightarrow>
          revoke (\<lambda>d c. save (ax_os ax) (ax_codec ax) st c d)
            (\<lambda>d token. quarantine_rejected (ax_os ax) (ax_codec ax) st token d)
            (invalidated now old) (cr_token old) e d)"

definition finish_failed ::
  "auth_ctx \<Rightarrow> clock \<Rightarrow> credential \<Rightarrow> gerror \<Rightarrow> auth_manager \<Rightarrow> disk \<Rightarrow> auth_manager \<times> disk \<times> outcome" where
  "finish_failed ax now old e a d =
     (if errors_is e LoginRequired then
        (case revoke_on_disk ax (now 0) old (am_store a) e d of
           (d', e') \<Rightarrow>
             (a\<lparr>am_refresh_err := Some LoginRequired\<rparr>, d',
              \<lparr>oc_published = False, oc_usable = False, oc_err = Some e'\<rparr>))
      else if errors_is e AmbiguousExchange then
        (a\<lparr>am_refresh_err := Some e\<rparr>, d,
         \<lparr>oc_published = False, oc_usable = unexpired (now 0) old, oc_err = Some e\<rparr>)
      else if am_store a \<noteq> None then
        (a\<lparr>am_refresh_err := Some AmbiguousExchange\<rparr>, d,
         \<lparr>oc_published = False, oc_usable = unexpired (now 0) old, oc_err = Some e\<rparr>)
      else if unexpired (now 0) old then
        (a\<lparr>am_refreshed_at := now 1\<rparr>, d,
         \<lparr>oc_published = False, oc_usable = True, oc_err = Some e\<rparr>)
      else (a, d, \<lparr>oc_published = False, oc_usable = False, oc_err = Some e\<rparr>))"

text \<open>The cases of an unchanged generation; \<open>cx\<close> are the readings of \<open>ctx.Err()\<close>.\<close>

definition finish_current ::
  "auth_ctx \<Rightarrow> clock \<Rightarrow> ctx_errs \<Rightarrow> credential \<Rightarrow> credential res \<Rightarrow> auth_manager \<Rightarrow> disk
    \<Rightarrow> auth_manager \<times> disk \<times> outcome" where
  "finish_current ax now cx old answer a d =
     (case (case cx 0 of Some e \<Rightarrow> Inl e | None \<Rightarrow> answer) of
        Inr fresh \<Rightarrow> finish_answered ax now old (fresh\<lparr>cr_refresh_pending := False\<rparr>) a d
      | Inl e \<Rightarrow>
          if cx 1 = None then finish_failed ax now old e a d
          else (a, d, \<lparr>oc_published = False, oc_usable = False, oc_err = Some e\<rparr>))"

datatype finished = Again | Returns credential "64 word" "gerror option"

definition get_finish ::
  "auth_ctx \<Rightarrow> clock \<Rightarrow> ctx_errs \<Rightarrow> credential \<Rightarrow> 64 word \<Rightarrow> credential res \<Rightarrow> auth_manager \<Rightarrow> disk
    \<Rightarrow> auth_manager \<times> disk \<times> finished" where
  "get_finish ax now cx old g answer a d =
     (if am_generation a \<noteq> g then (a\<lparr>am_refreshing := None\<rparr>, d, Again)
      else
        (case finish_current ax now cx old answer a d of
           (a', d', oc) \<Rightarrow>
             (a'\<lparr>am_refreshing := None\<rparr>, d',
              (case oc_err oc of
                 None \<Rightarrow> Again
               | Some e \<Rightarrow>
                   (case cx 2 of
                      Some ce \<Rightarrow> Returns empty_credential 0 (Some ce)
                    | None \<Rightarrow>
                        if oc_published oc then Returns (am_cred a') g (Some e)
                        else if oc_usable oc then Returns old g None
                        else Returns empty_credential 0 (Some e))))))"

text \<open>\<open>refreshIfNeeded\<close>: whether the refresh loop calls \<open>get\<close>.\<close>

definition refresh_needed :: "int \<Rightarrow> auth_manager \<Rightarrow> bool" where
  "refresh_needed now a \<longleftrightarrow> cr_token (am_cred a) \<noteq> [] \<and> \<not> 2 * minute < cr_expires_at (am_cred a) - now
     \<and> am_refresh_err a = None"

section \<open>Logging in and out\<close>

definition logout :: "auth_manager \<Rightarrow> auth_manager" where
  "logout a = a\<lparr>am_cred := empty_credential, am_generation := am_generation a + 1,
     am_refresh_err := None, am_pending := [], am_latest := []\<rparr>"

text \<open>The random choices of \<open>beginLogin\<close>, the clock, and the order of a map.\<close>

record login_env =
  le_now :: int
  le_state :: string
  le_key :: "device_key option"
  le_digit :: "nat \<Rightarrow> int \<Rightarrow> int option"
  le_machine :: "string option"
  le_range :: "(string \<times> login_result) list \<Rightarrow> (string \<times> login_result) list"

definition supersede :: "int \<Rightarrow> (string \<times> login_result) list \<Rightarrow> (string \<times> login_result) list" where
  "supersede now rs =
     map (\<lambda>(k, r). (k, if lr_status r = ''pending'' then r\<lparr>lr_status := ''superseded''\<rparr> else r))
       (filter (\<lambda>(k, r). \<not> lr_expires r < now) rs)"

definition older_result :: "string \<times> login_result \<Rightarrow> string \<times> int \<Rightarrow> string \<times> int" where
  "older_result p o_ex = (if fst o_ex = [] \<or> lr_expires (snd p) < snd o_ex
     then (fst p, lr_expires (snd p)) else o_ex)"

definition result_limit :: nat where
  "result_limit = 128"

definition evict_result ::
  "((string \<times> login_result) list \<Rightarrow> (string \<times> login_result) list)
    \<Rightarrow> (string \<times> login_result) list \<Rightarrow> (string \<times> login_result) list" where
  "evict_result rng rs =
     (if result_limit \<le> length rs then mdel (fst (fold older_result (rng rs) ([], 0))) rs else rs)"

text \<open>\<open>newDeviceID\<close>: nineteen digits, the first not 0.\<close>

fun device_digits :: "(nat \<Rightarrow> int \<Rightarrow> int option) \<Rightarrow> nat list \<Rightarrow> string option" where
  "device_digits rnd [] = Some []"
| "device_digits rnd (i # is) =
     (case rnd i (if i = 0 then 9 else 10) of
        None \<Rightarrow> None
      | Some n \<Rightarrow>
          map_option (\<lambda>s. char_of (48 + nat (if i = 0 then n + 1 else n)) # s) (device_digits rnd is))"

definition new_device_id :: "(nat \<Rightarrow> int \<Rightarrow> int option) \<Rightarrow> string option" where
  "new_device_id rnd = device_digits rnd [0..<19]"

definition login_lifetime :: int where
  "login_lifetime = 10 * minute"

text \<open>The attempt that \<open>beginLogin\<close> opens, or its error.\<close>

definition new_attempt :: "login_env \<Rightarrow> 64 word \<Rightarrow> login_attempt res" where
  "new_attempt le g =
     (case le_key le of
        None \<Rightarrow> Inl (ErrMsg ''device key generation failed'')
      | Some key \<Rightarrow>
          (case new_device_id (le_digit le) of
             None \<Rightarrow> Inl (ErrMsg ''device ID generation failed'')
           | Some device \<Rightarrow>
               (case le_machine le of
                  None \<Rightarrow> Inl (ErrMsg ''machine ID generation failed'')
                | Some machine \<Rightarrow>
                    Inr \<lparr>la_expires = le_now le + login_lifetime, la_device = device,
                         la_machine = hex_text machine, la_key = key, la_generation = g\<rparr>)))"

definition begin_login :: "login_env \<Rightarrow> auth_manager \<Rightarrow> auth_manager \<times> login_attempt res" where
  "begin_login le a =
     (if am_callback_url a = []
      then (a, Inl (ErrMsg ''authorization callback listener is unavailable''))
      else
        (let a1 = a\<lparr>am_results := evict_result (le_range le) (supersede (le_now le) (am_results a)),
                    am_pending := []\<rparr>
         in case new_attempt le (am_generation a) of
              Inl e \<Rightarrow> (a1, Inl e)
            | Inr p \<Rightarrow>
                (a1\<lparr>am_pending := [(le_state le, p)], am_latest := le_state le,
                    am_results := mput (le_state le)
                      \<lparr>lr_status = ''pending'', lr_expires = la_expires p\<rparr> (am_results a1)\<rparr>,
                 Inr p)))"

section \<open>The callback of the browser\<close>

text \<open>
  The pages it answers with, one constructor for each text of the source, and the request:
  \<open>q.Get\<close>, the length of the raw query, and the readings of \<open>r.Context().Err()\<close>.
\<close>

datatype page = RequestCanceled | QueryTooLarge | AttemptInvalid | NotCN | ExchangeFailed
  | AccountMissing | LoginChanged | SaveFailed | Durability | LoginDone

type_synonym reply = "int \<times> page"

record callback_request =
  cb_get :: "string \<Rightarrow> string"
  cb_raw_length :: nat
  cb_ctx :: ctx_errs

definition callback_state :: "callback_request \<Rightarrow> string" where
  "callback_state r = (if cb_get r ''loginTraceID'' = [] then cb_get r ''login_trace_id''
     else cb_get r ''loginTraceID'')"

definition result_at :: "auth_manager \<Rightarrow> string \<Rightarrow> login_result" where
  "result_at a s = (case map_of (am_results a) s of Some r \<Rightarrow> r
     | None \<Rightarrow> \<lparr>lr_status = [], lr_expires = 0\<rparr>)"

text \<open>The first section takes the attempt out of the pending ones; only one callback can.\<close>

definition callback_claim :: "int \<Rightarrow> string \<Rightarrow> auth_manager \<Rightarrow> auth_manager \<times> login_attempt option" where
  "callback_claim now s a =
     (case map_of (am_pending a) s of
        Some p \<Rightarrow>
          if lr_status (result_at a s) = ''pending'' \<and> now < lr_expires (result_at a s)
          then (a\<lparr>am_pending := mdel s (am_pending a)\<rparr>, Some p) else (a, None)
      | None \<Rightarrow> (a, None))"

definition or_else :: "string \<Rightarrow> string \<Rightarrow> string" where
  "or_else s t = (if s = [] then t else s)"

definition or_time :: "int \<Rightarrow> int \<Rightarrow> int" where
  "or_time s t = (if s = 0 then t else s)"

text \<open>The credential the query carries (lines 386 to 430).\<close>

definition callback_credential ::
  "config \<Rightarrow> callback_request \<Rightarrow> login_attempt \<Rightarrow> reply + credential" where
  "callback_credential cf r p =
     (let q = cb_get r;
          jwt = or_empty (object_value (JStr (q ''userJwt'')));
          info = or_empty (object_value (JStr (q ''userInfo'')));
          region = or_else (first_string info [''Region'', ''region'']) (q ''region'')
      in if region \<noteq> [] \<and> \<not> equal_fold region ''CN'' then Inl (400, NotCN)
         else Inr \<lparr>
           cr_token = first_string jwt [''Token'', ''token''],
           cr_refresh_token = or_else (or_else (first_string jwt [''RefreshToken'', ''refreshToken''])
             (q ''refreshToken'')) (q ''data''),
           cr_user_id = or_else (first_string info [''UserID'', ''UserId'', ''userId'', ''userID'']) (q ''userId''),
           cr_client_id = or_else (or_else (first_string jwt [''ClientID'', ''clientId'']) (q ''clientID''))
             (cf_client_id cf),
           cr_expires_at = or_time (parse_expiry (jfield jwt ''TokenExpireAt''))
             (parse_expiry (jfield jwt ''tokenExpireAt'')),
           cr_refresh_expires_at = or_time (or_time (parse_expiry (jfield jwt ''RefreshExpireAt''))
             (parse_expiry (jfield jwt ''refreshExpireAt''))) (parse_expiry (JStr (q ''refreshExpireAt''))),
           cr_refresh_pending = False, cr_device_id = la_device p, cr_machine_id = la_machine p,
           cr_device_key = Some (la_key p)\<rparr>)"

text \<open>The account and expiry from the token's claims (lines 440 to 450).\<close>

definition callback_account :: "credential \<Rightarrow> reply + credential" where
  "callback_account c =
     (let claims = jwt_claims (cr_token c);
          c' = c\<lparr>cr_user_id := or_else (cr_user_id c)
                   (first_string claims [''user_id'', ''userId'', ''UserID'', ''sub'']),
                 cr_expires_at := or_time (cr_expires_at c) (parse_expiry (jfield claims ''exp''))\<rparr>
      in if cr_token c' = [] \<or> cr_user_id c' = [] then Inl (400, AccountMissing) else Inr c')"

text \<open>Between the sections: the query, an exchange when it has no token, the account.\<close>

definition callback_work ::
  "auth_ctx \<Rightarrow> int \<Rightarrow> callback_request \<Rightarrow> login_attempt \<Rightarrow> http_request list
    \<Rightarrow> http_request list \<times> (reply + credential)" where
  "callback_work ax now r p log =
     (case callback_credential (ax_config ax) r p of
        Inl f \<Rightarrow> (log, Inl f)
      | Inr c \<Rightarrow>
          if cr_token c = [] then
            (case exchange (ax_env ax) (ax_config ax) now c log of
               (log', Inl e) \<Rightarrow> (log', Inl (400, ExchangeFailed))
             | (log', Inr c') \<Rightarrow> (log', callback_account c'))
          else (log, callback_account c))"

definition set_status :: "string \<Rightarrow> string \<Rightarrow> auth_manager \<Rightarrow> auth_manager" where
  "set_status s status a =
     a\<lparr>am_results := mput s ((result_at a s)\<lparr>lr_status := status\<rparr>) (am_results a)\<rparr>"

text \<open>The last section (lines 451 to 482).\<close>

definition commit_login ::
  "auth_ctx \<Rightarrow> int \<Rightarrow> gerror option \<Rightarrow> string \<Rightarrow> login_attempt \<Rightarrow> credential \<Rightarrow> auth_manager \<Rightarrow> disk
    \<Rightarrow> auth_manager \<times> disk \<times> reply" where
  "commit_login ax now ctx_err s p c a d =
     (if ctx_err \<noteq> None \<or> la_generation p \<noteq> am_generation a \<or> am_latest a \<noteq> s
         \<or> lr_status (result_at a s) \<noteq> ''pending'' \<or> \<not> now < lr_expires (result_at a s)
      then (a, d, (400, LoginChanged))
      else
        (case save_reconciled ax (am_store a) c d of
           (d', published, e) \<Rightarrow>
             if \<not> published then (a, d', (503, SaveFailed))
             else
               (set_status s (if e \<noteq> None then ''durability_uncertain'' else ''completed'')
                  (a\<lparr>am_cred := c, am_generation := am_generation a + 1, am_refresh_err := None,
                     am_uncertain := (e \<noteq> None)\<rparr>),
                d', if e \<noteq> None then (503, Durability) else (200, LoginDone))))"

definition finish_login :: "string \<Rightarrow> auth_manager \<Rightarrow> auth_manager" where
  "finish_login s a =
     (if lr_status (result_at a s) = ''pending'' then set_status s ''failed'' a else a)"

text \<open>
  \<open>callback\<close>, when no other section runs between its own; \<open>now\<close> 0 to 3 are the clock of the
  claim, the check after it, the exchange and the commit.
\<close>

definition callback ::
  "auth_ctx \<Rightarrow> clock \<Rightarrow> callback_request \<Rightarrow> auth_manager \<Rightarrow> disk \<Rightarrow> http_request list
    \<Rightarrow> auth_manager \<times> disk \<times> http_request list \<times> reply" where
  "callback ax now r a d log =
     (let s = callback_state r in
      if cb_ctx r 0 \<noteq> None then (a, d, log, (400, RequestCanceled))
      else if 65536 < cb_raw_length r then (a, d, log, (400, QueryTooLarge))
      else
        (case callback_claim (now 0) s a of
           (a1, None) \<Rightarrow> (a1, d, log, (400, AttemptInvalid))
         | (a1, Some p) \<Rightarrow>
             if la_expires p < now 1 then (a1, d, log, (400, AttemptInvalid))
             else
               (case callback_work ax (now 2) r p log of
                  (log', Inl f) \<Rightarrow> (finish_login s a1, d, log', f)
                | (log', Inr c) \<Rightarrow>
                    (case commit_login ax (now 3) (cb_ctx r 1) s p c a1 d of
                       (a2, d', f) \<Rightarrow> (finish_login s a2, d', log', f)))))"

section \<open>Watching and cancelling an attempt\<close>

text \<open>The sections of \<open>loginStatus\<close> and \<open>cancelLogin\<close> in \<open>auth_service.go\<close>.\<close>

definition drop_attempt :: "string \<Rightarrow> string \<Rightarrow> auth_manager \<Rightarrow> auth_manager" where
  "drop_attempt s status a =
     (let a' = set_status s status a in
      a'\<lparr>am_pending := mdel s (am_pending a'), am_latest := (if am_latest a' = s then [] else am_latest a')\<rparr>)"

definition status_section :: "int \<Rightarrow> string \<Rightarrow> auth_manager \<Rightarrow> auth_manager \<times> string option" where
  "status_section now s a =
     (case map_of (am_results a) s of
        None \<Rightarrow> (a, None)
      | Some r \<Rightarrow>
          if lr_status r = ''pending'' \<and> \<not> now < lr_expires r
          then (drop_attempt s ''expired'' a, Some ''expired'') else (a, Some (lr_status r)))"

definition cancel_section :: "string \<Rightarrow> auth_manager \<Rightarrow> auth_manager \<times> string option" where
  "cancel_section s a =
     (case map_of (am_results a) s of
        None \<Rightarrow> (a, None)
      | Some r \<Rightarrow>
          if lr_status r = ''pending''
          then (drop_attempt s ''cancelled'' a, Some ''cancelled'') else (a, Some (lr_status r)))"

text \<open>
  The manager of \<open>newAuthService\<close>: what the store holds when it opens. A credential saved
  with its refresh pending may have been sent already.
\<close>

definition restored_manager :: "store \<Rightarrow> credential option \<Rightarrow> auth_manager" where
  "restored_manager st saved =
     (case saved of
        None \<Rightarrow> new_auth_manager\<lparr>am_store := Some st\<rparr>
      | Some c \<Rightarrow> new_auth_manager\<lparr>am_store := Some st, am_cred := c,
          am_refresh_err := (if cr_refresh_pending c then Some AmbiguousExchange else None)\<rparr>)"

definition open_manager :: "auth_ctx \<Rightarrow> gerror + string \<Rightarrow> nat \<Rightarrow> disk \<Rightarrow> disk \<times> auth_manager res" where
  "open_manager ax config_dir pid d =
     (case open_credential_store (ax_os ax) (ax_codec ax) config_dir pid d of
        (d1, Inl e) \<Rightarrow> (d1, Inl e)
      | (d1, Inr st) \<Rightarrow>
          (case load (ax_os ax) (ax_codec ax) (st_path st) d1 of
             (d2, Inr c) \<Rightarrow> (d2, Inr (restored_manager st (Some c)))
           | (d2, Inl e) \<Rightarrow>
               if errors_is e ErrNotExist then (d2, Inr (restored_manager st None))
               else (fst (snd (close_store (ax_os ax) st d2)), Inl e)))"

end
