(* ===== verification/Utf8.thy ===== *)
theory Utf8
  imports JsonWrite
begin

text \<open>
  Valid UTF-8, and that the JSON writer keeps it. The library's encoder and decoder replace
  invalid sequences by U+FFFD, which this development does not model; on a text that is valid
  there is nothing to replace.
\<close>

definition valid_utf8 :: "string \<Rightarrow> bool" where
  "valid_utf8 s \<longleftrightarrow> (\<forall>(r, bs) \<in> set (rune_spans s). r = 65533 \<longrightarrow> length bs \<noteq> 1)"

definition good_rune :: "nat \<times> nat \<Rightarrow> bool" where
  "good_rune p \<longleftrightarrow> p \<noteq> (65533, 1)"

text \<open>The four shapes of a valid sequence.\<close>

definition two_bytes :: "nat \<Rightarrow> nat \<Rightarrow> bool" where
  "two_bytes b0 b1 \<longleftrightarrow> 194 \<le> b0 \<and> b0 \<le> 223 \<and> cont_byte b1"

definition three_bytes :: "nat \<Rightarrow> nat \<Rightarrow> nat \<Rightarrow> bool" where
  "three_bytes b0 b1 b2 \<longleftrightarrow> 224 \<le> b0 \<and> b0 \<le> 239 \<and> cont_byte b1 \<and> cont_byte b2
     \<and> (b0 = 224 \<longrightarrow> 160 \<le> b1) \<and> (b0 = 237 \<longrightarrow> b1 \<le> 159)"

definition four_bytes :: "nat \<Rightarrow> nat \<Rightarrow> nat \<Rightarrow> nat \<Rightarrow> bool" where
  "four_bytes b0 b1 b2 b3 \<longleftrightarrow> 240 \<le> b0 \<and> b0 \<le> 244 \<and> cont_byte b1 \<and> cont_byte b2 \<and> cont_byte b3
     \<and> (b0 = 240 \<longrightarrow> 144 \<le> b1) \<and> (b0 = 244 \<longrightarrow> b1 \<le> 143)"

lemma decode_rune_shapes:
  "b0 < 128 \<Longrightarrow> decode_rune (b0 # t) = (b0, 1)"
  "two_bytes b0 b1 \<Longrightarrow> decode_rune (b0 # b1 # t) = ((b0 - 192) * 64 + (b1 - 128), 2)"
  "three_bytes b0 b1 b2 \<Longrightarrow> decode_rune (b0 # b1 # b2 # t) = ((b0 - 224) * 4096 + (b1 - 128) * 64 + (b2 - 128), 3)"
  "four_bytes b0 b1 b2 b3 \<Longrightarrow> decode_rune (b0 # b1 # b2 # b3 # t)
     = ((b0 - 240) * 262144 + (b1 - 128) * 4096 + (b2 - 128) * 64 + (b3 - 128), 4)"
  by (simp_all add: decode_rune_def Let_def two_bytes_def three_bytes_def four_bytes_def numeral_2_eq_2 numeral_3_eq_3)

lemma good_rune_shape:
  assumes "good_rune (decode_rune bs)" "bs \<noteq> []"
  obtains (one) b0 t where "bs = b0 # t" "b0 < 128"
    | (two) b0 b1 t where "bs = b0 # b1 # t" "two_bytes b0 b1"
    | (three) b0 b1 b2 t where "bs = b0 # b1 # b2 # t" "three_bytes b0 b1 b2"
    | (four) b0 b1 b2 b3 t where "bs = b0 # b1 # b2 # b3 # t" "four_bytes b0 b1 b2 b3"
proof -
  obtain b0 s0 where bs: "bs = b0 # s0" using assms(2) by (cases bs) auto
  have len: "n \<le> length bs \<Longrightarrow> bs = take n bs @ drop n bs" for n by simp
  have l2: "2 \<le> length bs \<Longrightarrow> \<exists>t. bs = [b0, bs ! 1] @ t"
    using bs by (cases s0) auto
  have l3: "3 \<le> length bs \<Longrightarrow> \<exists>t. bs = [b0, bs ! 1, bs ! 2] @ t"
    using bs by (cases s0; cases "tl s0") auto
  have l4: "4 \<le> length bs \<Longrightarrow> \<exists>t. bs = [b0, bs ! 1, bs ! 2, bs ! 3] @ t"
    using bs by (cases s0; cases "tl s0"; cases "tl (tl s0)") auto
  have b: "bs ! 0 = b0" "bs \<noteq> []" by (simp_all add: bs)
  have "b0 < 128 \<or> 2 \<le> length bs \<and> two_bytes b0 (bs ! 1) \<or> 3 \<le> length bs \<and> three_bytes b0 (bs ! 1) (bs ! 2)
      \<or> 4 \<le> length bs \<and> four_bytes b0 (bs ! 1) (bs ! 2) (bs ! 3)"
  proof (rule ccontr)
    assume n: "\<not> ?thesis"
    then have "decode_rune bs = (65533, 1)"
      unfolding decode_rune_def Let_def two_bytes_def three_bytes_def four_bytes_def
      by (simp add: b if_not_P del: not_less not_le)
    then show False using assms(1) by (simp add: good_rune_def)
  qed
  then show thesis
  proof (elim disjE conjE)
    assume "b0 < 128" then show thesis by (rule one [OF bs])
  next
    assume x: "2 \<le> length bs" "two_bytes b0 (bs ! 1)"
    from l2 [OF x(1)] obtain t where "bs = b0 # bs ! 1 # t" by auto
    then show thesis using x(2) by (rule two)
  next
    assume x: "3 \<le> length bs" "three_bytes b0 (bs ! 1) (bs ! 2)"
    from l3 [OF x(1)] obtain t where "bs = b0 # bs ! 1 # bs ! 2 # t" by auto
    then show thesis using x(2) by (rule three)
  next
    assume x: "4 \<le> length bs" "four_bytes b0 (bs ! 1) (bs ! 2) (bs ! 3)"
    from l4 [OF x(1)] obtain t where "bs = b0 # bs ! 1 # bs ! 2 # bs ! 3 # t" by auto
    then show thesis using x(2) by (rule four)
  qed
qed

lemma decode_rune_prefix:
  assumes "good_rune (decode_rune bs)" "bs \<noteq> []"
  shows "decode_rune (bs @ cs) = decode_rune bs" "snd (decode_rune bs) \<le> length bs"
    "decode_rune (take (snd (decode_rune bs)) bs) = decode_rune bs"
  by (rule good_rune_shape [OF assms]; simp add: decode_rune_shapes)+

lemma decode_rune_bytes:
  assumes "good_rune (decode_rune bs)" "bs \<noteq> []"
  shows "snd (decode_rune bs) = 1 \<and> hd bs < 128
    \<or> 1 < snd (decode_rune bs) \<and> (\<forall>b \<in> set (take (snd (decode_rune bs)) bs). 128 \<le> b)"
  by (rule good_rune_shape [OF assms])
    (simp_all add: decode_rune_shapes, simp_all add: two_bytes_def three_bytes_def four_bytes_def cont_byte_def)

text \<open>The first rune of a text, and the rest of it.\<close>

definition first_rune :: "string \<Rightarrow> nat \<times> nat" where
  "first_rune s = decode_rune (map of_char (take 4 s))"

lemma rune_spans_first:
  "s \<noteq> [] \<Longrightarrow> rune_spans s = (fst (first_rune s), take (snd (first_rune s)) s) # rune_spans (drop (snd (first_rune s)) s)"
  by (cases s) (simp_all add: rune_spans.simps(2) first_rune_def split: prod.split)

lemma first_rune_width:
  assumes "s \<noteq> []" "good_rune (first_rune s)"
  shows "0 < snd (first_rune s)" "snd (first_rune s) \<le> length s"
proof -
  show "0 < snd (first_rune s)" by (simp add: first_rune_def decode_rune_width)
  have "snd (first_rune s) \<le> length (map of_char (take 4 s) :: nat list)"
    using assms decode_rune_prefix(2) [of "map of_char (take 4 s)"] by (simp add: first_rune_def)
  then show "snd (first_rune s) \<le> length s" by simp
qed

lemma bad_width: "\<not> good_rune (first_rune s) \<Longrightarrow> first_rune s = (65533, 1)"
  by (simp add: good_rune_def)

lemma valid_utf8_Nil [simp]: "valid_utf8 []"
  by (simp add: valid_utf8_def)

lemma valid_utf8_first:
  assumes "s \<noteq> []"
  shows "valid_utf8 s \<longleftrightarrow> good_rune (first_rune s) \<and> valid_utf8 (drop (snd (first_rune s)) s)"
proof (cases "good_rune (first_rune s)")
  case True
  then have "length (take (snd (first_rune s)) s) = snd (first_rune s)" using first_rune_width [OF assms] by simp
  then show ?thesis using True rune_spans_first [OF assms]
    by (cases "first_rune s") (auto simp: valid_utf8_def good_rune_def)
next
  case False
  then show ?thesis using bad_width [OF False] rune_spans_first [OF assms] assms
    by (cases s) (auto simp: valid_utf8_def)
qed

lemma first_rune_append:
  assumes "s \<noteq> []" "good_rune (first_rune s)"
  shows "first_rune (s @ t) = first_rune s"
proof -
  have "map of_char (take 4 (s @ t)) = map of_char (take 4 s) @ (map of_char (take (4 - length s) t) :: nat list)"
    by simp
  then show ?thesis
    using assms decode_rune_prefix(1) [of "map of_char (take 4 s)" "map of_char (take (4 - length s) t)"]
    unfolding first_rune_def by simp
qed

lemma valid_utf8_append: "valid_utf8 s \<Longrightarrow> valid_utf8 t \<Longrightarrow> valid_utf8 (s @ t)"
proof (induction "length s" arbitrary: s rule: less_induct)
  case less
  show ?case
  proof (cases "s = []")
    case False
    let ?w = "snd (first_rune s)"
    have v: "good_rune (first_rune s)" "valid_utf8 (drop ?w s)" using less.prems(1) valid_utf8_first [OF False] by auto
    note w = first_rune_width [OF False v(1)]
    have "length (drop ?w s) < length s" using w False by simp
    then have "valid_utf8 (drop ?w s @ t)" using less.hyps v(2) less.prems(2) by blast
    then show ?thesis
      using valid_utf8_first [of "s @ t"] first_rune_append [OF False v(1)] v(1) w False by simp
  qed (use less.prems in simp)
qed

lemma valid_utf8_ascii: "(\<And>c. c \<in> set s \<Longrightarrow> (of_char c :: nat) < 128) \<Longrightarrow> valid_utf8 s"
proof (induction s)
  case (Cons c s)
  have "rune_spans (c # s) = (of_char c, [c]) # rune_spans s" "(of_char c :: nat) \<noteq> 65533"
    using Cons.prems [of c] by simp_all
  then show ?case using Cons by (simp add: valid_utf8_def)
qed simp

lemma valid_utf8_concat: "(\<And>s. s \<in> set ss \<Longrightarrow> valid_utf8 s) \<Longrightarrow> valid_utf8 (concat ss)"
  by (induction ss) (auto intro: valid_utf8_append)

section \<open>The writer\<close>

lemma hex_char_ascii: "n < 16 \<Longrightarrow> (of_char (hex_char n) :: nat) < 128"
  by (simp add: hex_char_def)

lemma escape_char_ascii:
  assumes "(of_char c :: nat) < 128" "x \<in> set (escape_char c)"
  shows "(of_char x :: nat) < 128"
proof -
  have "(of_char (hex_char ((of_char c :: nat) div 16)) :: nat) < 128" "(of_char (hex_char ((of_char c :: nat) mod 16)) :: nat) < 128"
    using assms(1) by (auto intro!: hex_char_ascii)
  then show ?thesis using assms by (auto simp: escape_char_def Let_def split: if_splits)
qed

lemma escape_char_high:
  assumes "128 \<le> (of_char c :: nat)"
  shows "escape_char c = [c]"
proof -
  have "c \<noteq> CHR 0x22" "c \<noteq> CHR 0x5C" "c \<noteq> CHR ''<''" "c \<noteq> CHR ''>''" "c \<noteq> CHR ''&''" using assms by auto
  then show ?thesis using assms by (simp add: escape_char_def Let_def)
qed

lemma valid_utf8_escape: "valid_utf8 s \<Longrightarrow> valid_utf8 (concat (map escape_char s))"
proof (induction "length s" arbitrary: s rule: less_induct)
  case less
  show ?case
  proof (cases "s = []")
    case False
    let ?w = "snd (first_rune s)" and ?bs = "map of_char (take 4 s) :: nat list"
    have v: "good_rune (first_rune s)" "valid_utf8 (drop ?w s)" using less.prems valid_utf8_first [OF False] by auto
    note w = first_rune_width [OF False v(1)]
    have bs: "?bs \<noteq> []" "good_rune (decode_rune ?bs)" "?w = snd (decode_rune ?bs)"
      using False v(1) by (simp_all add: first_rune_def)
    have w4: "?w \<le> 4" "?w \<le> length ?bs" using decode_rune_prefix(2) [OF bs(2,1)] bs(3) by simp_all
    have "length (drop ?w s) < length s" using w False by simp
    then have rest: "valid_utf8 (concat (map escape_char (drop ?w s)))" using less.hyps v(2) by blast
    have "valid_utf8 (concat (map escape_char (take ?w s)))"
    proof (cases "?w = 1")
      case True
      then have "hd ?bs < 128" using decode_rune_bytes [OF bs(2,1)] bs(3) by auto
      then have "(of_char (hd s) :: nat) < 128" using False by (cases s) simp_all
      moreover have "take ?w s = [hd s]" using True False by (cases s) simp_all
      ultimately show ?thesis using escape_char_ascii by (auto intro!: valid_utf8_ascii)
    next
      case False
      then have "\<forall>b \<in> set (take ?w ?bs). 128 \<le> b" using decode_rune_bytes [OF bs(2,1)] bs(3) by auto
      moreover have "take ?w ?bs = map of_char (take ?w s)" using w4 by (simp add: take_map min_def)
      ultimately have "\<forall>c \<in> set (take ?w s). escape_char c = [c]" using escape_char_high by auto
      then have "map escape_char (take ?w s) = map (\<lambda>c. [c]) (take ?w s)" by (intro map_cong refl) blast
      then have e: "concat (map escape_char (take ?w s)) = take ?w s"
        using concat_map_singleton [of "\<lambda>c. c" "take ?w s"] by (metis map_ident)
      have "decode_rune (take ?w ?bs) = decode_rune ?bs" using decode_rune_prefix(3) [OF bs(2,1)] bs(3) by simp
      moreover have "take ?w ?bs = map of_char (take 4 (take ?w s))" using w4 by (simp add: take_map min_def)
      ultimately have "first_rune (take ?w s) = first_rune s" by (simp add: first_rune_def)
      then have "valid_utf8 (take ?w s)"
        using valid_utf8_first [of "take ?w s"] v(1) w \<open>s \<noteq> []\<close> by simp
      then show ?thesis using e by simp
    qed
    moreover have "concat (map escape_char s) = concat (map escape_char (take ?w s)) @ concat (map escape_char (drop ?w s))"
      by (metis append_take_drop_id concat_append map_append)
    ultimately show ?thesis using rest valid_utf8_append by simp
  qed simp
qed

lemma valid_utf8_quote: "valid_utf8 s \<Longrightarrow> valid_utf8 (quote_str s)"
  unfolding quote_str_def
  using valid_utf8_escape [of s] valid_utf8_ascii [of "[CHR 0x22]"] by (intro valid_utf8_append) simp_all

lemma valid_utf8_commas: "(\<And>s. s \<in> set ss \<Longrightarrow> valid_utf8 s) \<Longrightarrow> valid_utf8 (commas ss)"
proof (induction ss rule: commas.induct)
  case (3 x y ys)
  then have "valid_utf8 x" "valid_utf8 (commas (y # ys))" by auto
  moreover have "valid_utf8 '',''" by (rule valid_utf8_ascii) auto
  ultimately show ?case unfolding commas.simps by (intro valid_utf8_append)
qed simp_all

lemma valid_utf8_raw_obj:
  assumes "\<And>k v. (k, v) \<in> set ms \<Longrightarrow> valid_utf8 k \<and> valid_utf8 v"
  shows "valid_utf8 (raw_obj ms)"
proof -
  have "valid_utf8 (raw_item p)" if "p \<in> set ms" for p
  proof -
    have "valid_utf8 (fst p)" "valid_utf8 (snd p)" using assms [of "fst p" "snd p"] that by simp_all
    moreover have "valid_utf8 '':''" by (rule valid_utf8_ascii) auto
    ultimately show ?thesis unfolding raw_item_def by (intro valid_utf8_append valid_utf8_quote)
  qed
  then show ?thesis unfolding raw_obj_def
    by (intro valid_utf8_append valid_utf8_commas) (auto intro: valid_utf8_ascii)
qed

end
