(* ===== verification/CredentialCorrect.thy ===== *)
theory CredentialCorrect
  imports Credential Utf8
begin

text \<open>
  What \<open>Save\<close> writes is what \<open>Load\<close> and the API read; and the strict reading of Auth
  accepts nothing that the narrow reading of the API would read differently.
\<close>

section \<open>Fields\<close>

lemma member_names:
  assumes "p \<in> set stored_names" "q \<in> set stored_names"
  shows "key_matches p q \<longleftrightarrow> q = p"
proof -
  have "list_all (\<lambda>p. list_all (\<lambda>q. key_matches p q = (q = p)) stored_names) stored_names"
    by code_simp
  then show ?thesis using assms unfolding list_all_iff by blast
qed

lemma raw_values_stored:
  assumes "map fst ms = stored_names" "(name, r) \<in> set ms"
  shows "raw_values name ms = [r]"
proof -
  have d: "distinct (map fst ms)" using assms(1) by (simp add: stored_names_def)
  have n: "fst p \<in> set stored_names" if "p \<in> set ms" for p
    using that assms(1) by (metis image_eqI set_map)
  have "filter (\<lambda>p. key_matches name (fst p)) ms = filter (\<lambda>p. fst p = name) ms"
    using n assms(2) member_names by (intro filter_cong refl) (metis fst_conv)
  also have "\<dots> = [(name, r)]"
    using d assms(2)
  proof (induction ms)
    case (Cons p ms)
    show ?case
    proof (cases "p = (name, r)")
      case True
      then have "filter (\<lambda>p. fst p = name) ms = []"
        using Cons.prems(1) by (auto simp: filter_empty_conv image_iff)
      with True show ?thesis by simp
    next
      case False
      then have "fst p \<noteq> name" using Cons.prems by (auto simp: image_iff)
      with False Cons show ?thesis by auto
    qed
  qed simp
  finally show ?thesis by (simp add: raw_values_def)
qed

lemma parse_quote_str: "parse_json (quote_str s) = Some (JStr s)"
proof -
  have "pvalue (fuel_for (quote_str s)) (quote_str s @ []) = Some (JStr s, [])"
    by (simp only: quote_str_cons fuel_for_def add_2_eq_Suc' pvalue.simps(2) skip_ws_lits)
      (simp add: pstring_quote Let_def)
  then show ?thesis by (simp add: parse_json_def skip_ws_def)
qed

lemma raw_string_quote [simp]: "raw_string (quote_str s) = Some s"
  by (simp add: raw_string_def parse_quote_str)

lemma quote_str_neq_null [simp]: "quote_str s \<noteq> ''null''"
  by (simp add: quote_str_def)

lemma raw_consts:
  "raw_bool ''true'' = Some True" "raw_bool ''false'' = Some False"
  "raw_int (show_int credential_version) = Some credential_version" "show_int credential_version = ''1''"
  by code_simp+

lemma pnumber_one: "c = CHR ''}'' \<or> c = CHR '','' \<Longrightarrow> pnumber (CHR ''1'' # c # t) = Some (Number False (Suc 0) 0, c # t)"
proof -
  assume c: "c = CHR ''}'' \<or> c = CHR '',''"
  have d: "is_digit (CHR ''1'')" "\<not> is_digit c" using c by (auto, code_simp+)
  have n: "nat_of_digits ''1'' = Suc 0" by code_simp
  have dg: "pdigits (CHR ''1'' # c # t) = (''1'', c # t)" using d by (simp add: pdigits_def)
  have f: "pfrac (c # t) = Some ([], c # t)" "pexp (c # t) = Some (0, c # t)"
    using c by (auto simp: pfrac_def pexp_def)
  show ?thesis unfolding pnumber_def by (simp add: dg f n)
qed

lemma value_text_one: "value_text ''1'' (JNum (Number False (Suc 0) 0))"
  unfolding value_text_def
proof (intro conjI allI impI)
  fix n and rest :: string assume "take 1 rest = ''}'' \<or> take 1 rest = '',''"
  then obtain c t where "rest = c # t" and c: "c = CHR ''}'' \<or> c = CHR '',''" by (cases rest) auto
  then show "pvalue (Suc n) (''1'' @ rest) = Some (JNum (Number False (Suc 0) 0), rest)"
    by (simp add: pvalue.simps(2) skip_ws_def ws_char_def pnumber_one [OF c] Let_def)
qed (simp_all add: ws_char_def)

text \<open>The laws of the parameters, as their documentation states them.\<close>

definition codec_ok :: "codec \<Rightarrow> bool" where
  "codec_ok co \<longleftrightarrow>
     (\<forall>t s. co_time_text co t = Some s \<longrightarrow> (\<exists>x. s = quote_str x) \<and> co_time_parse co s = Some t) \<and>
     (\<forall>k der. co_pkcs8 co k = Some der \<longrightarrow> der \<noteq> [] \<and> co_pkcs8_parse co der = Some (Ecdsa k)) \<and>
     (\<forall>d. co_base64_decode co (co_base64 co d) = Some d \<and> (d \<noteq> [] \<longrightarrow> co_base64 co d \<noteq> []))"

lemma encode_stored_decodes:
  assumes co: "codec_ok co" and data: "encode_stored co c key = Some data"
  shows "\<exists>ms. raw_members data = Some (Some ms) \<and> map fst ms = stored_names
    \<and> pvalue (fuel_for data) data \<noteq> None \<and> snd (the (pvalue (fuel_for data) data)) = []
    \<and> fill_stored co ms = Some \<lparr>sc_credential = c\<lparr>cr_device_key := None\<rparr>,
         sc_version = credential_version, sc_device_private_key = key\<rparr>"
proof -
  obtain te tr where t: "co_time_text co (cr_expires_at c) = Some te"
      "co_time_text co (cr_refresh_expires_at c) = Some tr"
    using data by (auto simp: encode_stored_def obind_def split: option.splits)
  obtain xe xr where x: "te = quote_str xe" "tr = quote_str xr"
    and p: "co_time_parse co te = Some (cr_expires_at c)" "co_time_parse co tr = Some (cr_refresh_expires_at c)"
    using co t unfolding codec_ok_def by metis
  let ?pend = "if cr_refresh_pending c then ''true'' else ''false''"
  define ms where "ms = [
         (''token'', quote_str (cr_token c)), (''refresh_token'', quote_str (cr_refresh_token c)),
         (''user_id'', quote_str (cr_user_id c)), (''client_id'', quote_str (cr_client_id c)),
         (''expires_at'', te), (''refresh_expires_at'', tr), (''refresh_pending'', ?pend),
         (''device_id'', quote_str (cr_device_id c)), (''machine_id'', quote_str (cr_machine_id c)),
         (''version'', show_int credential_version), (''device_private_key'', quote_str key)]"
  have d: "data = raw_obj ms"
    using data by (simp add: encode_stored_def obind_def t ms_def)
  have names: "map fst ms = stored_names" by (simp add: ms_def stored_names_def)
  have "value_text ?pend (JBool (cr_refresh_pending c))" using value_text_bool by simp
  then have vs: "list_all2 (\<lambda>p q. fst q = fst p \<and> value_text (snd p) (snd q)) ms
      [(''token'', JStr (cr_token c)), (''refresh_token'', JStr (cr_refresh_token c)),
       (''user_id'', JStr (cr_user_id c)), (''client_id'', JStr (cr_client_id c)),
       (''expires_at'', JStr xe), (''refresh_expires_at'', JStr xr),
       (''refresh_pending'', JBool (cr_refresh_pending c)), (''device_id'', JStr (cr_device_id c)),
       (''machine_id'', JStr (cr_machine_id c)), (''version'', JNum (Number False (Suc 0) 0)),
       (''device_private_key'', JStr key)]"
    by (simp add: ms_def x raw_consts value_text_string value_text_one)
  have ne: "ms \<noteq> []" by (simp add: ms_def)
  note rt = raw_obj_roundtrip [OF vs ne]
  note rv = raw_values_stored [OF names]
  have "fill_stored co ms = Some \<lparr>sc_credential = c\<lparr>cr_device_key := None\<rparr>,
         sc_version = credential_version, sc_device_private_key = key\<rparr>"
  proof -
    have "raw_values ''token'' ms = [quote_str (cr_token c)]"
      "raw_values ''refresh_token'' ms = [quote_str (cr_refresh_token c)]"
      "raw_values ''user_id'' ms = [quote_str (cr_user_id c)]"
      "raw_values ''client_id'' ms = [quote_str (cr_client_id c)]"
      "raw_values ''expires_at'' ms = [te]" "raw_values ''refresh_expires_at'' ms = [tr]"
      "raw_values ''refresh_pending'' ms = [?pend]"
      "raw_values ''device_id'' ms = [quote_str (cr_device_id c)]"
      "raw_values ''machine_id'' ms = [quote_str (cr_machine_id c)]"
      "raw_values ''version'' ms = [show_int credential_version]"
      "raw_values ''device_private_key'' ms = [quote_str key]"
      by (rule rv; simp add: ms_def)+
    moreover have "te \<noteq> ''null''" "tr \<noteq> ''null''" by (simp_all add: x)
    moreover have "raw_bool ?pend = Some (cr_refresh_pending c)" "?pend \<noteq> ''null''"
      by (simp_all add: raw_consts)
    ultimately show ?thesis
      using p raw_consts(3)
      by (simp add: fill_stored_def field_str_def field_time_def field_version_def obind_def
          raw_consts(4))
  qed
  with rt names show ?thesis unfolding d by (intro exI [of _ ms]) simp
qed

text \<open>A codec with these laws, and a credential, for the examples.\<close>

definition sample_codec :: codec where
  "sample_codec = \<lparr>
     co_time_text = (\<lambda>t. if 0 \<le> t then Some (quote_str (replicate (nat t) (CHR ''x''))) else None),
     co_time_parse = (\<lambda>s. map_option (\<lambda>x. int (length x)) (raw_string s)),
     co_pkcs8 = (\<lambda>k. Some ((if dk_p256 k then CHR ''p'' else CHR ''q'') # replicate (dk_id k) (CHR ''x''))),
     co_pkcs8_parse = (\<lambda>s. case s of [] \<Rightarrow> None
        | c # x \<Rightarrow> Some (Ecdsa \<lparr>dk_p256 = (c = CHR ''p''), dk_id = length x\<rparr>)),
     co_base64 = id, co_base64_decode = Some\<rparr>"

definition sample_credential :: credential where
  "sample_credential = \<lparr>cr_token = ''t'', cr_refresh_token = ''r'', cr_user_id = ''u'', cr_client_id = ''c'',
     cr_expires_at = 2, cr_refresh_expires_at = 3, cr_refresh_pending = False, cr_device_id = ''d'',
     cr_machine_id = ''m'', cr_device_key = Some \<lparr>dk_p256 = True, dk_id = 1\<rparr>\<rparr>"

definition sample_bytes :: string where
  "sample_bytes = (case save_bytes sample_codec sample_credential of Inr s \<Rightarrow> s | Inl e \<Rightarrow> [])"

lemma sample_codec_ok: "codec_ok sample_codec"
  by (auto simp: codec_ok_def sample_codec_def split: if_splits)

lemma sample_saves: "save_bytes sample_codec sample_credential = Inr sample_bytes"
proof -
  have "\<exists>s. save_bytes sample_codec sample_credential = Inr s"
    by (simp add: save_bytes_def sample_credential_def sample_codec_def validate_api_def api_view_def
        encode_stored_def obind_def)
  then show ?thesis by (auto simp: sample_bytes_def)
qed

section \<open>The two readings agree\<close>

lemma fill_stored_api:
  "fill_stored co ms = Some d \<Longrightarrow> fill_api co ms = Some (api_view (sc_version d) (sc_credential d))"
  by (auto simp: fill_stored_def fill_api_def obind_def api_view_def split: option.splits)

lemma decode_strict_api:
  assumes "decode_credential (fill_stored co) stored_names True s = Inr d"
  shows "decode_credential (fill_api co) api_names False s = Inr (api_view (sc_version d) (sc_credential d))"
  using assms fill_stored_api [of co _ d]
  by (auto simp: decode_credential_def Let_def split: option.splits prod.splits if_splits)

lemma load_bytes_decodes:
  assumes "load_bytes co data = Inr c"
  obtains d where "decode_credential (fill_stored co) stored_names True data = Inr d"
    "validate_api (api_view (sc_version d) (sc_credential d)) = None"
    "sc_version d = credential_version" "api_view (sc_version d) (sc_credential d) = api_view credential_version c"
proof -
  obtain d where d: "decode_credential (fill_stored co) stored_names True data = Inr d"
    using assms by (auto simp: load_bytes_def inv_iff)
  from assms d obtain k where v: "validate_api (api_view (sc_version d) (sc_credential d)) = None"
    and c: "c = (sc_credential d)\<lparr>cr_device_key := Some k\<rparr>"
    by (auto simp: load_bytes_def Let_def split: option.splits if_splits private_key.splits)
  have "sc_version d = credential_version"
    using v by (simp add: validate_api_def api_view_def split: if_splits)
  with d v c show thesis by (intro that [of d]) (simp_all add: api_view_def)
qed

lemma api_bytes_loaded:
  assumes "load_bytes co data = Inr c"
  shows "api_bytes co now data =
    (if now < cr_expires_at c then Inr (api_view credential_version c) else Inl LoginRequired)"
proof -
  from load_bytes_decodes [OF assms] obtain d where
    d: "decode_credential (fill_stored co) stored_names True data = Inr d"
    "validate_api (api_view (sc_version d) (sc_credential d)) = None"
    "api_view (sc_version d) (sc_credential d) = api_view credential_version c" by metis
  have "ak_expires_at (api_view credential_version c) = cr_expires_at c" by (simp add: api_view_def)
  with d show ?thesis by (simp add: api_bytes_def decode_strict_api)
qed

lemma save_load_bytes:
  assumes co: "codec_ok co" and save: "save_bytes co c = Inr data"
  shows "load_bytes co data = Inr c"
proof -
  from save obtain k der where k: "cr_device_key c = Some k" "dk_p256 k"
      "cr_refresh_token c \<noteq> []" "cr_refresh_expires_at c \<noteq> 0"
      "validate_api (api_view credential_version c) = None"
      "co_pkcs8 co k = Some der" "encode_stored co c (co_base64 co der) = Some data"
    by (auto simp: save_bytes_def split: option.splits if_splits)
  from encode_stored_decodes [OF co k(7)] obtain ms where ms: "raw_members data = Some (Some ms)"
    "map fst ms = stored_names" "pvalue (fuel_for data) data \<noteq> None"
    "snd (the (pvalue (fuel_for data) data)) = []"
    "fill_stored co ms = Some \<lparr>sc_credential = c\<lparr>cr_device_key := None\<rparr>,
         sc_version = credential_version, sc_device_private_key = co_base64 co der\<rparr>" by blast
  have "list_all (known_member stored_names) ms"
  proof -
    have "known_member stored_names p" if "p \<in> set ms" for p
    proof -
      have "fst p \<in> set stored_names" using that ms(2) by (metis image_eqI set_map)
      then show ?thesis by (auto simp: known_member_def list_ex_iff key_matches_def)
    qed
    then show ?thesis by (simp add: list_all_iff)
  qed
  with ms have dec: "decode_credential (fill_stored co) stored_names True data = Inr
      \<lparr>sc_credential = c\<lparr>cr_device_key := None\<rparr>,
         sc_version = credential_version, sc_device_private_key = co_base64 co der\<rparr>"
    by (auto simp: decode_credential_def skip_ws_def)
  have "co_base64_decode co (co_base64 co der) = Some der" "co_base64 co der \<noteq> []"
    "co_pkcs8_parse co der = Some (Ecdsa k)"
    using co k(6) by (auto simp: codec_ok_def)
  moreover have "api_view credential_version (c\<lparr>cr_device_key := None\<rparr>) = api_view credential_version c"
    by (simp add: api_view_def)
  moreover have "c\<lparr>cr_device_key := Some k\<rparr> = c" using k(1) by simp
  ultimately show ?thesis
    using k by (simp add: load_bytes_def dec Let_def)
qed

text \<open>
  C16. The API reads from the file exactly what Auth wrote for it: whenever Auth's strict
  \<open>Load\<close> accepts the bytes of a credential file, the narrow reader of the API accepts the
  same bytes, with the same token, user, client, device and expiry, unless the credential has
  expired; then it asks for a login.
\<close>

theorem api_reads_what_auth_loads:
  assumes "load_bytes co data = Inr c"
  shows "api_bytes co now data =
    (if now < cr_expires_at c then Inr (api_view credential_version c) else Inl LoginRequired)"
  by (rule api_bytes_loaded [OF assms])

theorem api_reads_what_auth_loads_witness:
  "api_bytes sample_codec 1 sample_bytes = Inr (api_view 1 sample_credential)
   \<and> api_bytes sample_codec 2 sample_bytes = Inl LoginRequired"
proof -
  have "cr_expires_at sample_credential = 2" by (simp add: sample_credential_def)
  then show ?thesis
    using api_reads_what_auth_loads [OF save_load_bytes [OF sample_codec_ok sample_saves]]
    by (simp add: credential_version_def)
qed

text \<open>
  The strings of a credential that are valid UTF-8, and encoders that write valid UTF-8 as
  \<open>time.Time\<close> and base64 do. On other strings the library's encoder writes U+FFFD in place of
  the invalid bytes, which the model keeps.
\<close>

definition utf8_credential :: "credential \<Rightarrow> bool" where
  "utf8_credential c \<longleftrightarrow> valid_utf8 (cr_token c) \<and> valid_utf8 (cr_refresh_token c) \<and> valid_utf8 (cr_user_id c)
     \<and> valid_utf8 (cr_client_id c) \<and> valid_utf8 (cr_device_id c) \<and> valid_utf8 (cr_machine_id c)"

definition utf8_codec :: "codec \<Rightarrow> bool" where
  "utf8_codec co \<longleftrightarrow> (\<forall>t s. co_time_text co t = Some s \<longrightarrow> valid_utf8 s)
     \<and> (\<forall>k der. co_pkcs8 co k = Some der \<longrightarrow> valid_utf8 (co_base64 co der))"

lemma valid_utf8_stored_names: "k \<in> set stored_names \<Longrightarrow> valid_utf8 k"
proof -
  have "list_all (\<lambda>k. list_all (\<lambda>c. (of_char c :: nat) < 128) k) stored_names" by code_simp
  then show "k \<in> set stored_names \<Longrightarrow> valid_utf8 k" by (auto simp: list_all_iff intro: valid_utf8_ascii)
qed

lemma valid_utf8_encode:
  assumes "utf8_codec co" "utf8_credential c" "valid_utf8 key" "encode_stored co c key = Some data"
  shows "valid_utf8 data"
proof -
  obtain te tr where t: "co_time_text co (cr_expires_at c) = Some te" "co_time_text co (cr_refresh_expires_at c) = Some tr"
    using assms(4) by (auto simp: encode_stored_def obind_def split: option.splits)
  have tv: "valid_utf8 te" "valid_utf8 tr" using assms(1) t unfolding utf8_codec_def by blast+
  have one: "valid_utf8 (show_int credential_version)" "valid_utf8 ''true''" "valid_utf8 ''false''"
    unfolding raw_consts(4) by (rule valid_utf8_ascii; auto)+
  have q: "valid_utf8 (quote_str (cr_token c))" "valid_utf8 (quote_str (cr_refresh_token c))"
    "valid_utf8 (quote_str (cr_user_id c))" "valid_utf8 (quote_str (cr_client_id c))"
    "valid_utf8 (quote_str (cr_device_id c))" "valid_utf8 (quote_str (cr_machine_id c))" "valid_utf8 (quote_str key)"
    using assms(2,3) by (auto simp: utf8_credential_def intro: valid_utf8_quote)
  define ms where "ms = [(''token'', quote_str (cr_token c)), (''refresh_token'', quote_str (cr_refresh_token c)),
         (''user_id'', quote_str (cr_user_id c)), (''client_id'', quote_str (cr_client_id c)),
         (''expires_at'', te), (''refresh_expires_at'', tr),
         (''refresh_pending'', if cr_refresh_pending c then ''true'' else ''false''),
         (''device_id'', quote_str (cr_device_id c)), (''machine_id'', quote_str (cr_machine_id c)),
         (''version'', show_int credential_version), (''device_private_key'', quote_str key)]"
  have d: "data = raw_obj ms" using assms(4) by (simp add: encode_stored_def obind_def t ms_def)
  have k: "map fst ms = stored_names" by (simp add: ms_def stored_names_def)
  have v: "list_all valid_utf8 (map snd ms)" using q tv one by (simp add: ms_def)
  have "valid_utf8 n \<and> valid_utf8 x" if "(n, x) \<in> set ms" for n x
  proof -
    have "n \<in> set (map fst ms)" "x \<in> set (map snd ms)" using that by force+
    then show ?thesis using valid_utf8_stored_names v unfolding k list_all_iff by blast
  qed
  then show ?thesis unfolding d by (rule valid_utf8_raw_obj)
qed

lemma valid_utf8_save:
  assumes "utf8_codec co" "utf8_credential c" "save_bytes co c = Inr data"
  shows "valid_utf8 data"
proof -
  obtain k der where k: "co_pkcs8 co k = Some der" "encode_stored co c (co_base64 co der) = Some data"
    using assms(3) by (auto simp: save_bytes_def split: option.splits if_splits)
  then have "valid_utf8 (co_base64 co der)" using assms(1) unfolding utf8_codec_def by blast
  then show ?thesis using valid_utf8_encode [OF assms(1,2) _ k(2)] by blast
qed

text \<open>
  C17. A credential that \<open>Save\<close> accepts and whose strings are valid UTF-8 survives the disk: its
  bytes, quoted members and times among them, are valid UTF-8 again, so that no reader replaces
  anything in them, and they load to the same credential, key included.
\<close>

theorem credential_roundtrip:
  assumes "codec_ok co" "utf8_codec co" "utf8_credential c" "save_bytes co c = Inr data"
  shows "load_bytes co data = Inr c \<and> valid_utf8 data"
  using save_load_bytes [OF assms(1,4)] valid_utf8_save [OF assms(2-4)] by blast

lemma sample_utf8: "utf8_codec sample_codec" "utf8_credential sample_credential"
proof -
  have x: "valid_utf8 (replicate n (CHR ''x''))" for n by (rule valid_utf8_ascii) (auto split: if_splits)
  have "valid_utf8 (CHR ''p'' # replicate n (CHR ''x''))" "valid_utf8 (CHR ''q'' # replicate n (CHR ''x''))" for n
    by (rule valid_utf8_ascii; auto split: if_splits)+
  then show "utf8_codec sample_codec" using valid_utf8_quote [OF x]
    by (auto simp: utf8_codec_def sample_codec_def split: if_splits)
  show "utf8_credential sample_credential" unfolding utf8_credential_def
    by (intro conjI valid_utf8_ascii) (auto simp: sample_credential_def)
qed

theorem credential_roundtrip_witness:
  "load_bytes sample_codec sample_bytes = Inr sample_credential \<and> valid_utf8 sample_bytes"
  by (rule credential_roundtrip [OF sample_codec_ok sample_utf8 sample_saves])

end
