(* ===== verification/CredStoreCorrect.thy ===== *)
theory CredStoreCorrect
  imports CredStore CredentialCorrect
begin

text \<open>
  What the credential store promises: the file at its path is at every moment the old one or
  the new one in full, errors say which, and a rejected credential is moved, never lost. The
  proofs use triples over actions: a condition on the files before, one on the result and the
  files after, and one that holds in every state in between.
\<close>

section \<open>Triples\<close>

definition triple ::
  "(files \<Rightarrow> bool) \<Rightarrow> (files \<Rightarrow> bool) \<Rightarrow> 'a act \<Rightarrow> ('a res \<Rightarrow> files \<Rightarrow> bool) \<Rightarrow> bool" where
  "triple I P m Q \<longleftrightarrow> (\<forall>d. P (ds_files d) \<longrightarrow>
     Q (snd (m d)) (ds_files (fst (m d))) \<and> ds_owner (fst (m d)) = ds_owner d \<and>
     (\<exists>h. ds_history (fst (m d)) = ds_history d @ h \<and> (\<forall>fs \<in> set h. I fs)))"

named_theorems triples \<open>rules for the actions\<close>

lemma tripleD:
  assumes "triple I P m Q" "P (ds_files d)" "m d = (d', r)"
  shows "Q r (ds_files d')" "ds_owner d' = ds_owner d"
    "\<exists>h. ds_history d' = ds_history d @ h \<and> (\<forall>fs \<in> set h. I fs)"
  using assms unfolding triple_def by (metis fst_conv snd_conv)+

lemma tripleI:
  assumes "\<And>d d' r. P (ds_files d) \<Longrightarrow> m d = (d', r) \<Longrightarrow>
     Q r (ds_files d') \<and> ds_owner d' = ds_owner d \<and> (\<exists>h. ds_history d' = ds_history d @ h \<and> (\<forall>fs \<in> set h. I fs))"
  shows "triple I P m Q"
  unfolding triple_def using assms by (metis prod.collapse)

lemma tick_simps [simp]:
  "ds_files (tick fs d) = fs" "ds_owner (tick fs d) = ds_owner d"
  "ds_history (tick fs d) = ds_history d @ [fs]" "ds_calls (tick fs d) = Suc (ds_calls d)"
  by (simp_all add: tick_def)

lemma triple_abind:
  assumes m: "triple I P m R" and f: "\<And>x. triple I (R (Inr x)) (f x) Q"
    and e: "\<And>e fs. R (Inl e) fs \<Longrightarrow> Q (Inl e) fs"
  shows "triple I P (abind m f) Q"
proof (rule tripleI)
  fix d d' r assume P: "P (ds_files d)" and run: "abind m f d = (d', r)"
  obtain d1 r1 where r1: "m d = (d1, r1)" by fastforce
  note * = tripleD [OF m P r1]
  show "Q r (ds_files d') \<and> ds_owner d' = ds_owner d \<and> (\<exists>h. ds_history d' = ds_history d @ h \<and> (\<forall>fs \<in> set h. I fs))"
  proof (cases r1)
    case (Inl x)
    with run r1 have "d' = d1" "r = Inl x" by (auto simp: abind_def)
    with * e Inl show ?thesis by auto
  next
    case (Inr x)
    with run r1 have "f x d1 = (d', r)" by (auto simp: abind_def)
    from tripleD [OF f, of x, OF _ this] * Inr show ?thesis by auto
  qed
qed

lemma triple_syscall:
  assumes "\<And>fs. P fs \<Longrightarrow> I fs \<and> I (fst (f fs)) \<and> (\<forall>e. Q (Inl e) fs) \<and> Q (snd (f fs)) (fst (f fs))"
  shows "triple I P (syscall os f) Q"
proof (rule tripleI)
  fix d d' r assume P: "P (ds_files d)" and run: "syscall os f d = (d', r)"
  obtain fs r' where f: "f (ds_files d) = (fs, r')" by fastforce
  from assms [OF P] run show "Q r (ds_files d') \<and> ds_owner d' = ds_owner d \<and>
      (\<exists>h. ds_history d' = ds_history d @ h \<and> (\<forall>fs \<in> set h. I fs))"
    by (auto simp: syscall_def f split: option.splits)
qed

lemma triple_return: "(\<And>fs. P fs \<Longrightarrow> Q r fs) \<Longrightarrow> triple I P (areturn r) Q"
  by (auto simp: triple_def areturn_def)

lemma triple_map_err:
  assumes "triple I P m (\<lambda>r fs. Q (case r of Inl e \<Rightarrow> Inl (f e) | Inr x \<Rightarrow> Inr x) fs)"
  shows "triple I P (map_err f m) Q"
proof (rule tripleI)
  fix d d' r assume P: "P (ds_files d)" and run: "map_err f m d = (d', r)"
  obtain d1 r1 where r1: "m d = (d1, r1)" by fastforce
  with run have "d' = d1" "r = (case r1 of Inl e \<Rightarrow> Inl (f e) | Inr x \<Rightarrow> Inr x)"
    by (auto simp: map_err_def split: sum.splits)
  with tripleD [OF assms P r1]
  show "Q r (ds_files d') \<and> ds_owner d' = ds_owner d \<and> (\<exists>h. ds_history d' = ds_history d @ h \<and> (\<forall>fs \<in> set h. I fs))"
    by simp
qed

lemma triple_conseq:
  assumes "triple I P m Q" "\<And>fs. P' fs \<Longrightarrow> P fs" "\<And>r fs. Q r fs \<Longrightarrow> Q' r fs"
  shows "triple I P' m Q'"
  using assms unfolding triple_def by blast

text \<open>An action that may look at the whole state, such as the random part of a name.\<close>

lemma triple_state: "(\<And>d0. triple I P (m d0) Q) \<Longrightarrow> triple I P (\<lambda>d. m d d) Q"
  unfolding triple_def by blast

section \<open>Reading changes nothing\<close>

definition quiet :: "'a act \<Rightarrow> bool" where
  "quiet m \<longleftrightarrow> (\<forall>fs0. triple (\<lambda>fs. fs = fs0) (\<lambda>fs. fs = fs0) m (\<lambda>r fs. fs = fs0))"

lemma quiet_abind: "quiet m \<Longrightarrow> (\<And>x. quiet (f x)) \<Longrightarrow> quiet (abind m f)"
  unfolding quiet_def by (blast intro: triple_abind)

lemma quiet_return: "quiet (areturn r)"
  by (simp add: quiet_def triple_return)

lemma quiet_map_err: "quiet m \<Longrightarrow> quiet (map_err f m)"
  unfolding quiet_def by (blast intro: triple_map_err)

lemma quiet_sys:
  "quiet (sys_lstat os p)" "quiet (sys_open os p)" "quiet (sys_fd os x)"
  by (simp_all add: quiet_def sys_lstat_def sys_open_def sys_fd_def triple_syscall)

lemma quiet_check: "quiet (checked_credential_dir os dir False)"
proof -
  have "quiet (abind (map_err (Wrap ''credential directory unavailable: '') (sys_lstat os dir))
      (\<lambda>n. areturn (if n = Directory mode_dir then Inr ()
          else Inl (ErrMsg ''credential directory is not a private regular directory (0700)''))))"
    by (intro quiet_abind quiet_map_err quiet_sys quiet_return)
  moreover have "checked_credential_dir os dir False = abind
      (map_err (Wrap ''credential directory unavailable: '') (sys_lstat os dir))
      (\<lambda>n. areturn (if n = Directory mode_dir then Inr ()
          else Inl (ErrMsg ''credential directory is not a private regular directory (0700)'')))"
    by (simp add: fun_eq_iff checked_credential_dir_def abind_def map_err_def areturn_def
        split: prod.split sum.split)
  ultimately show ?thesis by simp
qed

lemma quiet_read: "quiet (read_credential_file os p)"
  unfolding read_credential_file_def
  by (intro quiet_abind quiet_check quiet_sys)
    (auto intro!: quiet_abind quiet_sys quiet_return split: node.split)

lemma quiet_load: "quiet (load os co p)"
  unfolding load_def by (intro quiet_abind quiet_read quiet_return)

lemma quiet_check_existing: "quiet (check_existing os co p)"
  using quiet_load [of os co p] unfolding quiet_def triple_def check_existing_def
  by (auto split: prod.splits sum.splits) (metis fst_conv snd_conv)+

lemma quiet_triple:
  assumes "quiet m" "\<And>fs. P fs \<Longrightarrow> I fs"
  shows "triple I P m (\<lambda>r fs. P fs)"
proof (rule tripleI)
  fix d d' r assume P: "P (ds_files d)" and run: "m d = (d', r)"
  note * = tripleD [OF assms(1) [unfolded quiet_def, THEN spec, of "ds_files d"] refl run]
  then show "P (ds_files d') \<and> ds_owner d' = ds_owner d \<and>
      (\<exists>h. ds_history d' = ds_history d @ h \<and> (\<forall>fs \<in> set h. I fs))"
    using P assms(2) by auto
qed

section \<open>Saving\<close>

definition store_ok :: "store \<Rightarrow> bool" where
  "store_ok st \<longleftrightarrow> (\<exists>dir. st_path st = dir @ ''/trae-api/auth.json'')"

definition is_temp :: "string \<Rightarrow> string \<Rightarrow> bool" where
  "is_temp p q \<longleftrightarrow> (\<exists>x. q = path_dir p @ ''/.auth-'' @ x)"

definition others_kept :: "string \<Rightarrow> files \<Rightarrow> files \<Rightarrow> bool" where
  "others_kept p old fs \<longleftrightarrow> (\<forall>q. q \<noteq> p \<longrightarrow> \<not> is_temp p q \<longrightarrow> fs q = old q)"

definition snapshot :: "string \<Rightarrow> node" where
  "snapshot data = Regular mode_file data"

definition published_error :: "gerror \<Rightarrow> bool" where
  "published_error e \<longleftrightarrow> (\<exists>w. e = Wrap ''credential published but directory sync unavailable: '' w
     \<or> e = Wrap ''credential published but directory sync failed: '' w)"

lemma path_dir_auth: "path_dir (dir @ ''/trae-api/auth.json'') = dir @ ''/trae-api''"
  by (simp add: path_dir_def)

lemma temp_not_path: "store_ok st \<Longrightarrow> is_temp (st_path st) q \<Longrightarrow> q \<noteq> st_path st"
  by (auto simp: store_ok_def is_temp_def path_dir_auth)

text \<open>The state of the file while the temporary one is written, and at the end.\<close>

definition writing :: "string \<Rightarrow> files \<Rightarrow> string \<Rightarrow> string \<Rightarrow> files \<Rightarrow> bool" where
  "writing p old temp s fs \<longleftrightarrow> others_kept p old fs \<and> fs p = old p \<and> fs temp = Some (snapshot s)"

definition old_or_new :: "string \<Rightarrow> files \<Rightarrow> string \<Rightarrow> files \<Rightarrow> bool" where
  "old_or_new p old data fs \<longleftrightarrow> others_kept p old fs \<and> (fs p = old p \<or> fs p = Some (snapshot data))"

definition saved :: "string \<Rightarrow> files \<Rightarrow> string \<Rightarrow> 'a res \<Rightarrow> files \<Rightarrow> bool" where
  "saved p old data r fs \<longleftrightarrow> others_kept p old fs \<and>
     (case r of Inr _ \<Rightarrow> fs p = Some (snapshot data)
      | Inl e \<Rightarrow> fs p = old p \<or> fs p = Some (snapshot data) \<and> published_error e)"

lemma others_kept_temp: "is_temp p q \<Longrightarrow> others_kept p old fs \<Longrightarrow> others_kept p old (fs(q := x))"
  by (auto simp: others_kept_def)

lemma others_kept_path: "others_kept p old fs \<Longrightarrow> others_kept p old (fs(p := x))"
  by (auto simp: others_kept_def)

definition either :: "(files \<Rightarrow> bool) \<Rightarrow> (files \<Rightarrow> bool) \<Rightarrow> 'a res \<Rightarrow> files \<Rightarrow> bool" where
  "either P E r fs = (case r of Inr _ \<Rightarrow> P fs | Inl _ \<Rightarrow> E fs)"

lemma either_simps [simp]: "either P E (Inr x) fs = P fs" "either P E (Inl e) fs = E fs"
  by (simp_all add: either_def)

lemma triple_seq:
  fixes m :: "'a act"
  assumes "triple I P m (either P' E)" "\<And>x. triple I P' (f x) Q" "\<And>e fs. E fs \<Longrightarrow> Q (Inl e) fs"
  shows "triple I P (abind m f) Q"
proof (rule triple_abind [OF assms(1)])
  fix x :: 'a have "either P' E (Inr x) = P'" by (rule ext) simp
  then show "triple I (either P' E (Inr x)) (f x) Q" using assms(2) by simp
qed (simp add: assms(3))

lemma writing_facts:
  "writing p old temp s fs \<Longrightarrow> old_or_new p old data fs \<and> others_kept p old fs \<and> fs p = old p"
  by (simp add: writing_def old_or_new_def)

definition untouched :: "string \<Rightarrow> files \<Rightarrow> files \<Rightarrow> bool" where
  "untouched p old fs \<longleftrightarrow> others_kept p old fs \<and> fs p = old p"

lemma writing_untouched: "writing p old temp s fs \<Longrightarrow> untouched p old fs"
  by (simp add: writing_def untouched_def)

lemma untouched_old_or_new: "untouched p old fs \<Longrightarrow> old_or_new p old data fs"
  by (simp add: untouched_def old_or_new_def)

lemma chmod_triple:
  "triple (old_or_new p old data) (writing p old temp []) (sys_chmod os temp mode_file)
     (either (writing p old temp []) (untouched p old))"
  unfolding sys_chmod_def
proof (rule triple_syscall)
  fix fs assume W: "writing p old temp [] fs"
  then have "fs temp = Some (Regular mode_file [])" by (simp add: writing_def snapshot_def)
  then have eq: "(case fs temp of Some (Regular m s) \<Rightarrow> (fs(temp \<mapsto> Regular mode_file s), Inr ()) | _ \<Rightarrow> (fs, Inr ()))
      = (fs, Inr ())" by (simp add: fun_upd_idem)
  show "old_or_new p old data fs \<and>
      old_or_new p old data (fst (case fs temp of Some (Regular m s) \<Rightarrow> (fs(temp \<mapsto> Regular mode_file s), Inr ())
         | _ \<Rightarrow> (fs, Inr ()))) \<and>
      (\<forall>e. either (writing p old temp []) (untouched p old) (Inl e) fs) \<and>
      either (writing p old temp []) (untouched p old)
        (snd (case fs temp of Some (Regular m s) \<Rightarrow> (fs(temp \<mapsto> Regular mode_file s), Inr ()) | _ \<Rightarrow> (fs, Inr ())))
        (fst (case fs temp of Some (Regular m s) \<Rightarrow> (fs(temp \<mapsto> Regular mode_file s), Inr ()) | _ \<Rightarrow> (fs, Inr ())))"
    unfolding eq using W writing_untouched [OF W] untouched_old_or_new by simp
qed

lemma put_text_writing:
  assumes "is_temp p temp" "temp \<noteq> p" "writing p old temp t fs"
  shows "writing p old temp (t @ u) (put_text temp u fs)"
  using assms by (simp add: put_text_def writing_def snapshot_def others_kept_temp)

lemma write_triple:
  assumes tp: "is_temp p temp" "temp \<noteq> p"
  shows "triple (old_or_new p old data) (writing p old temp []) (sys_write os temp data)
     (either (writing p old temp data) (untouched p old))"
proof (rule tripleI)
  fix d d' r assume P: "writing p old temp [] (ds_files d)" and run: "sys_write os temp data d = (d', r)"
  from put_text_writing [OF tp P] have w: "writing p old temp u (put_text temp u (ds_files d))" for u by simp
  then have "untouched p old (put_text temp u (ds_files d))"
    "old_or_new p old data (put_text temp u (ds_files d))" for u
    using writing_untouched untouched_old_or_new by blast+
  with run w show "either (writing p old temp data) (untouched p old) r (ds_files d') \<and> ds_owner d' = ds_owner d \<and>
      (\<exists>h. ds_history d' = ds_history d @ h \<and> (\<forall>fs \<in> set h. old_or_new p old data fs))"
    by (cases "os_fail os (ds_calls d)") (auto simp: sys_write_def)
qed

lemma fd_triple:
  "triple (old_or_new p old data) (writing p old temp data) (sys_fd os ())
     (either (writing p old temp data) (untouched p old))"
  unfolding sys_fd_def
  by (rule triple_syscall) (simp add: writing_untouched untouched_old_or_new)

definition replaced :: "string \<Rightarrow> files \<Rightarrow> string \<Rightarrow> files \<Rightarrow> bool" where
  "replaced p old data fs \<longleftrightarrow> others_kept p old fs \<and> fs p = Some (snapshot data)"

lemma rename_triple:
  assumes tp: "is_temp p temp" "temp \<noteq> p"
  shows "triple (old_or_new p old data) (writing p old temp data) (sys_rename os temp p)
     (either (replaced p old data) (untouched p old))"
  unfolding sys_rename_def
proof (rule triple_syscall)
  fix fs assume W: "writing p old temp data fs"
  define res where "res = (case fs temp of None \<Rightarrow> (fs, Inl ErrNotExist)
     | Some n \<Rightarrow> (case fs p of Some (Directory m) \<Rightarrow> (fs, Inl err_exist)
         | _ \<Rightarrow> (fs(temp := None, p \<mapsto> n), Inr ())))"
  have "others_kept p old (fs(temp := None, p \<mapsto> snapshot data))"
    using W tp by (intro others_kept_path others_kept_temp) (simp_all add: writing_def)
  then have new: "replaced p old data (fs(temp := None, p \<mapsto> snapshot data))"
    "old_or_new p old data (fs(temp := None, p \<mapsto> snapshot data))"
    by (simp_all add: replaced_def old_or_new_def)
  have "fs temp = Some (snapshot data)" using W by (simp add: writing_def)
  then have "res = (fs, Inl err_exist) \<or> res = (fs(temp := None, p \<mapsto> snapshot data), Inr ())"
    unfolding res_def by (cases "fs p") (auto split: node.split)
  then show "old_or_new p old data fs \<and> old_or_new p old data (fst res) \<and>
      (\<forall>e. either (replaced p old data) (untouched p old) (Inl e) fs) \<and>
      either (replaced p old data) (untouched p old) (snd res) (fst res)"
    using new writing_untouched [OF W] untouched_old_or_new by (elim disjE) simp_all
qed

lemma publish_triple:
  assumes tp: "is_temp p temp" "temp \<noteq> p"
  shows "triple (old_or_new p old data) (writing p old temp []) (publish os p temp data)
    (either (replaced p old data) (untouched p old))"
  unfolding publish_def
  by (rule triple_seq [OF chmod_triple], rule triple_seq [OF write_triple [OF tp]],
      rule triple_seq [OF fd_triple], rule triple_seq [OF fd_triple], rule rename_triple [OF tp]) simp_all

lemma sync_dir_triple:
  "triple (old_or_new p old data) (replaced p old data) (sync_dir os ''credential published'' dir)
    (saved p old data)"
proof -
  have q: "triple (old_or_new p old data) (replaced p old data) m (\<lambda>r fs. replaced p old data fs)"
    if "quiet m" for m :: "'z act"
    using that by (rule quiet_triple) (simp add: replaced_def old_or_new_def)
  have s: "saved p old data (Inl e) fs" if "replaced p old data fs" "published_error e" for fs e
    using that by (simp add: saved_def replaced_def)
  have e: "published_error (Wrap (''credential published'' @ '' but directory sync unavailable: '') w)"
    "published_error (Wrap (''credential published'' @ '' but directory sync failed: '') w)" for w
    by (auto simp: published_error_def)
  have 1: "triple (old_or_new p old data) (replaced p old data)
      (map_err (Wrap (''credential published'' @ '' but directory sync unavailable: '')) (sys_open os dir))
      (\<lambda>r fs. replaced p old data fs \<and> (\<forall>e. r = Inl e \<longrightarrow> published_error e))"
    by (rule triple_map_err, rule triple_conseq [OF q [OF quiet_sys(2)]])
      (auto simp del: append.simps append_Cons split: sum.splits intro: e)
  have 2: "triple (old_or_new p old data) (replaced p old data)
      (map_err (Wrap (''credential published'' @ '' but directory sync failed: '')) (sys_fd os ()))
      (saved p old data)"
    by (rule triple_map_err, rule triple_conseq [OF q [OF quiet_sys(3)]])
      (auto simp del: append.simps append_Cons split: sum.splits intro: e s simp: saved_def replaced_def)
  show ?thesis
    unfolding sync_dir_def
    by (rule triple_abind [OF 1], rule triple_conseq [OF 2]) (auto intro: s)
qed

lemma remove_triple:
  assumes tp: "is_temp p temp" "temp \<noteq> p"
    and m: "triple (old_or_new p old data) P m (saved p old data)"
  shows "triple (old_or_new p old data) P (finally_remove os temp m) (saved p old data)"
proof (rule tripleI)
  fix d d' r assume P: "P (ds_files d)" and run: "finally_remove os temp m d = (d', r)"
  obtain d1 where d1: "m d = (d1, r)" and rm: "fst (sys_remove os temp d1) = d'"
    using run by (auto simp: finally_remove_def split: prod.splits)
  note * = tripleD [OF m P d1]
  have oon: "old_or_new p old data fs" if "saved p old data r fs" for fs
    using that by (auto simp: saved_def old_or_new_def split: sum.splits)
  have gone: "saved p old data r ((ds_files d1)(temp := None))"
    using *(1) tp by (auto simp: saved_def others_kept_temp split: sum.splits)
  have "triple (old_or_new p old data) (\<lambda>fs. saved p old data r fs \<and> saved p old data r (fs(temp := None)))
      (sys_remove os temp) (\<lambda>_ fs. saved p old data r fs)"
    unfolding sys_remove_def by (rule triple_syscall) (auto simp: oon split: option.split)
  from tripleD [OF this, of d1 d' "snd (sys_remove os temp d1)"] gone * rm
  show "saved p old data r (ds_files d') \<and> ds_owner d' = ds_owner d \<and>
      (\<exists>h. ds_history d' = ds_history d @ h \<and> (\<forall>fs \<in> set h. old_or_new p old data fs))"
    by (force simp: prod_eq_iff)
qed

lemma create_temp_triple:
  assumes "store_ok st" "p = st_path st"
  shows "triple (old_or_new p old data) (\<lambda>fs. fs = old) (sys_create_temp os (path_dir p))
    (\<lambda>r fs. case r of Inr temp \<Rightarrow> is_temp p temp \<and> temp \<noteq> p \<and> writing p old temp [] fs
             | Inl e \<Rightarrow> untouched p old fs)"
  unfolding sys_create_temp_def Let_def
proof (rule triple_state, rule triple_syscall)
  fix d0 fs assume fs: "fs = old"
  let ?temp = "path_dir p @ ''/.auth-'' @ os_random os (ds_calls d0)"
  have t: "is_temp p ?temp" by (auto simp: is_temp_def)
  have n: "?temp \<noteq> p" using temp_not_path assms t by blast
  have o: "others_kept p old old" by (simp add: others_kept_def)
  have "writing p old ?temp [] (old(?temp \<mapsto> Regular mode_file []))"
    using others_kept_temp [OF t o] n by (simp add: writing_def snapshot_def)
  moreover have "untouched p old old" using o by (simp add: untouched_def)
  moreover note untouched_old_or_new writing_facts
  ultimately show "old_or_new p old data fs \<and>
      old_or_new p old data (fst (if fs ?temp = None then (fs(?temp \<mapsto> Regular mode_file []), Inr ?temp)
        else (fs, Inl err_exist))) \<and>
      (\<forall>e. case Inl e of Inl e \<Rightarrow> untouched p old fs
         | Inr temp \<Rightarrow> is_temp p temp \<and> temp \<noteq> p \<and> writing p old temp [] fs) \<and>
      (case snd (if fs ?temp = None then (fs(?temp \<mapsto> Regular mode_file []), Inr ?temp) else (fs, Inl err_exist)) of
         Inl e \<Rightarrow> untouched p old
            (fst (if fs ?temp = None then (fs(?temp \<mapsto> Regular mode_file []), Inr ?temp) else (fs, Inl err_exist)))
       | Inr temp \<Rightarrow> is_temp p temp \<and> temp \<noteq> p \<and> writing p old temp []
            (fst (if fs ?temp = None then (fs(?temp \<mapsto> Regular mode_file []), Inr ?temp) else (fs, Inl err_exist))))"
    unfolding fs using t n by auto
qed

lemma save_triple:
  assumes st: "store_ok st" and data: "save_bytes co c = Inr data"
  shows "triple (old_or_new (st_path st) old data) (\<lambda>fs. fs = old) (save os co st c) (saved (st_path st) old data)"
proof -
  let ?p = "st_path st"
  have q: "triple (old_or_new ?p old data) (\<lambda>fs. fs = old) m (\<lambda>r fs. fs = old)" if "quiet m" for m :: "'z act"
    using that by (rule quiet_triple) (simp add: old_or_new_def others_kept_def)
  have e: "saved ?p old data (Inl e) old" for e by (simp add: saved_def others_kept_def)
  have u: "saved ?p old data (Inl e) fs" if "untouched ?p old fs" for e fs
    using that by (simp add: saved_def untouched_def)
  have body: "triple (old_or_new ?p old data) (\<lambda>fs. is_temp ?p temp \<and> temp \<noteq> ?p \<and> writing ?p old temp [] fs)
      (finally_remove os temp (abind (publish os ?p temp data) (\<lambda>_. sync_dir os ''credential published'' (path_dir ?p))))
      (saved ?p old data)" for temp
  proof (cases "is_temp ?p temp \<and> temp \<noteq> ?p")
    case True
    then show ?thesis
      by (intro triple_conseq [OF remove_triple [OF _ _ triple_seq [OF publish_triple sync_dir_triple]]])
        (auto intro: u)
  next
    case False
    then show ?thesis unfolding triple_def by blast
  qed
  show ?thesis
  proof (cases "st_open st")
    case True
    have "triple (old_or_new ?p old data) (\<lambda>fs. fs = old)
       (abind (checked_credential_dir os (path_dir ?p) False) (\<lambda>_.
        abind (check_existing os co ?p) (\<lambda>_.
        abind (sys_create_temp os (path_dir ?p)) (\<lambda>temp.
          finally_remove os temp (abind (publish os ?p temp data)
            (\<lambda>_. sync_dir os ''credential published'' (path_dir ?p))))))) (saved ?p old data)"
      by (rule triple_abind [OF q [OF quiet_check]], rule triple_abind [OF q [OF quiet_check_existing]],
          rule triple_abind [OF create_temp_triple [OF st refl]])
        (auto intro: e u triple_conseq [OF body])
    then show ?thesis using True data by (simp add: save_def)
  next
    case False
    then show ?thesis unfolding save_def using e by (auto intro: triple_return)
  qed
qed

text \<open>
  C18. A save is atomic. In every state of the file system between the start and the end of a
  \<open>Save\<close>, whatever calls fail, the credential file is the old one or the complete new one,
  and no file is touched but it and the temporary ones. A save without error has replaced the
  file; a save with an error has left it, unless the error says that the new file is published
  and only its durability unknown. A credential that fails the checks writes nothing.
\<close>

theorem save_atomic:
  assumes "store_ok st" and "save os co st c d = (d', r)"
  shows "case save_bytes co c of
      Inl e \<Rightarrow> d' = d \<and> (\<exists>e. r = Inl e)
    | Inr data \<Rightarrow>
        (\<exists>h. ds_history d' = ds_history d @ h \<and> (\<forall>fs \<in> set (h @ [ds_files d']).
           (fs (st_path st) = ds_files d (st_path st) \<or> fs (st_path st) = Some (snapshot data))
           \<and> (\<forall>q. q \<noteq> st_path st \<longrightarrow> \<not> is_temp (st_path st) q \<longrightarrow> fs q = ds_files d q)))
        \<and> (case r of
             Inr _ \<Rightarrow> ds_files d' (st_path st) = Some (snapshot data)
           | Inl e \<Rightarrow> ds_files d' (st_path st) = ds_files d (st_path st)
               \<or> ds_files d' (st_path st) = Some (snapshot data) \<and> published_error e)"
proof (cases "save_bytes co c")
  case (Inl e)
  then show ?thesis using assms(2) by (auto simp: save_def areturn_def split: if_splits)
next
  case (Inr data)
  note * = tripleD [OF save_triple [OF assms(1) Inr] refl assms(2)]
  have "old_or_new (st_path st) (ds_files d) data (ds_files d')"
    using *(1) by (auto simp: saved_def old_or_new_def split: sum.splits)
  with *(3) have "\<exists>h. ds_history d' = ds_history d @ h
      \<and> (\<forall>fs \<in> set (h @ [ds_files d']). old_or_new (st_path st) (ds_files d) data fs)" by auto
  then have 1: "\<exists>h. ds_history d' = ds_history d @ h \<and> (\<forall>fs \<in> set (h @ [ds_files d']).
           (fs (st_path st) = ds_files d (st_path st) \<or> fs (st_path st) = Some (snapshot data))
           \<and> (\<forall>q. q \<noteq> st_path st \<longrightarrow> \<not> is_temp (st_path st) q \<longrightarrow> fs q = ds_files d q))"
    unfolding old_or_new_def others_kept_def by blast
  have 2: "case r of Inr _ \<Rightarrow> ds_files d' (st_path st) = Some (snapshot data)
     | Inl e \<Rightarrow> ds_files d' (st_path st) = ds_files d (st_path st)
         \<or> ds_files d' (st_path st) = Some (snapshot data) \<and> published_error e"
    using *(1) by (simp add: saved_def split: sum.splits)
  show ?thesis unfolding Inr sum.case using 1 2 by blast
qed

text \<open>A store over an empty private directory, and calls that do not fail.\<close>

definition sample_os :: os_env where
  "sample_os = \<lparr>os_fail = \<lambda>n. None, os_partial = \<lambda>n. 0, os_random = \<lambda>n. ''7''\<rparr>"

definition sample_lock :: lock_id where
  "sample_lock = (''/h/trae-api/auth.json.lock'', 0)"

definition sample_disk :: disk where
  "sample_disk = \<lparr>ds_files = [''/h/trae-api'' \<mapsto> Directory mode_dir], ds_owner = [sample_lock \<mapsto> 0], ds_calls = 0, ds_history = []\<rparr>"

definition sample_store :: store where
  "sample_store = \<lparr>st_path = ''/h/trae-api/auth.json'', st_open = True, st_pid = 0, st_lock = sample_lock\<rparr>"

definition sample_saved :: disk where
  "sample_saved = fst (save sample_os sample_codec sample_store sample_credential sample_disk)"

lemma sample_store_ok: "store_ok sample_store"
  unfolding store_ok_def by (rule exI [of _ "''/h''"]) (simp add: sample_store_def)

lemma sample_save: "save sample_os sample_codec sample_store sample_credential sample_disk = (sample_saved, Inr ())"
proof -
  have "snd (save sample_os sample_codec sample_store sample_credential sample_disk) = Inr ()" by code_simp
  then show ?thesis by (simp add: sample_saved_def prod_eq_iff)
qed

theorem save_atomic_witness:
  "ds_files sample_saved ''/h/trae-api/auth.json'' = Some (snapshot sample_bytes)"
  using save_atomic [OF sample_store_ok sample_save] by (simp add: sample_saves sample_store_def)

section \<open>Reading back\<close>

definition no_faults :: "os_env \<Rightarrow> bool" where
  "no_faults os \<longleftrightarrow> (\<forall>n. os_fail os n = None)"

lemma syscall_ok: "no_faults os \<Longrightarrow> syscall os f d = (tick (fst (f (ds_files d))) d, snd (f (ds_files d)))"
  by (simp add: syscall_def no_faults_def split: prod.split)

lemma checked_dir_ok:
  assumes "no_faults os" "ds_files d dir = Some (Directory mode_dir)"
  shows "\<exists>d'. checked_credential_dir os dir create d = (d', Inr ()) \<and> ds_files d' = ds_files d"
  using assms by (simp add: checked_credential_dir_def sys_lstat_def syscall_ok)

lemma read_file_ok:
  assumes "no_faults os" "ds_files d (path_dir p) = Some (Directory mode_dir)"
    and "ds_files d p = Some (snapshot data)" "length data \<le> size_limit"
  shows "\<exists>d'. read_credential_file os p d = (d', Inr data) \<and> ds_files d' = ds_files d"
proof -
  from checked_dir_ok [OF assms(1,2), of False] obtain d1 where
    d1: "checked_credential_dir os (path_dir p) False d = (d1, Inr ())" "ds_files d1 = ds_files d" by blast
  then show ?thesis
    using assms(1,3,4)
    by (simp add: read_credential_file_def abind_def sys_open_def sys_fd_def syscall_ok snapshot_def areturn_def)
qed

text \<open>A directory that passed the check was private.\<close>

lemma checked_dir_private:
  "checked_credential_dir os dir False d = (d', Inr ()) \<Longrightarrow> ds_files d dir = Some (Directory mode_dir)"
  by (auto simp: checked_credential_dir_def sys_lstat_def syscall_def split: option.splits if_splits)

lemma saved_dir:
  assumes "store_ok st" "save os co st c d = (d', Inr ())"
  shows "ds_files d' (path_dir (st_path st)) = Some (Directory mode_dir)"
proof -
  obtain data where data: "save_bytes co c = Inr data" and op: "st_open st"
    using assms(2) by (auto simp: save_def areturn_def split: if_splits sum.splits)
  obtain d1 where "checked_credential_dir os (path_dir (st_path st)) False d = (d1, Inr ())"
    using assms(2) op data by (auto simp: save_def abind_def split: prod.splits sum.splits)
  then have "ds_files d (path_dir (st_path st)) = Some (Directory mode_dir)" by (rule checked_dir_private)
  moreover have "others_kept (st_path st) (ds_files d) (ds_files d')"
    using tripleD(1) [OF save_triple [OF assms(1) data] refl assms(2)] by (simp add: saved_def)
  moreover have "path_dir (st_path st) \<noteq> st_path st" "\<not> is_temp (st_path st) (path_dir (st_path st))"
    using assms(1) by (auto simp: store_ok_def is_temp_def path_dir_auth)
  ultimately show ?thesis by (simp add: others_kept_def)
qed

text \<open>
  C19. What Auth saves, Auth loads and the API reads: after a save without error and as long
  as the calls succeed, \<open>Load\<close> returns the very credential and \<open>readAPICredential\<close> its
  access part until it expires. (The bytes have to fit the reader's limit of 1 MiB, which
  \<open>Save\<close> does not check.)
\<close>

theorem save_then_read:
  assumes "codec_ok co" "credential_path (Inr dir) = Inr (st_path st)"
    and "save os co st c d = (d', Inr ())" "save_bytes co c = Inr data" "length data \<le> size_limit"
    and "no_faults os'"
  shows "snd (load os' co (st_path st) d') = Inr c \<and>
    snd (read_api_credential os' co (Inr dir) now d') =
      (if now < cr_expires_at c then Inr (api_view credential_version c) else Inl LoginRequired)"
proof -
  have "st_path st = dir @ ''/trae-api/auth.json''"
    using assms(2) by (simp add: credential_path_def split: if_splits)
  then have st: "store_ok st" unfolding store_ok_def by blast
  have new: "ds_files d' (st_path st) = Some (snapshot data)"
    using tripleD(1) [OF save_triple [OF st assms(4)] refl assms(3)] by (simp add: saved_def)
  note lb = save_load_bytes [OF assms(1,4)]
  from read_file_ok [OF assms(6) saved_dir [OF st assms(3)] new assms(5)] obtain d2 where
    d2: "read_credential_file os' (st_path st) d' = (d2, Inr data)" by blast
  have "snd (load os' co (st_path st) d') = Inr c"
    by (simp add: load_def abind_def d2 areturn_def lb)
  moreover have "snd (read_api_credential os' co (Inr dir) now d') =
      (if now < cr_expires_at c then Inr (api_view credential_version c) else Inl LoginRequired)"
    by (simp add: read_api_credential_def assms(2) d2 api_bytes_loaded [OF lb])
  ultimately show ?thesis by simp
qed

lemma sample_no_faults: "no_faults sample_os"
  by (simp add: no_faults_def sample_os_def)

lemma sample_path: "credential_path (Inr ''/h'') = Inr (st_path sample_store)"
  by (simp add: credential_path_def sample_store_def)

lemma sample_size: "length sample_bytes \<le> size_limit"
  by code_simp

theorem save_then_read_witness:
  "snd (load sample_os sample_codec (st_path sample_store) sample_saved) = Inr sample_credential \<and>
   snd (read_api_credential sample_os sample_codec (Inr ''/h'') 1 sample_saved) = Inr (api_view 1 sample_credential)"
  using save_then_read [OF sample_codec_ok sample_path sample_save sample_saves sample_size sample_no_faults, of 1]
  by (simp add: sample_credential_def credential_version_def)

end
