(* ===== verification/CredQuarantine.thy ===== *)
theory CredQuarantine
  imports CredStoreCorrect
begin

text \<open>
  What \<open>QuarantineRejected\<close> of \<open>credential_store.go\<close> promises, and what opening, closing and using a
  store does to the owners of locks; \<open>WriterLock\<close> builds on it.
\<close>

section \<open>Quarantine\<close>

definition is_quarantine :: "string \<Rightarrow> string \<Rightarrow> bool" where
  "is_quarantine p q \<longleftrightarrow> (\<exists>x. q = p @ ''.rejected-'' @ x)"

text \<open>The file is at its path or, the same node, under the quarantine name.\<close>

definition kept_or_moved :: "string \<Rightarrow> files \<Rightarrow> files \<Rightarrow> bool" where
  "kept_or_moved p old fs \<longleftrightarrow> fs = old \<or>
     (\<exists>q. is_quarantine p q \<and> old q = None \<and> old p \<noteq> None \<and> fs = old(p := None, q := old p))"

definition moved :: "string \<Rightarrow> files \<Rightarrow> files \<Rightarrow> bool" where
  "moved p old fs \<longleftrightarrow>
     (\<exists>q. is_quarantine p q \<and> old q = None \<and> old p \<noteq> None \<and> fs = old(p := None, q := old p))"

text \<open>A failing call does not report a missing file: that is an answer, not a failure.\<close>

definition honest :: "os_env \<Rightarrow> bool" where
  "honest os \<longleftrightarrow> (\<forall>n e. os_fail os n = Some e \<longrightarrow> \<not> errors_is e ErrNotExist)"

lemma lstat_result:
  assumes "honest os" "sys_lstat os q d = (d', r)"
  shows "d' = tick (ds_files d) d" "\<And>e. r = Inl e \<Longrightarrow> errors_is e ErrNotExist \<Longrightarrow> ds_files d q = None"
  using assms by (auto simp: sys_lstat_def syscall_def honest_def split: option.splits)

lemma quarantine_move_triple:
  assumes "is_quarantine p q" "old q = None"
  shows "triple (kept_or_moved p old) (\<lambda>fs. fs = old)
    (move_aside os p q) (\<lambda>r fs. kept_or_moved p old fs \<and> (r = Inr () \<longrightarrow> moved p old fs))"
proof -
  let ?w = "''rejected credential quarantined''"
  have ren: "triple (kept_or_moved p old) (\<lambda>fs. fs = old) (sys_rename os p q)
      (either (moved p old) (\<lambda>fs. fs = old))"
    unfolding sys_rename_def
  proof (rule triple_syscall)
    fix fs assume fs: "fs = old"
    define res where "res = (case fs p of None \<Rightarrow> (fs, Inl ErrNotExist)
       | Some n \<Rightarrow> (case fs q of Some (Directory m) \<Rightarrow> (fs, Inl err_exist)
           | _ \<Rightarrow> (fs(p := None, q \<mapsto> n), Inr ())))"
    have "res = (fs, Inl ErrNotExist) \<or> (\<exists>n. old p = Some n \<and> res = (old(p := None, q \<mapsto> n), Inr ()))"
      unfolding res_def fs by (cases "old p") (simp_all add: assms(2))
    then show "kept_or_moved p old fs \<and> kept_or_moved p old (fst res) \<and>
        (\<forall>e. either (moved p old) (\<lambda>fs. fs = old) (Inl e) fs) \<and>
        either (moved p old) (\<lambda>fs. fs = old) (snd res) (fst res)"
    proof
      assume "res = (fs, Inl ErrNotExist)"
      with fs show ?thesis by (simp add: kept_or_moved_def)
    next
      assume "\<exists>n. old p = Some n \<and> res = (old(p := None, q \<mapsto> n), Inr ())"
      then obtain n where n: "old p = Some n" "res = (old(p := None, q \<mapsto> n), Inr ())" by blast
      have "moved p old (old(p := None, q \<mapsto> n))"
        unfolding moved_def using assms n(1) by (intro exI [of _ q]) simp
      then show ?thesis unfolding n(2) using fs by (simp add: kept_or_moved_def moved_def)
    qed
  qed
  have "quiet (sync_dir os ?w (path_dir p))"
    unfolding sync_dir_def by (intro quiet_abind quiet_map_err quiet_sys)
  then have sync: "triple (kept_or_moved p old) (moved p old) (sync_dir os ?w (path_dir p)) (\<lambda>r fs. moved p old fs)"
    by (rule quiet_triple) (auto simp: moved_def kept_or_moved_def)
  show ?thesis
    unfolding move_aside_def
    by (rule triple_seq [OF ren], rule triple_conseq [OF sync]) (auto simp: kept_or_moved_def moved_def)
qed

lemma quarantine_to_triple:
  assumes "honest os" "is_quarantine p q"
  shows "triple (kept_or_moved p old) (\<lambda>fs. fs = old) (quarantine_to os p q)
    (\<lambda>r fs. kept_or_moved p old fs \<and> (r = Inr () \<longrightarrow> moved p old fs))"
proof (rule tripleI)
  fix d d' r assume P: "ds_files d = old" and run: "quarantine_to os p q d = (d', r)"
  obtain d1 r1 where l: "sys_lstat os q d = (d1, r1)" by fastforce
  note * = lstat_result [OF assms(1) l]
  have I0: "kept_or_moved p old old" by (simp add: kept_or_moved_def)
  have d1: "ds_files d1 = old" "ds_owner d1 = ds_owner d" "ds_history d1 = ds_history d @ [old]"
    using *(1) P by simp_all
  consider e where "r1 = Inl e" "errors_is e ErrNotExist" "move_aside os p q d1 = (d', r)"
    | "d' = d1" "\<exists>e. r = Inl e"
  proof (cases r1)
    case (Inl e)
    show ?thesis
    proof (cases "errors_is e ErrNotExist")
      case True
      then show ?thesis using run Inl that(1) [of e] by (simp add: quarantine_to_def l)
    next
      case False
      then have "d' = d1" "r = Inl e" using run Inl by (simp_all add: quarantine_to_def l)
      then show ?thesis using that(2) by simp
    qed
  next
    case (Inr n)
    then show ?thesis using run that unfolding quarantine_to_def l by auto
  qed
  then show "(kept_or_moved p old (ds_files d') \<and> (r = Inr () \<longrightarrow> moved p old (ds_files d')))
      \<and> ds_owner d' = ds_owner d
      \<and> (\<exists>h. ds_history d' = ds_history d @ h \<and> (\<forall>fs \<in> set h. kept_or_moved p old fs))"
  proof cases
    case 1
    have "old q = None" using *(2) [OF 1(1,2)] P by simp
    note t = tripleD [OF quarantine_move_triple [where old = old, OF assms(2) this] d1(1) 1(3)]
    from t(3) obtain h where "ds_history d' = ds_history d @ [old] @ h" "\<forall>fs \<in> set h. kept_or_moved p old fs"
      using d1(3) by auto
    then have "\<exists>h. ds_history d' = ds_history d @ h \<and> (\<forall>fs \<in> set h. kept_or_moved p old fs)"
      using I0 by (intro exI [of _ "[old] @ h"]) simp
    then show ?thesis using t(1,2) d1(2) by simp
  next
    case 2
    then show ?thesis using d1 I0 by (intro conjI exI [of _ "[old]"]) auto
  qed
qed

lemma quiet_files: "quiet m \<Longrightarrow> m d = (d', r) \<Longrightarrow> ds_files d' = ds_files d"
  using tripleD(1) [of "\<lambda>fs. fs = ds_files d" "\<lambda>fs. fs = ds_files d" m "\<lambda>r fs. fs = ds_files d" d d' r]
  by (simp add: quiet_def)

lemma read_file_source:
  assumes "read_credential_file os p d = (d', Inr s)"
  shows "\<exists>m. ds_files d p = Some (Regular m s)"
proof -
  obtain d1 where d1: "checked_credential_dir os (path_dir p) False d = (d1, Inr ())"
    using assms by (auto simp: read_credential_file_def abind_def split: prod.splits sum.splits)
  have "\<exists>m. ds_files d1 p = Some (Regular m s)"
    using assms by (auto simp: read_credential_file_def abind_def d1 sys_open_def sys_fd_def syscall_def areturn_def
        split: option.splits node.splits if_splits)
  then show ?thesis using quiet_files [OF quiet_check d1] by simp
qed

lemma load_source:
  assumes "load os co p d = (d', Inr c)"
  shows "\<exists>m s. ds_files d p = Some (Regular m s) \<and> load_bytes co s = Inr c"
proof -
  obtain d1 s where "read_credential_file os p d = (d1, Inr s)" "load_bytes co s = Inr c"
    using assms by (auto simp: load_def abind_def areturn_def split: prod.splits sum.splits)
  with read_file_source show ?thesis by blast
qed

lemma quarantine_only_match:
  assumes "quarantine_rejected os co st token d = (d', r)" "ds_files d' \<noteq> ds_files d"
  shows "\<exists>m s c. ds_files d (st_path st) = Some (Regular m s) \<and> load_bytes co s = Inr c \<and> cr_token c = token"
proof -
  have op: "st_open st"
    using assms by (auto simp: quarantine_rejected_def areturn_def split: if_splits)
  obtain d1 r1 where c: "checked_credential_dir os (path_dir (st_path st)) False d = (d1, r1)" by fastforce
  note f1 = quiet_files [OF quiet_check c]
  obtain d2 r2 where l: "load os co (st_path st) d1 = (d2, r2)" by fastforce
  note f2 = quiet_files [OF quiet_load l]
  have r1: "\<exists>u. r1 = Inr u"
    using assms op c f1 by (cases r1) (auto simp: quarantine_rejected_def abind_def)
  then have "\<exists>c. r2 = Inr c \<and> cr_token c = token"
    using assms op c f1 l f2 by (cases r2) (auto simp: quarantine_rejected_def abind_def areturn_def split: if_splits)
  with load_source l f1 show ?thesis by metis
qed

lemma quarantine_triple:
  assumes "honest os"
  shows "triple (kept_or_moved (st_path st) old) (\<lambda>fs. fs = old) (quarantine_rejected os co st token)
    (\<lambda>r fs. kept_or_moved (st_path st) old fs \<and> (r = Inr () \<longrightarrow> moved (st_path st) old fs))"
proof -
  let ?p = "st_path st"
  let ?Q = "\<lambda>r fs. kept_or_moved ?p old fs \<and> (r = Inr () \<longrightarrow> moved ?p old fs)"
  have I0: "kept_or_moved ?p old old" by (simp add: kept_or_moved_def)
  have q: "triple (kept_or_moved ?p old) (\<lambda>fs. fs = old) m (\<lambda>r fs. fs = old)" if "quiet m" for m :: "'z act"
    using that by (rule quiet_triple) (simp add: I0)
  show ?thesis
  proof (cases "st_open st")
    case True
    then have op: "\<not> \<not> st_open st" by simp
    show ?thesis
      unfolding quarantine_rejected_def if_not_P [OF op]
    proof (rule triple_abind [OF q [OF quiet_check]], rule triple_abind [OF q [OF quiet_load]], goal_cases)
      case (1 u c)
      show ?case
      proof (cases "cr_token c \<noteq> token")
        case True
        then show ?thesis unfolding if_P [OF True] by (intro triple_return) (simp add: I0)
      next
        case False
        have iq: "is_quarantine ?p (?p @ ''.rejected-'' @ os_random os (ds_calls d))" for d :: disk
          by (auto simp: is_quarantine_def)
        show ?thesis unfolding if_not_P [OF False]
          by (rule triple_state, rule quarantine_to_triple [OF assms iq])
      qed
    qed (simp_all add: I0)
  next
    case False
    then show ?thesis unfolding quarantine_rejected_def by (auto simp: I0 intro!: triple_return)
  qed
qed

text \<open>
  C20. A rejected credential is taken out of the API's reach without being lost. In every
  state during \<open>QuarantineRejected\<close> the file is at its path, or the same file is at a fresh
  quarantine name and nothing at the path; nothing else changes. It is moved only if it holds
  the token the caller saw rejected, and a call without error has moved it.
\<close>

theorem quarantine_keeps_file:
  assumes "honest os" "quarantine_rejected os co st token d = (d', r)"
  shows "(\<exists>h. ds_history d' = ds_history d @ h
      \<and> (\<forall>fs \<in> set (h @ [ds_files d']). kept_or_moved (st_path st) (ds_files d) fs))
    \<and> (r = Inr () \<longrightarrow> moved (st_path st) (ds_files d) (ds_files d'))
    \<and> (ds_files d' \<noteq> ds_files d \<longrightarrow> (\<exists>m s c. ds_files d (st_path st) = Some (Regular m s)
          \<and> load_bytes co s = Inr c \<and> cr_token c = token))"
  using tripleD [OF quarantine_triple [OF assms(1)] refl assms(2)] quarantine_only_match [OF assms(2)] by auto

lemma sample_saved_files:
  "ds_files sample_saved ''/h/trae-api'' = Some (Directory mode_dir)"
  "ds_files sample_saved ''/h/trae-api/auth.json'' = Some (snapshot sample_bytes)"
  "ds_files sample_saved ''/h/trae-api/auth.json.rejected-7'' = None"
  by code_simp+

lemma sample_quarantine: "snd (quarantine_rejected sample_os sample_codec sample_store ''t'' sample_saved) = Inr ()"
proof -
  let ?p = "''/h/trae-api/auth.json''" and ?q = "''/h/trae-api/auth.json.rejected-7''"
  have dir: "path_dir ?p = ''/h/trae-api''" by (simp add: path_dir_def)
  have sp: "st_path sample_store = ?p" "st_open sample_store" "os_random sample_os n = ''7''" for n
    by (simp_all add: sample_store_def sample_os_def)
  obtain d1 where d1: "checked_credential_dir sample_os (path_dir ?p) False sample_saved = (d1, Inr ())"
    "ds_files d1 = ds_files sample_saved"
    using checked_dir_ok [OF sample_no_faults, of sample_saved] sample_saved_files(1) dir by metis
  obtain d2 where d2: "read_credential_file sample_os ?p d1 = (d2, Inr sample_bytes)" "ds_files d2 = ds_files d1"
    using read_file_ok [OF sample_no_faults, of d1 ?p] sample_saved_files d1(2) dir sample_size by metis
  have l: "load sample_os sample_codec ?p d1 = (d2, Inr sample_credential)"
    by (simp add: load_def abind_def d2 areturn_def save_load_bytes [OF sample_codec_ok sample_saves])
  have tok: "cr_token sample_credential = ''t''" by (simp add: sample_credential_def)
  obtain d3 where d3: "sys_lstat sample_os ?q d2 = (d3, Inl ErrNotExist)" "ds_files d3 = ds_files d2"
    using sample_saved_files(3) d1(2) d2(2) by (simp add: sys_lstat_def syscall_ok [OF sample_no_faults])
  have "snd (quarantine_to sample_os ?p ?q d2) = Inr ()"
    using sample_saved_files d1(2) d2(2) d3
    by (simp add: quarantine_to_def move_aside_def abind_def sys_rename_def sync_dir_def map_err_def
        sys_open_def sys_fd_def syscall_ok [OF sample_no_faults] snapshot_def dir)
  then show ?thesis
    by (simp add: quarantine_rejected_def sp abind_def d1 l tok)
qed

theorem quarantine_keeps_file_witness:
  "moved (st_path sample_store) (ds_files sample_saved)
     (ds_files (fst (quarantine_rejected sample_os sample_codec sample_store ''t'' sample_saved)))"
proof -
  have "honest sample_os" by (simp add: honest_def sample_os_def)
  from quarantine_keeps_file [OF this, of sample_codec sample_store "''t''" sample_saved]
  show ?thesis using sample_quarantine by (metis prod.collapse)
qed

section \<open>The writer lock\<close>

text \<open>
  Nothing but opening and closing a store changes who holds the lock; opening one changes no
  credential file.
\<close>

definition keeps :: "(disk \<Rightarrow> 'x) \<Rightarrow> 'a act \<Rightarrow> bool" where
  "keeps v m \<longleftrightarrow> (\<forall>d. v (fst (m d)) = v d)"

named_theorems owner \<open>actions that keep a view of the disk\<close>

lemma keeps_abind [owner]: "keeps v m \<Longrightarrow> (\<And>x. keeps v (f x)) \<Longrightarrow> keeps v (abind m f)"
  unfolding keeps_def abind_def by (auto split: prod.split sum.split) (metis fst_conv)+

lemma keeps_return [owner]: "keeps v (areturn r)"
  by (simp add: keeps_def areturn_def)

lemma keeps_map_err [owner]: "keeps v m \<Longrightarrow> keeps v (map_err f m)"
  unfolding keeps_def map_err_def by (auto split: prod.split sum.split) (metis fst_conv)+

lemma keeps_state: "(\<And>d0. keeps v (m d0)) \<Longrightarrow> keeps v (\<lambda>d. m d d)"
  by (simp add: keeps_def)

lemma keepsD: "keeps v m \<Longrightarrow> m d = (d', r) \<Longrightarrow> v d' = v d"
  by (metis keeps_def fst_conv)

lemma keeps_owner_syscall [owner]: "keeps ds_owner (syscall os f)"
  by (simp add: keeps_def syscall_def split: option.split prod.split)

lemma keeps_owner_sys [owner]:
  "keeps ds_owner (sys_lstat os p)" "keeps ds_owner (sys_mkdir os p)" "keeps ds_owner (sys_open os p)"
  "keeps ds_owner (sys_fd os x)" "keeps ds_owner (sys_chmod os p mode)" "keeps ds_owner (sys_rename os p q)"
  "keeps ds_owner (sys_remove os p)"
  unfolding sys_lstat_def sys_mkdir_def sys_open_def sys_fd_def sys_chmod_def sys_rename_def
    sys_remove_def
  by (rule keeps_owner_syscall)+

lemma keeps_open_lock:
  assumes "\<And>f. keeps v (syscall os (f :: files \<Rightarrow> files \<times> node res))"
  shows "keeps v (sys_open_lock os p)"
  unfolding keeps_def
proof
  fix d
  let ?m = "syscall os (\<lambda>fs. case fs p of
          None \<Rightarrow> (fs(p \<mapsto> Regular mode_file []), Inr (Regular mode_file []))
        | Some Symlink \<Rightarrow> (fs, Inl (ErrMsg ''too many levels of symbolic links''))
        | Some n \<Rightarrow> (fs, Inr n))"
  obtain d' r where m: "?m d = (d', r)" by fastforce
  have "v d' = v d" using keepsD [OF assms m] .
  then show "v (fst (sys_open_lock os p d)) = v d" unfolding sys_open_lock_def m by (cases r) simp_all
qed

lemma keeps_owner_open_lock [owner]: "keeps ds_owner (sys_open_lock os p)"
  by (rule keeps_open_lock) (rule keeps_owner_syscall)

lemma keeps_owner_write [owner]: "keeps ds_owner (sys_write os p s)"
  by (simp add: keeps_def sys_write_def split: option.split)

lemma keeps_owner_temp [owner]: "keeps ds_owner (sys_create_temp os dir)"
  unfolding sys_create_temp_def Let_def by (rule keeps_state) (rule keeps_owner_syscall)

lemma keeps_check:
  assumes "keeps v (sys_lstat os dir)" "keeps v (sys_mkdir os dir)"
  shows "keeps v (checked_credential_dir os dir create)"
  unfolding keeps_def
proof
  fix d
  obtain d1 r1 where l: "sys_lstat os dir d = (d1, r1)" by fastforce
  have o1: "v d1 = v d" using keepsD [OF assms(1) l] .
  obtain d2 r2 where m: "sys_mkdir os dir d1 = (d2, r2)" by fastforce
  have o2: "v d2 = v d" using keepsD [OF assms(2) m] o1 by simp
  obtain d3 r3 where n: "map_err (Wrap ''credential directory unavailable: '') (sys_lstat os dir) d2 = (d3, r3)"
    by fastforce
  have o3: "v d3 = v d" using keepsD [OF keeps_map_err [OF assms(1)] n] o2 by simp
  show "v (fst (checked_credential_dir os dir create d)) = v d"
    using o1 o2 o3
    by (cases r1; cases r2; cases r3) (simp_all add: checked_credential_dir_def l m n)
qed

lemma keeps_owner_check [owner]: "keeps ds_owner (checked_credential_dir os dir create)"
  by (intro keeps_check owner)

lemma keeps_owner_read [owner]: "keeps ds_owner (read_credential_file os p)"
  unfolding read_credential_file_def
  by (intro owner) (auto intro!: owner split: node.split)

lemma keeps_owner_load [owner]: "keeps ds_owner (load os co p)"
  unfolding load_def by (intro owner)

lemma keeps_owner_existing [owner]: "keeps ds_owner (check_existing os co p)"
  using keeps_owner_load [of os co p] unfolding keeps_def check_existing_def
  by (auto split: prod.split sum.split) (metis fst_conv)+

lemma keeps_owner_finally [owner]: "keeps ds_owner m \<Longrightarrow> keeps ds_owner (finally_remove os temp m)"
  using keeps_owner_sys(7) [of os temp] unfolding keeps_def finally_remove_def
  by (auto split: prod.split) (metis fst_conv)

lemma keeps_owner_sync [owner]: "keeps ds_owner (sync_dir os w dir)"
  unfolding sync_dir_def by (intro owner)

lemma keeps_owner_save: "keeps ds_owner (save os co st c)"
  unfolding save_def publish_def by (auto intro!: owner split: sum.split)

lemma keeps_owner_quarantine: "keeps ds_owner (quarantine_rejected os co st token)"
proof -
  have to: "keeps ds_owner (quarantine_to os p q)" for p q
    unfolding keeps_def
  proof
    fix d
    obtain d1 r1 where l: "sys_lstat os q d = (d1, r1)" by fastforce
    have "ds_owner d1 = ds_owner d" using keepsD [OF keeps_owner_sys(1) l] by simp
    moreover have "keeps ds_owner (move_aside os p q)" unfolding move_aside_def by (intro owner)
    ultimately show "ds_owner (fst (quarantine_to os p q d)) = ds_owner d"
      by (cases r1) (simp_all add: quarantine_to_def l keeps_def)
  qed
  then have "keeps ds_owner (\<lambda>d. quarantine_to os p (f d) d)" for p f
    by (simp add: keeps_def)
  then show ?thesis unfolding quarantine_rejected_def by (auto intro!: owner)
qed

lemma keeps_owner_open_writer [owner]: "keeps ds_owner (open_writer_lock os cfg)"
  unfolding open_writer_lock_def by (auto intro!: owner split: sum.split)

lemma open_lock_path:
  assumes "open_writer_lock os cfg d = (d', Inr (p, l))"
  shows "credential_path cfg = Inr p \<and> fst l = p @ ''.lock''"
  using assms
  by (auto simp: open_writer_lock_def abind_def areturn_def map_err_def sys_open_lock_def split: sum.splits prod.splits if_splits)

lemma sys_flock_owner:
  assumes "sys_flock os l pid d = (d', r)"
  shows "case r of Inl e \<Rightarrow> ds_owner d' = ds_owner d
    | Inr _ \<Rightarrow> ds_owner d l = None \<and> ds_owner d' = (ds_owner d)(l \<mapsto> pid)"
  using assms by (auto simp: sys_flock_def split: option.splits if_splits)

lemma release_owner: "ds_owner (release l pid d) = (if ds_owner d l = Some pid then (ds_owner d)(l := None) else ds_owner d)"
  by (simp add: release_def)

lemma take_lock_owner:
  assumes "take_writer_lock os co pid (p, l) d = (d', r)"
  shows "case r of Inl e \<Rightarrow> ds_owner d' = ds_owner d
    | Inr st \<Rightarrow> ds_owner d l = None \<and> ds_owner d' = (ds_owner d)(l \<mapsto> pid)
        \<and> st = \<lparr>st_path = p, st_open = True, st_pid = pid, st_lock = l\<rparr>"
proof -
  obtain d1 r1 where 1: "sys_flock os l pid d = (d1, r1)" by fastforce
  note f = sys_flock_owner [OF 1]
  show ?thesis
  proof (cases r1)
    case (Inl e)
    then show ?thesis using assms f by (auto simp: take_writer_lock_def abind_def map_err_def 1)
  next
    case (Inr u)
    obtain d2 r2 where 2: "load os co p d1 = (d2, r2)" by fastforce
    have o: "ds_owner d l = None" "ds_owner d2 = (ds_owner d)(l \<mapsto> pid)"
      using f Inr keepsD [OF keeps_owner_load 2] by auto
    then have "(ds_owner d2)(l := None) = ds_owner d" by (auto simp: fun_eq_iff)
    then show ?thesis using assms o Inr
      by (cases r2) (auto simp: take_writer_lock_def abind_def map_err_def 1 2 release_owner split: if_splits)
  qed
qed

lemma open_store_owner:
  assumes "open_credential_store os co cfg pid d = (d', r)"
  shows "case r of Inl e \<Rightarrow> ds_owner d' = ds_owner d
    | Inr st \<Rightarrow> ds_owner d (st_lock st) = None \<and> ds_owner d' = (ds_owner d)(st_lock st \<mapsto> pid)
        \<and> st_open st \<and> st_pid st = pid \<and> credential_path cfg = Inr (st_path st)"
proof -
  obtain d1 r1 where 1: "open_writer_lock os cfg d = (d1, r1)" by fastforce
  have o: "ds_owner d1 = ds_owner d" using keepsD [OF keeps_owner_open_writer 1] .
  show ?thesis
  proof (cases r1)
    case (Inl e)
    then show ?thesis using assms o by (auto simp: open_credential_store_def abind_def 1)
  next
    case (Inr pl)
    obtain p l where pl: "pl = (p, l)" by (cases pl)
    have "take_writer_lock os co pid (p, l) d1 = (d', r)"
      using assms by (simp add: open_credential_store_def abind_def 1 Inr pl)
    from take_lock_owner [OF this] show ?thesis
      using o open_lock_path [OF 1 [unfolded Inr pl]] by (cases r) auto
  qed
qed

lemma close_store_owner:
  assumes "close_store os st d = (st', d', e)"
  shows "\<not> st_open st' \<and> st_pid st' = st_pid st \<and> st_path st' = st_path st \<and> st_lock st' = st_lock st \<and>
    ds_owner d' = (if st_open st \<and> ds_owner d (st_lock st) = Some (st_pid st)
      then (ds_owner d)(st_lock st := None) else ds_owner d)"
proof -
  obtain d1 r1 where 1: "sys_fd os () d = (d1, r1)" by fastforce
  obtain d2 r2 where 2: "sys_fd os () d1 = (d2, r2)" by fastforce
  have "ds_owner d2 = ds_owner d"
    using keepsD [OF keeps_owner_sys(4) 1] keepsD [OF keeps_owner_sys(4) 2] by simp
  then show ?thesis using assms by (auto simp: close_store_def 1 2 release_owner split: if_splits)
qed

text \<open>Opening a store leaves the credential file as it is.\<close>

lemma keeps_file_quiet: "quiet m \<Longrightarrow> keeps (\<lambda>d. ds_files d p) m"
  unfolding keeps_def using quiet_files by (metis prod.collapse)

lemma keeps_file_open_lock:
  assumes "p \<noteq> q"
  shows "keeps (\<lambda>d. ds_files d p) (sys_open_lock os q)"
  unfolding keeps_def
proof
  fix d
  show "ds_files (fst (sys_open_lock os q d)) p = ds_files d p"
    using assms by (cases "os_fail os (ds_calls d)"; cases "ds_files d q"; cases "the (ds_files d q)")
      (simp_all add: sys_open_lock_def syscall_def)
qed

lemma keeps_file_open:
  assumes "path_dir p \<noteq> p" "credential_path cfg = Inr p"
  shows "keeps (\<lambda>d. ds_files d p) (open_writer_lock os cfg)"
proof -
  let ?v = "\<lambda>d. ds_files d p"
  have "keeps ?v (sys_mkdir os (path_dir p))"
    using assms(1) by (auto simp: keeps_def sys_mkdir_def syscall_def split: option.split node.split prod.split)
  moreover have "keeps ?v (sys_lstat os (path_dir p))" by (rule keeps_file_quiet) (rule quiet_sys)
  ultimately have c: "keeps ?v (checked_credential_dir os (path_dir p) True)" by (intro keeps_check)
  have l: "keeps ?v (sys_open_lock os (p @ ''.lock''))" by (rule keeps_file_open_lock) simp
  have k: "keeps ?v (sys_fd os n)" for n :: node by (rule keeps_file_quiet) (rule quiet_sys)
  show ?thesis unfolding open_writer_lock_def assms(2) sum.case
    by (auto intro!: keeps_abind keeps_map_err keeps_return c l k)
qed

lemma keeps_file_take: "keeps (\<lambda>d. ds_files d p) (take_writer_lock os co pid (p, l))"
proof -
  let ?v = "\<lambda>d. ds_files d p"
  have f: "keeps ?v (sys_flock os l pid)" by (simp add: keeps_def sys_flock_def split: option.split)
  have q: "keeps ?v (load os co p)" by (rule keeps_file_quiet) (rule quiet_load)
  have "keeps ?v (\<lambda>d. case load os co p d of
          (d', Inl e) \<Rightarrow>
             if errors_is e ErrNotExist
             then (d', Inr \<lparr>st_path = p, st_open = True, st_pid = pid, st_lock = l\<rparr>)
             else (release l pid d', Inl e)
         | (d', Inr c) \<Rightarrow> (d', Inr \<lparr>st_path = p, st_open = True, st_pid = pid, st_lock = l\<rparr>))"
    unfolding keeps_def
  proof
    fix d
    obtain d1 r1 where 1: "load os co p d = (d1, r1)" by fastforce
    have "ds_files d1 p = ds_files d p" using keepsD [OF q 1] .
    then show "ds_files (fst (case load os co p d of
          (d', Inl e) \<Rightarrow>
             if errors_is e ErrNotExist
             then (d', Inr \<lparr>st_path = p, st_open = True, st_pid = pid, st_lock = l\<rparr>)
             else (release l pid d', Inl e)
         | (d', Inr c) \<Rightarrow> (d', Inr \<lparr>st_path = p, st_open = True, st_pid = pid, st_lock = l\<rparr>))) p = ds_files d p"
      by (cases r1) (simp_all add: 1 release_def)
  qed
  then show ?thesis unfolding take_writer_lock_def prod.case by (intro keeps_abind keeps_map_err f)
qed

lemma open_store_keeps_file:
  assumes "credential_path cfg = Inr p" "open_credential_store os co cfg pid d = (d', r)"
  shows "ds_files d' p = ds_files d p"
proof -
  have "path_dir p \<noteq> p"
    using assms(1) by (cases cfg) (auto simp: credential_path_def path_dir_auth split: if_splits)
  note open_keeps = keeps_file_open [OF this assms(1), of os]
  obtain d1 r1 where 1: "open_writer_lock os cfg d = (d1, r1)" by fastforce
  have o: "ds_files d1 p = ds_files d p" using keepsD [OF open_keeps 1] .
  show ?thesis
  proof (cases r1)
    case (Inl e)
    then show ?thesis using assms(2) o by (auto simp: open_credential_store_def abind_def 1)
  next
    case (Inr pl)
    then obtain l where pl: "pl = (p, l)" using open_lock_path [of os cfg d d1] 1 assms(1) by (cases pl) auto
    have "take_writer_lock os co pid (p, l) d1 = (d', r)"
      using assms(2) by (simp add: open_credential_store_def abind_def 1 Inr pl)
    from keepsD [OF keeps_file_take this] o show ?thesis by simp
  qed
qed

end
