(* ===== verification/StoreInterface.thy ===== *)
theory StoreInterface
  imports AuthManager CredQuarantine
begin

text \<open>
  What the auth manager relies on in the credential store, as a locale, and the facts about
  publishing and revoking a credential that follow. The store of \<open>CredStore\<close> provides it.
\<close>

section \<open>The interface\<close>

text \<open>
  \<open>held\<close> is the credential in the store, if any; \<open>absent\<close> says that there is none, not even an
  invalid one; \<open>good\<close> what a client must know of it. A save
  that fails may still have replaced the credential.
\<close>

locale credential_store =
  fixes save_c :: "'s \<Rightarrow> credential \<Rightarrow> 's \<times> unit res"
    and load_c :: "'s \<Rightarrow> 's \<times> credential res"
    and quarantine_c :: "'s \<Rightarrow> string \<Rightarrow> 's \<times> unit res"
    and held :: "'s \<Rightarrow> credential option"
    and absent :: "'s \<Rightarrow> bool"
    and good :: "'s \<Rightarrow> bool"
  assumes save_good: "good s \<Longrightarrow> save_c s c = (s', r) \<Longrightarrow> good s'"
    and load_good: "good s \<Longrightarrow> load_c s = (s', q) \<Longrightarrow> good s' \<and> held s' = held s"
    and save_ok: "good s \<Longrightarrow> save_c s c = (s', Inr u) \<Longrightarrow> held s' = Some c"
    and save_failed: "good s \<Longrightarrow> save_c s c = (s', Inl e) \<Longrightarrow> held s' = held s \<or> held s' = Some c"
    and load_ok: "good s \<Longrightarrow> load_c s = (s', Inr c) \<Longrightarrow> held s = Some c"
    and quarantine_ok: "good s \<Longrightarrow> quarantine_c s t = (s', Inr u) \<Longrightarrow> absent s'"

lemma same_credential_eq: "same_credential a b \<Longrightarrow> a = b"
  by (cases a, cases b) (simp add: same_credential_def)

context credential_store
begin

text \<open>A published credential is the one in the store, whether or not the save failed.\<close>

lemma published_held:
  assumes "good s" "save_c s c = (s1, r)" "reconcile_published load_c c r s1 = (s2, True, e)"
  shows "good s2 \<and> held s2 = Some c \<and> (e = None \<longleftrightarrow> r = Inr ())"
proof -
  have g1: "good s1" using save_good [OF assms(1,2)] .
  show ?thesis
  proof (cases r)
    case (Inr u)
    then show ?thesis using assms(3) g1 save_ok [OF assms(1), of c s1 u] assms(2)
      by (simp add: reconcile_published_def)
  next
    case (Inl e0)
    obtain s' q where l: "load_c s1 = (s', q)" by fastforce
    from assms(3) Inl l obtain c' where q: "q = Inr c'" "same_credential c' c" "s2 = s'" "e \<noteq> None"
      by (cases q) (auto simp: reconcile_published_def split: if_splits)
    have "held s1 = Some c'" using load_ok [OF g1] l q(1) by simp
    then show ?thesis using load_good [OF g1 l] q same_credential_eq [OF q(2)] Inl by simp
  qed
qed

text \<open>One that is not published was not saved without error; the old or the new one is there.\<close>

lemma unpublished_held:
  assumes "good s" "save_c s c = (s1, r)" "reconcile_published load_c c r s1 = (s2, False, e)"
  shows "good s2 \<and> (held s2 = held s \<or> held s2 = Some c) \<and> e \<noteq> None"
proof -
  have g1: "good s1" using save_good [OF assms(1,2)] .
  obtain e0 where r: "r = Inl e0" using assms(3) by (cases r) (simp_all add: reconcile_published_def)
  obtain s' q where l: "load_c s1 = (s', q)" by fastforce
  have "s2 = s'" "e \<noteq> None"
    using assms(3) r l by (cases q; auto simp: reconcile_published_def split: if_splits)+
  then show ?thesis using load_good [OF g1 l] save_failed [OF assms(1), of c s1 e0] assms(2) r by simp
qed

text \<open>A revocation that reports no error of its own leaves the expired copy or nothing.\<close>

lemma revoke_held:
  assumes "good s" "revoke save_c quarantine_c invalid token e s = (s', e)" "\<nexists>es. e = Joined es"
  shows "held s' = Some invalid \<or> absent s'"
proof -
  obtain s1 r where sv: "save_c s invalid = (s1, r)" by fastforce
  have g1: "good s1" using save_good [OF assms(1) sv] .
  show ?thesis
  proof (cases r)
    case (Inr u)
    then show ?thesis using assms(1,2) sv save_ok [of s invalid s1 u] by (simp add: revoke_def)
  next
    case (Inl e0)
    obtain s2 q where qu: "quarantine_c s1 token = (s2, q)" by fastforce
    have "\<exists>u. q = Inr u" and s: "s' = s2"
      using assms(2,3) sv Inl qu by (cases q; auto simp: revoke_def)+
    then obtain u where "q = Inr u" by blast
    then show ?thesis using quarantine_ok [OF g1, of token s2 u] qu s by simp
  qed
qed

end

section \<open>The store provides it\<close>

definition held_at :: "codec \<Rightarrow> string \<Rightarrow> disk \<Rightarrow> credential option" where
  "held_at co p d =
     (case ds_files d p of
        Some (Regular m s) \<Rightarrow> (case load_bytes co s of Inr c \<Rightarrow> Some c | Inl e \<Rightarrow> None)
      | _ \<Rightarrow> None)"

definition good_store :: "os_env \<Rightarrow> codec \<Rightarrow> store \<Rightarrow> bool" where
  "good_store os co st \<longleftrightarrow> codec_ok co \<and> store_ok st \<and> honest os"

lemma held_at_snapshot: "ds_files d p = Some (snapshot data) \<Longrightarrow> load_bytes co data = Inr c \<Longrightarrow> held_at co p d = Some c"
  by (simp add: held_at_def snapshot_def)

lemma save_held:
  assumes "good_store os co st" "save os co st c d = (d', r)"
  shows "case r of Inr _ \<Rightarrow> held_at co (st_path st) d' = Some c
    | Inl e \<Rightarrow> held_at co (st_path st) d' = held_at co (st_path st) d \<or> held_at co (st_path st) d' = Some c"
proof (cases "save_bytes co c")
  case (Inl e)
  then have "d' = d \<and> (\<exists>e. r = Inl e)"
    using assms(2) by (cases "st_open st") (auto simp: save_def areturn_def)
  then show ?thesis by auto
next
  case (Inr data)
  have st: "store_ok st" and co: "codec_ok co" using assms(1) by (simp_all add: good_store_def)
  note t = tripleD(1) [OF save_triple [OF st Inr] refl assms(2)]
  note new = held_at_snapshot [OF _ save_load_bytes [OF co Inr], of d' "st_path st"]
  show ?thesis
  proof (cases r)
    case (Inr u)
    then show ?thesis using t new by (simp add: saved_def)
  next
    case (Inl e)
    then have "ds_files d' (st_path st) = ds_files d (st_path st) \<or> ds_files d' (st_path st) = Some (snapshot data)"
      using t by (auto simp: saved_def)
    then show ?thesis using new Inl by (auto simp: held_at_def [of _ _ d] held_at_def [of _ _ d'])
  qed
qed

lemma load_held:
  assumes "load os co p d = (d', r)"
  shows "held_at co p d' = held_at co p d" "r = Inr c \<Longrightarrow> held_at co p d = Some c"
proof -
  show "held_at co p d' = held_at co p d" using quiet_files [OF quiet_load assms] by (simp add: held_at_def)
  show "held_at co p d = Some c" if "r = Inr c"
    using load_source assms that by (fastforce simp: held_at_def)
qed

interpretation cs: credential_store
  "\<lambda>d c. save os co st c d" "load os co (st_path st)" "\<lambda>d t. quarantine_rejected os co st t d"
  "held_at co (st_path st)" "\<lambda>d. ds_files d (st_path st) = None" "\<lambda>d. good_store os co st"
  for os co st
proof unfold_locales
  fix d c d' r and u :: unit and e t
  assume g: "good_store os co st"
  show "good_store os co st" by (rule g)
  show "good_store os co st \<and> held_at co (st_path st) d' = held_at co (st_path st) d"
    if "load os co (st_path st) d = (d', r :: credential res)" for r using g load_held(1) [OF that] by simp
  show "held_at co (st_path st) d' = Some c" if "save os co st c d = (d', Inr u)"
    using save_held [OF g that] by simp
  show "held_at co (st_path st) d' = held_at co (st_path st) d \<or> held_at co (st_path st) d' = Some c"
    if "save os co st c d = (d', Inl e)" using save_held [OF g that] by simp
  show "held_at co (st_path st) d = Some c" if "load os co (st_path st) d = (d', Inr c)"
    using load_held(2) [OF that] by simp
  show "ds_files d' (st_path st) = None" if "quarantine_rejected os co st t d = (d', Inr u)"
  proof -
    have "moved (st_path st) (ds_files d) (ds_files d')"
      using tripleD(1) [OF quarantine_triple refl that] g by (simp add: good_store_def)
    then show ?thesis by (auto simp: moved_def is_quarantine_def)
  qed
qed

end
