(* ===== verification/AuthExchange.thy ===== *)
theory AuthExchange
  imports AuthTokens CredentialCorrect
begin

text \<open>
  What an exchange sends, and what it may change in a credential.
\<close>

section \<open>The answer\<close>

lemma check_user_ok:
  assumes "check_user m c = Inr c'"
  shows "c' = c\<lparr>cr_user_id := cr_user_id c'\<rparr> \<and> (cr_user_id c \<noteq> [] \<longrightarrow> cr_user_id c' = cr_user_id c)"
  using assms by (auto simp: check_user_def Let_def split: if_splits)

definition same_device :: "credential \<Rightarrow> credential \<Rightarrow> bool" where
  "same_device c c' \<longleftrightarrow> cr_device_id c' = cr_device_id c \<and> cr_machine_id c' = cr_machine_id c
     \<and> cr_device_key c' = cr_device_key c \<and> cr_refresh_pending c' = cr_refresh_pending c"

definition kept_identity :: "credential \<Rightarrow> credential \<Rightarrow> bool" where
  "kept_identity c c' \<longleftrightarrow> cr_token c' \<noteq> [] \<and> same_device c c'
     \<and> (cr_user_id c \<noteq> [] \<longrightarrow> cr_user_id c' = cr_user_id c)
     \<and> (cr_refresh_token c \<noteq> [] \<longrightarrow> cr_refresh_token c' \<noteq> [])
     \<and> (cr_client_id c \<noteq> [] \<longrightarrow> cr_client_id c' \<noteq> [])
     \<and> (cr_refresh_expires_at c \<noteq> 0 \<longrightarrow> cr_refresh_expires_at c' \<noteq> 0)"

lemma renewed_identity: "token \<noteq> [] \<Longrightarrow> kept_identity c (renewed m token c)"
  by (simp add: kept_identity_def same_device_def renewed_def Let_def)

lemma renewed_user [simp]: "cr_user_id (renewed m token c) = cr_user_id c"
  by (simp add: renewed_def Let_def)

lemma kept_identity_trans:
  assumes "kept_identity c x" "x' = x\<lparr>cr_user_id := cr_user_id x'\<rparr>"
    "cr_user_id x \<noteq> [] \<longrightarrow> cr_user_id x' = cr_user_id x"
  shows "kept_identity c x'"
proof -
  obtain u where x': "x' = x\<lparr>cr_user_id := u\<rparr>" using assms(2) by blast
  show ?thesis using assms(1,3) unfolding x' by (auto simp: kept_identity_def same_device_def)
qed

lemma accept_exchange_ok:
  assumes "accept_exchange m c = Inr c'"
  shows "kept_identity c c'"
proof -
  define token where "token = first_string m [''Token'', ''token'', ''AccessToken'', ''accessToken'']"
  define region where "region = first_string (exchange_info m) [''Region'', ''region'']"
  note run = assms [unfolded accept_exchange_def Let_def, folded token_def region_def]
  then have t: "token \<noteq> []"
    and u: "rbind (check_user (exchange_info m) (renewed m token c)) (check_user m) = Inr c'"
    by (auto split: if_splits)
  obtain c1 where c1: "check_user (exchange_info m) (renewed m token c) = Inr c1" "check_user m c1 = Inr c'"
    using u by (auto simp: inv_iff)
  note 1 = check_user_ok [OF c1(1)] and 2 = check_user_ok [OF c1(2)]
  have "kept_identity c c1"
    using conjunct1 [OF 1] conjunct2 [OF 1] renewed_identity [OF t, of c m] by (metis kept_identity_trans renewed_user)
  then show ?thesis using conjunct1 [OF 2] conjunct2 [OF 2] by (metis kept_identity_trans)
qed

lemma decode_exchange_ok:
  assumes "decode_exchange st body c = Inr c'"
  shows "st = 200 \<and> kept_identity c c'"
  using assms accept_exchange_ok by (auto simp: decode_exchange_def split: if_splits option.splits)

section \<open>The requests\<close>

definition carries_refresh :: "credential \<Rightarrow> http_request \<Rightarrow> bool" where
  "carries_refresh c q \<longleftrightarrow> hq_method q = ''POST'' \<and>
     (case hq_body q of
        JObj m \<Rightarrow> map_of m ''RefreshToken'' = Some (JStr (cr_refresh_token c)) | _ \<Rightarrow> False)"

text \<open>
  The sequence \<open>sent\<close> was sent after \<open>log\<close>: each request carries the refresh token, and
  another follows only when the server has refused the one before.
\<close>

fun sent_well :: "auth_env \<Rightarrow> credential \<Rightarrow> http_request list \<Rightarrow> http_request list \<Rightarrow> bool" where
  "sent_well env c log [] \<longleftrightarrow> True"
| "sent_well env c log (q # qs) \<longleftrightarrow> carries_refresh c q \<and>
     (qs \<noteq> [] \<longrightarrow> (\<exists>st body. ae_do (xe_api env) log q = Reply st body \<and> (st = 401 \<or> st = 403)))
     \<and> sent_well env c (log @ [q]) qs"

definition answered_by :: "auth_env \<Rightarrow> credential \<Rightarrow> http_request list \<Rightarrow> http_request list \<Rightarrow> credential \<Rightarrow> bool" where
  "answered_by env c log sent fresh \<longleftrightarrow> sent \<noteq> [] \<and> (\<exists>body.
     ae_do (xe_api env) (log @ butlast sent) (last sent) = Reply 200 body
     \<and> decode_exchange 200 body c = Inr fresh)"

lemma send_request_cases:
  assumes "send_request env url h body log = (log', r)"
  obtains e where "log' = log" "r = Inl e"
  | q where "log' = log @ [q]" "r = Inr (ae_do env log q)" "hq_body q = body" "hq_method q = ''POST''"
  using assms by (auto simp: send_request_def Let_def split: option.splits)

lemma bound_body_carries: "\<exists>m. bound_body as c sig at nonce pub = JObj m
    \<and> map_of m ''RefreshToken'' = Some (JStr (cr_refresh_token c))"
  by (cases as) (simp add: bound_body_def)

lemma bound_clients_sends:
  assumes "bound_clients env cf pub key c prev as log = (log', r)"
  shows "\<exists>sent. log' = log @ sent \<and> length sent \<le> length as \<and> sent_well env c log sent
    \<and> (\<forall>fresh. r = Inr fresh \<longrightarrow> answered_by env c log sent fresh)"
  using assms
proof (induction as arbitrary: prev log)
  case Nil
  then show ?case by auto
next
  case (Cons a as)
  show ?case
  proof (cases "\<exists>e. log' = log \<and> r = Inl e")
    case True
    then show ?thesis by auto
  next
    case False
    then obtain nonce where n: "xe_nonce env (length log) = Some nonce"
      using Cons.prems by (cases "xe_nonce env (length log)") auto
    define tm where "tm = ae_now (xe_api env) (length log) div second - 62135596800"
    define msg where "msg = proof_text (fst a) (cr_refresh_token c) tm (hex_text nonce)"
    obtain sig where s: "xe_sign env key (xe_sha256 env msg) = Some sig"
      using Cons.prems False n
      by (cases "xe_sign env key (xe_sha256 env msg)") (auto simp: tm_def msg_def Let_def)
    define h where "h = (if cr_token c \<noteq> [] then set_header ''Authorization'' (''Bearer '' @ cr_token c) json_headers
                       else json_headers)"
    define b where "b = bound_body a c (xe_base64 env sig) tm (hex_text nonce) pub"
    obtain l1 o1 where sr: "send_request (xe_api env) (trim_slash (cf_auth_base_url cf) @ device_exchange_path) h b log
        = (l1, o1)" by fastforce
    note run = Cons.prems [unfolded bound_clients.simps n option.case Let_def, folded tm_def, folded msg_def,
        unfolded s option.case, folded h_def b_def, unfolded sr prod.case]
    from sr obtain q where q: "l1 = log @ [q]" "o1 = Inr (ae_do (xe_api env) log q)" "hq_body q = b"
        "hq_method q = ''POST''"
    proof (cases rule: send_request_cases)
      case (1 e)
      then have "log' = log \<and> r = Inl e" using run by simp
      then show thesis using False by blast
    qed
    have cq: "carries_refresh c q"
      using q bound_body_carries [of a c "xe_base64 env sig" tm "hex_text nonce" pub]
      by (auto simp: carries_refresh_def b_def)
    show ?thesis
    proof (cases "ae_do (xe_api env) log q")
      case (NoReply e)
      then show ?thesis using run q cq by (intro exI [of _ "[q]"]) (auto split: option.splits)
    next
      case (Reply st body)
      show ?thesis
      proof (cases "decode_exchange st body c")
        case (Inr fresh)
        then have "st = 200" using decode_exchange_ok by blast
        then show ?thesis using run q cq Reply Inr
          by (intro exI [of _ "[q]"]) (auto simp: answered_by_def)
      next
        case (Inl e)
        show ?thesis
        proof (cases "st \<noteq> 401 \<and> st \<noteq> 403")
          case True
          then show ?thesis using run q cq Reply Inl by (intro exI [of _ "[q]"]) auto
        next
          case no: False
          then have "bound_clients env cf pub key c e as (log @ [q]) = (log', r)"
            using run q Reply Inl by auto
          from Cons.IH [OF this] obtain sent where sent: "log' = (log @ [q]) @ sent" "length sent \<le> length as"
            "sent_well env c (log @ [q]) sent" "\<forall>fresh. r = Inr fresh \<longrightarrow> answered_by env c (log @ [q]) sent fresh"
            by blast
          then show ?thesis using cq Reply no
            by (intro exI [of _ "q # sent"]) (auto simp: answered_by_def)
        qed
      qed
    qed
  qed
qed

lemma legacy_sends:
  assumes "legacy_exchange env cf c log = (log', r)"
  shows "\<exists>sent. log' = log @ sent \<and> length sent \<le> 1 \<and> sent_well env c log sent
    \<and> (\<forall>fresh. r = Inr fresh \<longrightarrow> answered_by env c log sent fresh)"
proof -
  obtain l1 o1 where sr: "send_request (xe_api env)
      (trim_slash (cf_auth_base_url cf) @ ''/cloudide/api/v3/trae/oauth/ExchangeToken'')
      json_headers (legacy_body c) log = (l1, o1)" by fastforce
  note run = assms [unfolded legacy_exchange_def sr prod.case]
  from sr show ?thesis
  proof (cases rule: send_request_cases)
    case (1 e)
    then show ?thesis using run by auto
  next
    case (2 q)
    then have cq: "carries_refresh c q" by (simp add: carries_refresh_def legacy_body_def)
    show ?thesis
    proof (cases "ae_do (xe_api env) log q")
      case (NoReply e)
      then show ?thesis using run 2 cq by (intro exI [of _ "[q]"]) (auto split: option.splits)
    next
      case (Reply st body)
      then show ?thesis using run 2 cq decode_exchange_ok [of st body c]
        by (intro exI [of _ "[q]"]) (auto simp: answered_by_def)
    qed
  qed
qed

lemma exchange_log:
  assumes "exchange env cf now c log = (log', r)"
  shows "\<exists>sent. log' = log @ sent \<and> length sent \<le> 2 \<and> sent_well env c log sent
    \<and> (\<forall>fresh. r = Inr fresh \<longrightarrow> answered_by env c log sent fresh)"
proof (cases "\<exists>e. log' = log \<and> r = Inl e")
  case True
  then show ?thesis by auto
next
  case False
  show ?thesis
  proof (cases "cr_device_key c \<noteq> None \<or> cr_device_id c \<noteq> [] \<or> cr_machine_id c \<noteq> []")
    case True
    then obtain key where "bound_exchange env cf key c log = (log', r)"
      using assms False by (auto simp: exchange_def split: if_splits option.splits)
    then obtain pub where "bound_clients env cf pub key c (ErrMsg []) exchange_clients log = (log', r)"
      using False by (auto simp: bound_exchange_def split: option.splits)
    from bound_clients_sends [OF this] show ?thesis by (simp add: exchange_clients_def numeral_2_eq_2)
  next
    case no: False
    then have "legacy_exchange env cf c log = (log', r)"
      using assms False by (auto simp: exchange_def split: if_splits)
    from legacy_sends [OF this] show ?thesis by fastforce
  qed
qed

text \<open>
  C29. An exchange sends at most two requests, each with the refresh token it was given, and the
  second one only after the server refused the first with 401 or 403: never after a lost
  connection or an unreadable answer, which may have spent the token. It succeeds only on
  the last answer sent, a 200 that it decodes.
\<close>

theorem exchange_sends_once:
  assumes "exchange env cf now c log = (log', r)"
  shows "\<exists>sent. log' = log @ sent \<and> length sent \<le> 2
    \<and> list_all (carries_refresh c) sent
    \<and> (\<forall>q1 q2. sent = [q1, q2] \<longrightarrow>
         (\<exists>st body. ae_do (xe_api env) log q1 = Reply st body \<and> (st = 401 \<or> st = 403)))
    \<and> (\<forall>fresh. r = Inr fresh \<longrightarrow> sent \<noteq> [] \<and>
         (\<exists>body. ae_do (xe_api env) (log @ butlast sent) (last sent) = Reply 200 body
            \<and> decode_exchange 200 body c = Inr fresh))"
proof -
  obtain sent where s: "log' = log @ sent" "length sent \<le> 2" "sent_well env c log sent"
    "\<forall>fresh. r = Inr fresh \<longrightarrow> answered_by env c log sent fresh" using exchange_log [OF assms] by blast
  have "list_all (carries_refresh c) sent" using s(3) by (induction sent arbitrary: log) auto
  then show ?thesis using s by (intro exI [of _ sent]) (auto simp: answered_by_def)
qed

text \<open>
  An exchange changes no identity: the credential it returns has a token, keeps the device,
  its key and the user id when one was known, and never loses the refresh token.
\<close>

theorem exchange_keeps_identity:
  assumes "exchange env cf now c log = (log', Inr fresh)"
  shows "cr_token fresh \<noteq> [] \<and> cr_device_id fresh = cr_device_id c \<and> cr_machine_id fresh = cr_machine_id c
    \<and> cr_device_key fresh = cr_device_key c \<and> (cr_user_id c \<noteq> [] \<longrightarrow> cr_user_id fresh = cr_user_id c)
    \<and> cr_refresh_token fresh \<noteq> [] \<and> (cr_refresh_expires_at c \<noteq> 0 \<longrightarrow> cr_refresh_expires_at fresh \<noteq> 0)"
proof -
  have "cr_refresh_token c \<noteq> []" using assms by (auto simp: exchange_def)
  moreover obtain body where "decode_exchange 200 body c = Inr fresh"
    using exchange_log [OF assms] by (auto simp: answered_by_def)
  ultimately show ?thesis using decode_exchange_ok by (auto simp: kept_identity_def same_device_def)
qed

section \<open>Examples\<close>

text \<open>A server that refuses the first client and answers the second.\<close>

definition sample_answer :: string where
  "sample_answer = dq ''{`Token`:`x`}''"

definition sample_auth_env :: auth_env where
  "sample_auth_env = \<lparr>
     xe_api = \<lparr>ae_url_error = \<lambda>u. None,
       ae_do = (\<lambda>log q. if log = [] then Reply 401 [] else Reply 200 sample_answer),
       ae_now = \<lambda>n. 0, ae_rand = \<lambda>n. []\<rparr>,
     xe_nonce = \<lambda>n. Some ''n'', xe_sign = \<lambda>k t. Some ''s'', xe_sha256 = id, xe_base64 = id,
     xe_public = \<lambda>k. Some ''p''\<rparr>"

definition sample_exchange :: "http_request list \<times> credential res" where
  "sample_exchange = exchange sample_auth_env default_config 0 sample_credential []"

lemma sample_exchanges:
  "exchange sample_auth_env default_config 0 sample_credential []
    = (fst sample_exchange, Inr (sample_credential\<lparr>cr_token := ''x'', cr_expires_at := 0\<rparr>))"
proof -
  have "snd sample_exchange = Inr (sample_credential\<lparr>cr_token := ''x'', cr_expires_at := 0\<rparr>)" by code_simp
  then show ?thesis by (simp add: sample_exchange_def prod_eq_iff)
qed

theorem exchange_sends_once_witness:
  "length (fst sample_exchange) = 2 \<and> list_all (carries_refresh sample_credential) (fst sample_exchange)"
proof -
  have "length (fst sample_exchange) = 2" by code_simp
  then show ?thesis using exchange_sends_once [OF sample_exchanges] by auto
qed

theorem exchange_keeps_identity_witness:
  "cr_user_id (sample_credential\<lparr>cr_token := ''x'', cr_expires_at := 0\<rparr>) = ''u''"
  using exchange_keeps_identity [OF sample_exchanges] by (simp add: sample_credential_def)

end
