(* ===== verification/AuthManagerCorrect.thy ===== *)
theory AuthManagerCorrect
  imports StoreInterface AuthExchange
begin

text \<open>
  What the sections of the auth manager promise: the fence that precedes every refresh and
  survives a crash, what \<open>get\<close> may return, what a login publishes, what a rejection revokes,
  and what an exchange sends.
\<close>

section \<open>The fence\<close>

lemma start_exchange_simps:
  "start_exchange old a = (a\<lparr>am_refreshing := Some (am_channels a), am_channels := Suc (am_channels a)\<rparr>,
     Exchanges old (am_generation a) (am_channels a))"
  by (simp add: start_exchange_def)

lemma get_enter_exchanges:
  assumes "get_enter ax now a d = (a', d', Exchanges old g ch)"
  shows "am_refresh_err a = None \<and> am_refreshing a = None \<and> cr_token (am_cred a) \<noteq> []
    \<and> get_fence ax now a d = (a', d', Exchanges old g ch)"
  using assms
  by (cases "am_refresh_err a"; cases "am_refreshing a") (auto simp: get_enter_def split: if_splits)

lemma get_fence_exchanges:
  assumes "get_fence ax now a d = (a', d', Exchanges old g ch)"
  shows "am_refreshing a' = Some ch \<and> ch = am_channels a \<and> am_channels a' = Suc ch
    \<and> g = am_generation a \<and> am_generation a' = g \<and> am_refresh_err a' = am_refresh_err a
    \<and> am_cred a' = old \<and> am_store a' = am_store a
    \<and> (case am_store a of
         None \<Rightarrow> old = am_cred a \<and> d' = d
       | Some st \<Rightarrow> old = (am_cred a)\<lparr>cr_refresh_pending := True\<rparr>
           \<and> save (ax_os ax) (ax_codec ax) st old d = (d', Inr ()))"
proof (cases "am_store a")
  case None
  then show ?thesis using assms by (auto simp: get_fence_def start_exchange_def)
next
  case (Some st)
  let ?w = "(am_cred a)\<lparr>cr_refresh_pending := True\<rparr>"
  obtain d1 r where sv: "save (ax_os ax) (ax_codec ax) st ?w d = (d1, r)" by fastforce
  show ?thesis
    using assms Some sv by (cases r) (auto simp: get_fence_def start_exchange_def Let_def split: if_splits)
qed

text \<open>
  C22. No refresh is sent before its fence is on the disk: when \<open>get\<close> goes on to an exchange,
  the store holds the very credential whose refresh token will be sent, marked as pending; the
  manager has the same one, and it is the caller alone that refreshes.
\<close>

theorem fence_before_send:
  assumes "get_enter ax now a d = (a', d', Exchanges old g ch)"
    and "am_store a = Some st" "good_store (ax_os ax) (ax_codec ax) st"
  shows "held_at (ax_codec ax) (st_path st) d' = Some old \<and> cr_refresh_pending old
    \<and> am_cred a' = old \<and> cr_refresh_token old = cr_refresh_token (am_cred a)
    \<and> am_refreshing a = None \<and> am_refreshing a' = Some ch \<and> am_refresh_err a = None"
proof -
  note e = get_enter_exchanges [OF assms(1)]
  then have f: "get_fence ax now a d = (a', d', Exchanges old g ch)" by simp
  note * = get_fence_exchanges [OF f]
  then have sv: "save (ax_os ax) (ax_codec ax) st old d = (d', Inr ())"
    and old: "old = (am_cred a)\<lparr>cr_refresh_pending := True\<rparr>" using assms(2) by auto
  have "held_at (ax_codec ax) (st_path st) d' = Some old" using cs.save_ok [OF assms(3) sv] .
  then show ?thesis using e * old by simp
qed

text \<open>A manager that restores a pending credential, or none, never refreshes.\<close>

lemma restored_never_exchanges:
  assumes "case kept of None \<Rightarrow> True | Some c \<Rightarrow> cr_refresh_pending c"
  shows "\<exists>c g e. get_enter ax now (restored_manager st kept) d = (restored_manager st kept, d, Got c g e)"
  using assms
  by (cases kept) (auto simp: get_enter_def restored_manager_def new_auth_manager_def empty_credential_def)

lemma open_manager_restores:
  assumes "open_manager ax (Inr dir) pid d = (d', Inr a)" "credential_path (Inr dir) = Inr p"
  shows "\<exists>st kept. a = restored_manager st kept \<and> (kept = None \<or> kept = held_at (ax_codec ax) p d)"
proof -
  obtain d1 r1 where o: "open_credential_store (ax_os ax) (ax_codec ax) (Inr dir) pid d = (d1, r1)" by fastforce
  with assms(1) obtain st where st: "r1 = Inr st" by (cases r1) (auto simp: open_manager_def)
  have p: "st_path st = p" using open_store_owner [OF o] st assms(2) by simp
  have held: "held_at (ax_codec ax) p d1 = held_at (ax_codec ax) p d"
    using open_store_keeps_file [OF assms(2) o] by (simp add: held_at_def)
  obtain d2 r2 where l: "load (ax_os ax) (ax_codec ax) p d1 = (d2, r2)" by fastforce
  show ?thesis
  proof (cases r2)
    case (Inr c)
    then have "a = restored_manager st (Some c)" using assms(1) o st l p by (simp add: open_manager_def)
    moreover have "held_at (ax_codec ax) p d1 = Some c" using load_held(2) [OF l] Inr by simp
    ultimately show ?thesis using held by metis
  next
    case (Inl e)
    then have "a = restored_manager st None"
      using assms(1) o st l p by (auto simp: open_manager_def split: if_splits)
    then show ?thesis by blast
  qed
qed

text \<open>
  C23. A crash never repeats a refresh. If the process dies after the fence, wherever it was in
  the exchange, the next service that opens the store on that disk starts from the fenced
  credential, or from none, and its \<open>get\<close> answers from what it has, without an exchange and
  without a wait, at every later time.
\<close>

theorem crash_never_resends:
  assumes "get_enter ax now a d = (a', d', Exchanges old g ch)"
    and "am_store a = Some st" "good_store (ax_os ax) (ax_codec ax) st"
    and "ds_files d1 = ds_files d'" "credential_path (Inr dir) = Inr (st_path st)"
    and "open_manager ax2 (Inr dir) pid d1 = (d2, Inr a2)" "ax_codec ax2 = ax_codec ax"
  shows "(am_cred a2 = old \<or> am_cred a2 = empty_credential)
    \<and> (\<forall>now2 d3. \<exists>c g e. get_enter ax2 now2 a2 d3 = (a2, d3, Got c g e))"
proof -
  from get_enter_exchanges [OF assms(1)] have "get_fence ax now a d = (a', d', Exchanges old g ch)" by simp
  from get_fence_exchanges [OF this] assms(2)
  have sv: "save (ax_os ax) (ax_codec ax) st old d = (d', Inr ())" and p: "cr_refresh_pending old" by auto
  have held: "held_at (ax_codec ax) (st_path st) d1 = Some old"
    using cs.save_ok [OF assms(3) sv] assms(4) by (simp add: held_at_def)
  from open_manager_restores [OF assms(6,5)] obtain st2 kept where
    a2: "a2 = restored_manager st2 kept" "kept = None \<or> kept = Some old"
    using held assms(7) by auto
  then have "case kept of None \<Rightarrow> True | Some c \<Rightarrow> cr_refresh_pending c" using p by auto
  moreover have "am_cred a2 = old \<or> am_cred a2 = empty_credential"
    using a2 by (auto simp: restored_manager_def new_auth_manager_def)
  ultimately show ?thesis unfolding a2(1) using restored_never_exchanges by blast
qed

text \<open>When no call fails and the lock is free, the manager of a private store opens.\<close>

lemma load_file_ok:
  assumes "no_faults os" "ds_files d (path_dir p) = Some (Directory mode_dir)"
    and "ds_files d p = Some (snapshot data)" "length data \<le> size_limit" "load_bytes co data = Inr c"
  shows "\<exists>d'. load os co p d = (d', Inr c) \<and> ds_files d' = ds_files d"
proof -
  from read_file_ok [OF assms(1-4)] obtain d' where
    "read_credential_file os p d = (d', Inr data)" "ds_files d' = ds_files d" by blast
  then show ?thesis using assms(5) by (simp add: load_def abind_def areturn_def)
qed

lemma open_manager_ok:
  assumes os: "no_faults (ax_os ax)" and p: "credential_path (Inr dir) = Inr p"
    and d: "ds_owner d = (\<lambda>l. None)" "ds_files d (path_dir p) = Some (Directory mode_dir)"
      "ds_files d (p @ ''.lock'') = None" "ds_files d p = Some (snapshot data)"
    and data: "length data \<le> size_limit" "load_bytes (ax_codec ax) data = Inr c"
  shows "\<exists>d' l. open_manager ax (Inr dir) pid d
    = (d', Inr (restored_manager \<lparr>st_path = p, st_open = True, st_pid = pid, st_lock = l\<rparr> (Some c)))"
proof -
  let ?os = "ax_os ax"
  obtain d1 where d1: "checked_credential_dir ?os (path_dir p) True d = (d1, Inr ())" "ds_files d1 = ds_files d"
    using checked_dir_ok [OF os d(2), of True] by blast
  have o1: "ds_owner d1 = (\<lambda>l. None)" using keepsD [OF keeps_owner_check d1(1)] d(1) by simp
  define d2 where "d2 = tick ((ds_files d)(p @ ''.lock'' \<mapsto> Regular mode_file [])) d1"
  define l where "l = (p @ ''.lock'', file_id d2 (p @ ''.lock''))"
  have lo: "sys_open_lock ?os (p @ ''.lock'') d1 = (d2, Inr (Regular mode_file [], l))"
    using d(3) d1(2) by (simp add: sys_open_lock_def syscall_ok [OF os] d2_def l_def)
  define d3 where "d3 = tick (ds_files d2) d2"
  have f: "sys_fd ?os (Regular mode_file []) d2 = (d3, Inr (Regular mode_file []))"
    by (simp add: sys_fd_def syscall_ok [OF os] d3_def)
  have w: "open_writer_lock ?os (Inr dir) d = (d3, Inr (p, l))"
    unfolding open_writer_lock_def p sum.case
    by (simp add: abind_def map_err_def d1(1) lo f lock_safe_def areturn_def)
  define d4 where "d4 = (tick (ds_files d3) d3)\<lparr>ds_owner := [l \<mapsto> pid]\<rparr>"
  have k: "sys_flock ?os l pid d3 = (d4, Inr ())"
    using o1 os by (simp add: sys_flock_def no_faults_def d4_def d3_def d2_def)
  have ne: "p @ ''.lock'' \<noteq> path_dir p"
    using p by (auto simp: credential_path_def path_dir_auth split: if_splits dest: arg_cong [of _ _ length])
  have files: "ds_files d4 p = Some (snapshot data)" "ds_files d4 (path_dir p) = Some (Directory mode_dir)"
    using d ne by (simp_all add: d4_def d3_def d2_def)
  obtain d5 where d5: "load ?os (ax_codec ax) p d4 = (d5, Inr c)" "ds_files d5 = ds_files d4"
    using load_file_ok [OF os files(2,1) data] by blast
  obtain d6 where d6: "load ?os (ax_codec ax) p d5 = (d6, Inr c)"
    using load_file_ok [OF os, of d5 p data] files d5(2) data by metis
  have "take_writer_lock ?os (ax_codec ax) pid (p, l) d3
      = (d5, Inr \<lparr>st_path = p, st_open = True, st_pid = pid, st_lock = l\<rparr>)"
    by (simp add: take_writer_lock_def abind_def map_err_def k d5(1))
  then have "open_credential_store ?os (ax_codec ax) (Inr dir) pid d
      = (d5, Inr \<lparr>st_path = p, st_open = True, st_pid = pid, st_lock = l\<rparr>)"
    by (simp add: open_credential_store_def abind_def w)
  then have "open_manager ax (Inr dir) pid d
      = (d6, Inr (restored_manager \<lparr>st_path = p, st_open = True, st_pid = pid, st_lock = l\<rparr> (Some c)))"
    by (simp add: open_manager_def d6)
  then show ?thesis by blast
qed

section \<open>What a caller gets\<close>

lemma get_fresh_unexpired:
  assumes "get_fresh now a"
  shows "cr_expires_at (am_cred a) = 0 \<or> now 1 < cr_expires_at (am_cred a) \<or> now 2 < cr_expires_at (am_cred a)"
  using assms by (auto simp: get_fresh_def minute_def second_def)

lemma get_enter_got:
  assumes "get_enter ax now a d = (a', d', Got c g None)"
  shows "c = am_cred a \<and> g = am_generation a \<and> cr_token c \<noteq> [] \<and> am_cred a' = am_cred a
    \<and> (cr_expires_at c = 0 \<or> (\<exists>k. now k < cr_expires_at c))"
proof -
  have tok: "cr_token (am_cred a) \<noteq> []" using assms by (auto simp: get_enter_def)
  show ?thesis
  proof (cases "am_refresh_err a")
    case (Some e)
    then show ?thesis using assms tok by (auto simp: get_enter_def unexpired_def split: if_splits)
  next
    case None
    show ?thesis
    proof (cases "get_fresh now a")
      case True
      then show ?thesis using assms tok None get_fresh_unexpired [OF True] by (auto simp: get_enter_def)
    next
      case False
      then have "am_refreshing a = None" "get_fence ax now a d = (a', d', Got c g None)"
        using assms tok None by (cases "am_refreshing a"; simp add: get_enter_def)+
      moreover obtain st where "am_store a = Some st"
        using calculation(2) by (cases "am_store a") (auto simp: get_fence_def start_exchange_def)
      moreover obtain d1 r where "save (ax_os ax) (ax_codec ax) st ((am_cred a)\<lparr>cr_refresh_pending := True\<rparr>) d = (d1, r)"
        by fastforce
      ultimately show ?thesis using tok
        by (cases r) (auto simp: get_fence_def start_exchange_def unexpired_def Let_def split: if_splits)
    qed
  qed
qed

lemma finish_current_usable:
  assumes "finish_current ax now cx old answer a d = (a', d', oc)" "oc_usable oc" "oc_err oc \<noteq> None"
  shows "unexpired (now 0) old"
  using assms
  by (auto simp: finish_current_def finish_answered_def finish_failed_def
      split: option.splits sum.splits prod.splits if_splits)

lemma get_finish_returns:
  assumes "get_finish ax now cx old g answer a d = (a', d', Returns c g' None)"
  shows "c = old \<and> g' = g \<and> am_generation a = g \<and> unexpired (now 0) old \<and> cx 2 = None"
proof -
  have g: "am_generation a = g" using assms by (auto simp: get_finish_def split: if_splits)
  obtain a1 d1 oc where f: "finish_current ax now cx old answer a d = (a1, d1, oc)" by (metis prod_cases3)
  show ?thesis
    using assms g f finish_current_usable [OF f]
    by (auto simp: get_finish_def split: option.splits if_splits)
qed

text \<open>
  \<open>get\<close> hands out no dead credential. Whenever it returns one without an error, before or
  after an exchange, it is the manager's own of that generation with an access token, and it
  either has no expiry or was not expired at a reading of the clock in that very section.
\<close>

theorem get_returns_usable:
  "(get_enter ax now a d = (a1, d1, Got c g None) \<longrightarrow>
      c = am_cred a \<and> g = am_generation a \<and> cr_token c \<noteq> []
      \<and> (cr_expires_at c = 0 \<or> (\<exists>k. now k < cr_expires_at c)))
   \<and> (get_finish ax now cx old g' answer a d = (a2, d2, Returns c2 g2 None) \<longrightarrow>
      c2 = old \<and> g2 = am_generation a \<and> cr_expires_at c2 \<noteq> 0 \<and> now 0 < cr_expires_at c2)"
  using get_enter_got [of ax now a d a1 d1 c g] get_finish_returns [of ax now cx old g' answer a d a2 d2 c2 g2]
  by (auto simp: unexpired_def)

section \<open>Publishing a login\<close>

lemma save_reconciled_held:
  assumes "save_reconciled ax (Some st) c d = (d', published, e)" "good_store (ax_os ax) (ax_codec ax) st"
  shows "if published then held_at (ax_codec ax) (st_path st) d' = Some c
    else (held_at (ax_codec ax) (st_path st) d' = held_at (ax_codec ax) (st_path st) d
      \<or> held_at (ax_codec ax) (st_path st) d' = Some c) \<and> e \<noteq> None"
proof -
  obtain d1 r where sv: "save (ax_os ax) (ax_codec ax) st c d = (d1, r)" by fastforce
  with assms(1) have rc: "reconcile_published (load (ax_os ax) (ax_codec ax) (st_path st)) c r d1 = (d', published, e)"
    by (simp add: save_reconciled_def)
  show ?thesis
    using cs.published_held [OF assms(2) sv, of d' e] cs.unpublished_held [OF assms(2) sv, of d' e] rc
    by (cases published) auto
qed

definition login_open :: "int \<Rightarrow> string \<Rightarrow> login_attempt \<Rightarrow> auth_manager \<Rightarrow> bool" where
  "login_open now s p a \<longleftrightarrow> la_generation p = am_generation a \<and> am_latest a = s
     \<and> lr_status (result_at a s) = ''pending'' \<and> now < lr_expires (result_at a s)"

text \<open>The save of a login and the read back that follows a failed one.\<close>

definition save_attempt :: "auth_ctx \<Rightarrow> store \<Rightarrow> credential \<Rightarrow> disk \<Rightarrow> disk \<times> unit res" where
  "save_attempt ax st c d = save (ax_os ax) (ax_codec ax) st c d"

definition read_back :: "auth_ctx \<Rightarrow> store \<Rightarrow> disk \<Rightarrow> disk \<times> credential res" where
  "read_back ax st d = load (ax_os ax) (ax_codec ax) (st_path st) d"

lemma load_device_key:
  assumes "load os co p d = (d', Inr c)"
  shows "cr_device_key c \<noteq> None"
proof -
  obtain data where "load_bytes co data = Inr c"
    using assms by (auto simp: load_def abind_def areturn_def split: prod.splits sum.splits)
  then show ?thesis
    by (auto simp: load_bytes_def rbind_def Let_def split: sum.splits option.splits if_splits private_key.splits)
qed

lemma save_reconciled_cases:
  assumes "save_reconciled ax (Some st) c d = (d', published, e)"
  shows "(published \<and> e = None \<and> save_attempt ax st c d = (d', Inr ()))
    \<or> (\<exists>d1 err r. save_attempt ax st c d = (d1, Inl err) \<and> read_back ax st d1 = (d', r) \<and> e \<noteq> None
          \<and> (published \<longleftrightarrow> r = Inr c))"
proof -
  obtain d1 r where sv: "save (ax_os ax) (ax_codec ax) st c d = (d1, r)" by fastforce
  show ?thesis
  proof (cases r)
    case (Inr u)
    then show ?thesis using assms sv by (simp add: save_reconciled_def reconcile_published_def save_attempt_def)
  next
    case (Inl err)
    obtain d2 q where l: "load (ax_os ax) (ax_codec ax) (st_path st) d1 = (d2, q)" by fastforce
    have same: "same_credential c' c \<longleftrightarrow> c' = c" if "q = Inr c'" for c'
      using same_credential_eq load_device_key [of "ax_os ax" "ax_codec ax" "st_path st" d1 d2 c'] l that
      by (auto simp: same_credential_def)
    have "read_back ax st d1 = (d', q)" "e \<noteq> None" "published \<longleftrightarrow> q = Inr c"
      using assms Inl sv l same
      by (cases q; auto simp: save_reconciled_def reconcile_published_def read_back_def split: if_splits)+
    then show ?thesis using sv Inl by (auto simp: save_attempt_def)
  qed
qed

text \<open>
  C26. A login takes effect exactly when it is still the latest one, its generation is current,
  it is pending and not expired, the request has not ended, and its credential gets to the disk: the
  save succeeds, or it fails and reading back finds that very credential. Then the manager and
  the store hold it, the generation moves on, and the status tells which of the two it was.
  In every other case the manager is as before: a login that is no longer open is refused
  without touching the disk, one whose save failed and is not found there is told so.
\<close>

theorem commit_login_effect:
  assumes "commit_login ax now ctx_err s p c a d = (a', d', status, pg)"
    and "am_store a = Some st" "good_store (ax_os ax) (ax_codec ax) st"
  shows "(if pg = LoginDone \<or> pg = Durability
    then ctx_err = None \<and> login_open now s p a
      \<and> am_cred a' = c \<and> held_at (ax_codec ax) (st_path st) d' = Some c
      \<and> am_generation a' = am_generation a + 1 \<and> am_refresh_err a' = None
      \<and> am_uncertain a' = (pg = Durability) \<and> status = (if pg = LoginDone then 200 else 503)
      \<and> lr_status (result_at a' s) = (if pg = LoginDone then ''completed'' else ''durability_uncertain'')
    else a' = a \<and> (pg = LoginChanged \<and> d' = d \<and> status = 400
      \<or> pg = SaveFailed \<and> login_open now s p a \<and> status = 503))
    \<and> (pg = LoginChanged \<longleftrightarrow> \<not> (ctx_err = None \<and> login_open now s p a))
    \<and> (pg = LoginDone \<longleftrightarrow> ctx_err = None \<and> login_open now s p a \<and> (\<exists>d1. save_attempt ax st c d = (d1, Inr ())))
    \<and> (pg = Durability \<longleftrightarrow> ctx_err = None \<and> login_open now s p a
        \<and> (\<exists>d1 e d2. save_attempt ax st c d = (d1, Inl e) \<and> read_back ax st d1 = (d2, Inr c)))"
proof (cases "ctx_err = None \<and> login_open now s p a")
  case False
  then have "a' = a \<and> d' = d \<and> status = 400 \<and> pg = LoginChanged"
    using assms(1) by (auto simp: commit_login_def login_open_def)
  then show ?thesis using False by auto
next
  case True
  obtain d1 pub e where sr: "save_reconciled ax (am_store a) c d = (d1, pub, e)" by (metis prod_cases3)
  note h = save_reconciled_held [OF sr [unfolded assms(2)] assms(3)] save_reconciled_cases [OF sr [unfolded assms(2)]]
  have run: "commit_login ax now ctx_err s p c a d =
     (if \<not> pub then (a, d1, (503, SaveFailed))
      else (set_status s (if e \<noteq> None then ''durability_uncertain'' else ''completed'')
                  (a\<lparr>am_cred := c, am_generation := am_generation a + 1, am_refresh_err := None,
                     am_uncertain := (e \<noteq> None)\<rparr>),
                d1, if e \<noteq> None then (503, Durability) else (200, LoginDone)))"
    using True by (simp add: commit_login_def login_open_def sr)
  have st: "result_at (set_status s v b) s = (result_at b s)\<lparr>lr_status := v\<rparr>" for v b
    by (simp add: set_status_def result_at_def)
  have first: "if pg = LoginDone \<or> pg = Durability
    then ctx_err = None \<and> login_open now s p a
      \<and> am_cred a' = c \<and> held_at (ax_codec ax) (st_path st) d' = Some c
      \<and> am_generation a' = am_generation a + 1 \<and> am_refresh_err a' = None
      \<and> am_uncertain a' = (pg = Durability) \<and> status = (if pg = LoginDone then 200 else 503)
      \<and> lr_status (result_at a' s) = (if pg = LoginDone then ''completed'' else ''durability_uncertain'')
    else a' = a \<and> (pg = LoginChanged \<and> d' = d \<and> status = 400
      \<or> pg = SaveFailed \<and> login_open now s p a \<and> status = 503)"
    using assms(1) True h(1) unfolding run
    by (cases pub; cases e) (auto simp: st, auto simp: set_status_def)
  have pg: "pg = (if \<not> pub then SaveFailed else if e = None then LoginDone else Durability)"
    using assms(1) unfolding run by (auto split: if_splits)
  from h(2) show ?thesis
  proof
    assume "pub \<and> e = None \<and> save_attempt ax st c d = (d1, Inr ())"
    then show ?thesis using first True pg by simp
  next
    assume "\<exists>d2 err r. save_attempt ax st c d = (d2, Inl err) \<and> read_back ax st d2 = (d1, r) \<and> e \<noteq> None \<and> (pub \<longleftrightarrow> r = Inr c)"
    then obtain d2 err r where r: "save_attempt ax st c d = (d2, Inl err)" "read_back ax st d2 = (d1, r)" "e \<noteq> None"
      "pub \<longleftrightarrow> r = Inr c" by blast
    have rest: "pg = (if r = Inr c then Durability else SaveFailed)"
      using pg r(3,4) by (cases "r = Inr c") simp_all
    show ?thesis using first True rest r(1,2) by auto
  qed
qed

section \<open>Revoking\<close>

text \<open>
  C27. A rejected credential is not served again. After a definitive rejection that reports no
  failure of the disk, the API's reader returns no credential from then on, whatever happens to
  its system calls, and the manager asks for a login.
\<close>

theorem rejected_not_served:
  assumes "finish_failed ax now old LoginRequired a d = (a', d', oc)" "oc_err oc = Some LoginRequired"
    and "am_store a = Some st" "good_store (ax_os ax) (ax_codec ax) st"
    and "credential_path (Inr dir) = Inr (st_path st)" "now 0 \<le> later"
  shows "(\<exists>e. snd (read_api_credential os (ax_codec ax) (Inr dir) later d') = Inl e)
    \<and> (\<forall>now2 d2. cr_token (am_cred a) \<noteq> [] \<longrightarrow>
         get_enter ax now2 a' d2 = (a', d2, Got empty_credential 0 (Some LoginRequired)))"
proof -
  let ?inv = "invalidated (now 0) old"
  from assms(1-3) have rv: "revoke (\<lambda>d c. save (ax_os ax) (ax_codec ax) st c d)
      (\<lambda>d token. quarantine_rejected (ax_os ax) (ax_codec ax) st token d) ?inv (cr_token old) LoginRequired d
      = (d', LoginRequired)" and a': "a' = a\<lparr>am_refresh_err := Some LoginRequired\<rparr>"
    by (auto simp: finish_failed_def revoke_on_disk_def split: prod.splits)
  have gone: "held_at (ax_codec ax) (st_path st) d' = Some ?inv \<or> ds_files d' (st_path st) = None"
    using cs.revoke_held [OF assms(4) rv] by simp
  have "\<exists>e. snd (read_api_credential os (ax_codec ax) (Inr dir) later d') = Inl e"
  proof -
    obtain d1 r where rd: "read_credential_file os (st_path st) d' = (d1, r)" by fastforce
    show ?thesis
    proof (cases r)
      case (Inl e)
      then show ?thesis by (simp add: read_api_credential_def assms(5) rd)
    next
      case (Inr bytes)
      then obtain m where "ds_files d' (st_path st) = Some (Regular m bytes)"
        using read_file_source rd by blast
      with gone have "load_bytes (ax_codec ax) bytes = Inr ?inv"
        by (auto simp: held_at_def split: sum.splits)
      then have "api_bytes (ax_codec ax) later bytes = Inl LoginRequired"
        using assms(6) by (simp add: api_bytes_loaded invalidated_def second_def)
      then show ?thesis using Inr by (simp add: read_api_credential_def assms(5) rd)
    qed
  qed
  then show ?thesis using a' by (simp add: get_enter_def)
qed

section \<open>Examples\<close>

text \<open>A manager whose credential is due for a refresh.\<close>

definition sample_ax :: auth_ctx where
  "sample_ax = \<lparr>ax_env = sample_auth_env, ax_os = sample_os, ax_codec = sample_codec, ax_config = default_config\<rparr>"

definition sample_manager :: auth_manager where
  "sample_manager = new_auth_manager\<lparr>am_cred := sample_credential, am_store := Some sample_store,
     am_latest := ''s'', am_results := [(''s'', \<lparr>lr_status = ''pending'', lr_expires = 5\<rparr>)]\<rparr>"

definition due :: clock where
  "due k = (if k = 3 then minute else 0)"

definition sample_pending :: credential where
  "sample_pending = sample_credential\<lparr>cr_refresh_pending := True\<rparr>"

definition fenced :: "auth_manager \<times> disk \<times> entered" where
  "fenced = get_enter sample_ax due sample_manager sample_disk"

definition fenced_disk :: disk where
  "fenced_disk = fst (snd fenced)"

lemma fenced_enters: "get_enter sample_ax due sample_manager sample_disk = (fst fenced, fenced_disk, Exchanges sample_pending 0 0)"
proof -
  have "snd (snd fenced) = Exchanges sample_pending 0 0" by code_simp
  then show ?thesis by (simp add: fenced_disk_def fenced_def [symmetric] prod_eq_iff)
qed

lemma sample_good: "good_store (ax_os sample_ax) (ax_codec sample_ax) sample_store"
  using sample_codec_ok sample_store_ok by (simp add: good_store_def sample_ax_def honest_def sample_os_def)

lemma sample_manager_store: "am_store sample_manager = Some sample_store"
  by (simp add: sample_manager_def)

theorem fence_before_send_witness:
  "held_at sample_codec (st_path sample_store) fenced_disk = Some sample_pending"
  using fence_before_send [OF fenced_enters sample_manager_store sample_good] by (simp add: sample_ax_def)

lemma fenced_files: "\<exists>data. ds_files fenced_disk ''/h/trae-api/auth.json'' = Some (snapshot data)
    \<and> length data \<le> size_limit \<and> load_bytes sample_codec data = Inr sample_pending"
proof -
  have e: "\<exists>s. save_bytes sample_codec sample_pending = Inr s \<and> length s \<le> size_limit
      \<and> ds_files fenced_disk ''/h/trae-api/auth.json'' = Some (snapshot s)"
  proof (cases "save_bytes sample_codec sample_pending")
    case (Inl x)
    moreover have "\<not> isl (save_bytes sample_codec sample_pending)" by code_simp
    ultimately show ?thesis by simp
  next
    case (Inr s)
    moreover have "length (projr (save_bytes sample_codec sample_pending)) \<le> size_limit" by code_simp
    moreover have "ds_files fenced_disk ''/h/trae-api/auth.json''
      = Some (snapshot (projr (save_bytes sample_codec sample_pending)))" by code_simp
    ultimately show ?thesis by simp
  qed
  then show ?thesis using save_load_bytes [OF sample_codec_ok] by blast
qed

theorem crash_never_resends_witness:
  "\<exists>d a. open_manager sample_ax (Inr ''/h'') 7 (fenced_disk\<lparr>ds_owner := (\<lambda>l. None)\<rparr>) = (d, Inr a)
    \<and> (am_cred a = sample_pending \<or> am_cred a = empty_credential)
    \<and> get_enter sample_ax due a d = (a, d, Got sample_pending 0 None)"
proof -
  let ?d = "fenced_disk\<lparr>ds_owner := (\<lambda>l. None)\<rparr>" and ?p = "''/h/trae-api/auth.json''"
  let ?st = "\<lambda>l. \<lparr>st_path = ?p, st_open = True, st_pid = 7, st_lock = l\<rparr>"
  obtain data where data: "ds_files ?d ?p = Some (snapshot data)" "length data \<le> size_limit"
    "load_bytes (ax_codec sample_ax) data = Inr sample_pending"
    using fenced_files by (auto simp: sample_ax_def)
  have nf: "no_faults (ax_os sample_ax)" using sample_no_faults by (simp add: sample_ax_def)
  have fs: "ds_files ?d (path_dir ?p) = Some (Directory mode_dir)" "ds_files ?d (?p @ ''.lock'') = None"
    by code_simp+
  have ow: "ds_owner ?d = (\<lambda>l. None)" by simp
  have cp: "credential_path (Inr ''/h'') = Inr ?p" by (simp add: credential_path_def)
  obtain d2 l where o: "open_manager sample_ax (Inr ''/h'') 7 ?d = (d2, Inr (restored_manager (?st l) (Some sample_pending)))"
    using open_manager_ok [OF nf cp ow fs data] by blast
  have "get_enter sample_ax due (restored_manager (?st l) (Some sample_pending)) d2
      = (restored_manager (?st l) (Some sample_pending), d2, Got sample_pending 0 None)"
    by (simp add: get_enter_def restored_manager_def new_auth_manager_def sample_pending_def sample_credential_def
        unexpired_def due_def)
  moreover have "am_cred (restored_manager (?st l) (Some sample_pending)) = sample_pending
      \<or> am_cred (restored_manager (?st l) (Some sample_pending)) = empty_credential"
    using crash_never_resends [OF fenced_enters sample_manager_store sample_good _ _ o] cp
    by (simp add: sample_store_def)
  ultimately show ?thesis using o by blast
qed

theorem get_returns_usable_witness:
  "snd (snd (get_enter sample_ax (\<lambda>k. 1) sample_manager sample_disk)) = Got sample_credential 0 None
   \<and> (\<exists>k. (\<lambda>k. 1 :: int) k < cr_expires_at sample_credential)"
proof -
  have e: "get_enter sample_ax (\<lambda>k. 1) sample_manager sample_disk = (sample_manager, sample_disk, Got sample_credential 0 None)"
    by (simp add: get_enter_def sample_manager_def new_auth_manager_def sample_credential_def get_fresh_def
        minute_def second_def)
  have "cr_expires_at sample_credential \<noteq> 0" by (simp add: sample_credential_def)
  then show ?thesis
    using get_returns_usable [of sample_ax "\<lambda>k. 1" sample_manager sample_disk sample_manager sample_disk sample_credential 0] e
    by auto
qed

definition sample_attempt :: login_attempt where
  "sample_attempt = \<lparr>la_expires = 5, la_device = ''d'', la_machine = ''m'', la_key = \<lparr>dk_p256 = True, dk_id = 1\<rparr>,
     la_generation = 0\<rparr>"

theorem commit_login_effect_witness:
  "case commit_login sample_ax 1 None ''s'' sample_attempt sample_credential sample_manager sample_disk of
     (a, d, r) \<Rightarrow> r = (200, LoginDone) \<and> am_generation a = 1
       \<and> held_at sample_codec (st_path sample_store) d = Some sample_credential"
proof -
  obtain a d r pg where c: "commit_login sample_ax 1 None ''s'' sample_attempt sample_credential sample_manager sample_disk
      = (a, d, r, pg)" by (metis prod_cases4)
  have "snd (snd (commit_login sample_ax 1 None ''s'' sample_attempt sample_credential sample_manager sample_disk))
      = (200, LoginDone)"
    using sample_save
    by (simp add: commit_login_def sample_manager_def new_auth_manager_def sample_attempt_def result_at_def
        save_reconciled_def reconcile_published_def sample_ax_def)
  then have "r = 200" "pg = LoginDone" using c by simp_all
  moreover have g: "am_generation sample_manager = 0" by (simp add: sample_manager_def new_auth_manager_def)
  ultimately show ?thesis
    using commit_login_effect [OF c sample_manager_store sample_good, THEN conjunct1] c g
    by (simp add: sample_ax_def)
qed

theorem rejected_not_served_witness:
  "\<exists>e. snd (read_api_credential sample_os sample_codec (Inr ''/h'') (second + 1)
      (fst (snd (finish_failed sample_ax (\<lambda>k. second + 1) sample_pending LoginRequired sample_manager sample_disk)))) = Inl e"
proof -
  obtain a d oc where f: "finish_failed sample_ax (\<lambda>k. second + 1) sample_pending LoginRequired sample_manager sample_disk = (a, d, oc)"
    by (metis prod_cases3)
  have "snd (save sample_os sample_codec sample_store (invalidated (second + 1) sample_pending) sample_disk) = Inr ()"
    by code_simp
  then have oc: "oc_err oc = Some LoginRequired"
    using f by (cases "save sample_os sample_codec sample_store (invalidated (second + 1) sample_pending) sample_disk")
      (auto simp: finish_failed_def revoke_on_disk_def revoke_def sample_manager_store sample_ax_def)
  have cp: "credential_path (Inr ''/h'') = Inr (st_path sample_store)" by (rule sample_path)
  show ?thesis
    using rejected_not_served [OF f oc sample_manager_store sample_good cp, of "second + 1"] f
    by (simp add: sample_ax_def)
qed

end
