(* ===== verification/AuthMachine.thy ===== *)
theory AuthMachine
  imports AuthManagerCorrect
begin

text \<open>
  The auth manager as a machine: callers of \<open>get\<close>, callbacks of the browser and the other
  requests run section by section, in any order, over one manager, one disk and one server.
  Three invariants: one refresh in flight, no refresh after a failed one, and the login attempts.
\<close>

section \<open>The machine\<close>

datatype get_phase =
    GIdle
  | GTop
  | GWaiting nat
  | GExchanging credential "64 word" nat
  | GAnswered credential "64 word" nat "credential res"
  | GDone credential "64 word" "gerror option"

datatype login_phase = LIdle | LClaimed string login_attempt | LFinishing string

text \<open>\<open>as_failed\<close> is history: a refresh of the current generation has failed.\<close>

record auth_state =
  as_manager :: auth_manager
  as_disk :: disk
  as_log :: "http_request list"
  as_gets :: "nat \<Rightarrow> get_phase"
  as_logins :: "nat \<Rightarrow> login_phase"
  as_failed :: bool

definition entered_phase :: "entered \<Rightarrow> get_phase" where
  "entered_phase r = (case r of Got c g e \<Rightarrow> GDone c g e | Waits ch \<Rightarrow> GWaiting ch
     | Exchanges old g ch \<Rightarrow> GExchanging old g ch)"

definition finished_phase :: "finished \<Rightarrow> get_phase" where
  "finished_phase r = (case r of Again \<Rightarrow> GTop | Returns c g e \<Rightarrow> GDone c g e)"

text \<open>The exchange has failed, and nobody has cancelled it, when its section runs.\<close>

definition fails_now :: "ctx_errs \<Rightarrow> credential res \<Rightarrow> 64 word \<Rightarrow> auth_manager \<Rightarrow> bool" where
  "fails_now cx answer g a \<longleftrightarrow> am_store a \<noteq> None \<and> am_generation a = g
     \<and> cx 0 = None \<and> cx 1 = None \<and> (\<exists>e. answer = Inl e)"

definition login_id :: "login_phase \<Rightarrow> string option" where
  "login_id l = (case l of LIdle \<Rightarrow> None | LClaimed s p \<Rightarrow> Some s | LFinishing s \<Rightarrow> Some s)"

text \<open>\<open>newID\<close> draws sixteen random bytes: the identifier is new.\<close>

definition fresh_login :: "login_env \<Rightarrow> auth_state \<Rightarrow> bool" where
  "fresh_login le s \<longleftrightarrow> le_state le \<noteq> [] \<and> map_of (am_results (as_manager s)) (le_state le) = None
     \<and> (\<forall>j. login_id (as_logins s j) \<noteq> Some (le_state le))
     \<and> (\<forall>rs. mset (le_range le rs) = mset rs)"

inductive auth_step :: "auth_ctx \<Rightarrow> auth_state \<Rightarrow> auth_state \<Rightarrow> bool" for ax where
  get_call: "as_gets s i = GIdle \<or> (\<exists>c g e. as_gets s i = GDone c g e)
    \<Longrightarrow> auth_step ax s (s\<lparr>as_gets := (as_gets s)(i := GTop)\<rparr>)"
| get_section: "as_gets s i = GTop \<Longrightarrow> get_enter ax now (as_manager s) (as_disk s) = (a, d, r)
    \<Longrightarrow> auth_step ax s (s\<lparr>as_manager := a, as_disk := d, as_gets := (as_gets s)(i := entered_phase r)\<rparr>)"
| get_woken: "as_gets s i = GWaiting ch \<Longrightarrow> am_refreshing (as_manager s) \<noteq> Some ch
    \<Longrightarrow> auth_step ax s (s\<lparr>as_gets := (as_gets s)(i := GTop)\<rparr>)"
| get_gives_up: "as_gets s i = GWaiting ch
    \<Longrightarrow> auth_step ax s (s\<lparr>as_gets := (as_gets s)(i := GDone empty_credential 0 (Some e))\<rparr>)"
| get_answer: "as_gets s i = GExchanging old g ch
    \<Longrightarrow> exchange (ax_env ax) (ax_config ax) now old (as_log s) = (log', answer)
    \<Longrightarrow> auth_step ax s (s\<lparr>as_log := log', as_gets := (as_gets s)(i := GAnswered old g ch answer)\<rparr>)"
| get_end: "as_gets s i = GAnswered old g ch answer
    \<Longrightarrow> get_finish ax now cx old g answer (as_manager s) (as_disk s) = (a, d, r)
    \<Longrightarrow> auth_step ax s (s\<lparr>as_manager := a, as_disk := d, as_gets := (as_gets s)(i := finished_phase r),
          as_failed := (as_failed s \<or> fails_now cx answer g (as_manager s))\<rparr>)"
| logs_out: "auth_step ax s (s\<lparr>as_manager := logout (as_manager s), as_failed := False\<rparr>)"
| begins: "fresh_login le s \<Longrightarrow> begin_login le (as_manager s) = (a, r)
    \<Longrightarrow> auth_step ax s (s\<lparr>as_manager := a\<rparr>)"
| claims: "as_logins s j = LIdle \<Longrightarrow> callback_claim now ident (as_manager s) = (a, Some p)
    \<Longrightarrow> auth_step ax s (s\<lparr>as_manager := a, as_logins := (as_logins s)(j := LClaimed ident p)\<rparr>)"
| works: "as_logins s j = LClaimed ident p
    \<Longrightarrow> callback_work ax now req p (as_log s) = (log', Inl pg)
    \<Longrightarrow> auth_step ax s (s\<lparr>as_log := log', as_logins := (as_logins s)(j := LFinishing ident)\<rparr>)"
| commits: "as_logins s j = LClaimed ident p
    \<Longrightarrow> commit_login ax now ctx_err ident p c (as_manager s) (as_disk s) = (a, d, pg)
    \<Longrightarrow> auth_step ax s (s\<lparr>as_manager := a, as_disk := d, as_logins := (as_logins s)(j := LFinishing ident),
          as_failed := (as_failed s \<and> am_generation a = am_generation (as_manager s))\<rparr>)"
| finishes: "as_logins s j = LFinishing ident
    \<Longrightarrow> auth_step ax s (s\<lparr>as_manager := finish_login ident (as_manager s), as_logins := (as_logins s)(j := LIdle)\<rparr>)"
| asks: "status_section now ident (as_manager s) = (a, r) \<Longrightarrow> auth_step ax s (s\<lparr>as_manager := a\<rparr>)"
| cancels: "cancel_section ident (as_manager s) = (a, r) \<Longrightarrow> auth_step ax s (s\<lparr>as_manager := a\<rparr>)"
| listens: "auth_step ax s (s\<lparr>as_manager := (as_manager s)\<lparr>am_callback_url := url\<rparr>\<rparr>)"

definition auth_init :: "auth_state \<Rightarrow> bool" where
  "auth_init s \<longleftrightarrow> (\<exists>st kept. as_manager s = restored_manager st kept)
     \<and> as_gets s = (\<lambda>i. GIdle) \<and> as_logins s = (\<lambda>j. LIdle) \<and> \<not> as_failed s"

section \<open>What the sections leave alone\<close>

text \<open>The part of the manager that the refresh uses.\<close>

definition refresh_part :: "auth_manager \<Rightarrow> nat option \<times> nat \<times> gerror option \<times> 64 word" where
  "refresh_part a = (am_refreshing a, am_channels a, am_refresh_err a, am_generation a)"

lemma set_status_refresh [simp]: "refresh_part (set_status s v a) = refresh_part a"
  by (simp add: refresh_part_def set_status_def)

lemma drop_attempt_refresh [simp]: "refresh_part (drop_attempt s v a) = refresh_part a"
  by (simp add: refresh_part_def drop_attempt_def set_status_def Let_def)

lemma begin_login_refresh: "begin_login le a = (a', r) \<Longrightarrow> refresh_part a' = refresh_part a"
  by (auto simp: begin_login_def refresh_part_def Let_def split: if_splits sum.splits)

lemma claim_refresh: "callback_claim now s a = (a', r) \<Longrightarrow> refresh_part a' = refresh_part a"
  by (auto simp: callback_claim_def refresh_part_def split: option.splits if_splits)

lemma finish_login_refresh [simp]: "refresh_part (finish_login s a) = refresh_part a"
  by (simp add: finish_login_def)

lemma status_refresh: "status_section now s a = (a', r) \<Longrightarrow> refresh_part a' = refresh_part a"
  by (auto simp: status_section_def split: option.splits if_splits)

lemma cancel_refresh: "cancel_section s a = (a', r) \<Longrightarrow> refresh_part a' = refresh_part a"
  by (auto simp: cancel_section_def split: option.splits if_splits)

lemma commit_refresh:
  assumes "commit_login ax now ctx_err s p c a d = (a', d', pg)"
  shows "am_refreshing a' = am_refreshing a \<and> am_channels a' = am_channels a
    \<and> (am_generation a' = am_generation a \<and> am_refresh_err a' = am_refresh_err a
       \<or> am_generation a' = am_generation a + 1 \<and> am_refresh_err a' = None)"
  using assms by (auto simp: commit_login_def set_status_def split: if_splits prod.splits)

section \<open>One refresh at a time\<close>

definition flight :: "get_phase \<Rightarrow> nat option" where
  "flight p = (case p of GExchanging old g ch \<Rightarrow> Some ch | GAnswered old g ch r \<Rightarrow> Some ch | _ \<Rightarrow> None)"

definition refresh_inv :: "auth_state \<Rightarrow> bool" where
  "refresh_inv s \<longleftrightarrow>
     (\<forall>i ch. flight (as_gets s i) = Some ch \<longrightarrow> am_refreshing (as_manager s) = Some ch) \<and>
     (\<forall>i j. flight (as_gets s i) \<noteq> None \<longrightarrow> flight (as_gets s j) \<noteq> None \<longrightarrow> i = j) \<and>
     (\<forall>ch. am_refreshing (as_manager s) = Some ch \<longrightarrow> ch < am_channels (as_manager s) \<and> (\<exists>i. flight (as_gets s i) = Some ch)) \<and>
     (\<forall>i ch. as_gets s i = GWaiting ch \<longrightarrow> ch < am_channels (as_manager s)) \<and>
     (as_failed s \<longrightarrow> am_refresh_err (as_manager s) \<noteq> None \<and> (\<forall>i. flight (as_gets s i) = None))"

text \<open>How each kind of step moves the machine, as far as the refresh is concerned.\<close>

lemma get_enter_refresh:
  assumes "get_enter ax now a d = (a', d', r)"
  shows "case r of
      Got c g e \<Rightarrow> refresh_part a' = refresh_part a
    | Waits ch \<Rightarrow> refresh_part a' = refresh_part a \<and> am_refreshing a = Some ch
    | Exchanges old g ch \<Rightarrow> am_refreshing a = None \<and> am_refresh_err a = None
        \<and> am_refreshing a' = Some ch \<and> am_channels a = ch \<and> am_channels a' = Suc ch"
proof (cases r)
  case (Exchanges old g ch)
  note e = get_enter_exchanges [OF assms [unfolded Exchanges]]
  then have "get_fence ax now a d = (a', d', Exchanges old g ch)" by simp
  from get_fence_exchanges [OF this] e Exchanges show ?thesis by simp
next
  case (Waits ch)
  have "get_fence ax now a d \<noteq> (a', d', Waits ch)"
    by (auto simp: get_fence_def start_exchange_def Let_def split: option.splits sum.splits prod.splits)
  then show ?thesis using assms Waits
    by (auto simp: get_enter_def refresh_part_def split: option.splits if_splits)
next
  case (Got c g e)
  have "refresh_part a' = refresh_part a" if "get_fence ax now a d = (a', d', Got c g e)"
    using that by (auto simp: get_fence_def start_exchange_def Let_def refresh_part_def
        split: option.splits sum.splits prod.splits)
  then show ?thesis using assms Got
    by (auto simp: get_enter_def split: option.splits if_splits)
qed

lemma finish_answered_refresh:
  "finish_answered ax now old fresh a d = (a', d', oc) \<Longrightarrow>
    am_channels a' = am_channels a \<and> am_generation a' = am_generation a"
  by (auto simp: finish_answered_def split: prod.splits if_splits)

lemma finish_failed_refresh:
  "finish_failed ax now old e a d = (a', d', oc) \<Longrightarrow>
    am_channels a' = am_channels a \<and> am_generation a' = am_generation a
    \<and> (am_store a \<noteq> None \<longrightarrow> am_refresh_err a' \<noteq> None)"
  by (auto simp: finish_failed_def split: prod.splits if_splits)

lemma get_finish_refresh:
  assumes "get_finish ax now cx old g answer a d = (a', d', r)"
  shows "am_refreshing a' = None \<and> am_channels a' = am_channels a \<and> am_generation a' = am_generation a
    \<and> (fails_now cx answer g a \<longrightarrow> am_refresh_err a' \<noteq> None)"
proof (cases "am_generation a = g")
  case False
  then show ?thesis using assms by (auto simp: get_finish_def fails_now_def)
next
  case True
  obtain a1 d1 oc where f: "finish_current ax now cx old answer a d = (a1, d1, oc)" by (metis prod_cases3)
  have "am_channels a1 = am_channels a \<and> am_generation a1 = am_generation a
      \<and> (fails_now cx answer g a \<longrightarrow> am_refresh_err a1 \<noteq> None)"
    using f finish_answered_refresh finish_failed_refresh
    by (auto simp: finish_current_def fails_now_def split: sum.splits if_splits option.splits)
  moreover have "a' = a1\<lparr>am_refreshing := None\<rparr>" using assms True f by (simp add: get_finish_def)
  ultimately show ?thesis by simp
qed

text \<open>The invariant as a whole is about these parts of the state.\<close>

lemma refresh_invI:
  assumes "\<And>i ch. flight (gs i) = Some ch \<Longrightarrow> am_refreshing m = Some ch"
    and "\<And>i j. flight (gs i) \<noteq> None \<Longrightarrow> flight (gs j) \<noteq> None \<Longrightarrow> i = j"
    and "\<And>ch. am_refreshing m = Some ch \<Longrightarrow> ch < am_channels m \<and> (\<exists>i. flight (gs i) = Some ch)"
    and "\<And>i ch. gs i = GWaiting ch \<Longrightarrow> ch < am_channels m"
    and "as_failed s \<Longrightarrow> am_refresh_err m \<noteq> None \<and> (\<forall>i. flight (gs i) = None)"
    and "as_manager s = m" "as_gets s = gs"
  shows "refresh_inv s"
  unfolding refresh_inv_def using assms by blast

lemma refresh_invD:
  assumes "refresh_inv s"
  shows "flight (as_gets s i) = Some ch \<Longrightarrow> am_refreshing (as_manager s) = Some ch"
    "flight (as_gets s i) \<noteq> None \<Longrightarrow> flight (as_gets s j) \<noteq> None \<Longrightarrow> i = j"
    "am_refreshing (as_manager s) = Some ch \<Longrightarrow> ch < am_channels (as_manager s)"
    "am_refreshing (as_manager s) = Some ch \<Longrightarrow> \<exists>i. flight (as_gets s i) = Some ch"
    "as_gets s i = GWaiting ch \<Longrightarrow> ch < am_channels (as_manager s)"
    "as_failed s \<Longrightarrow> am_refresh_err (as_manager s) \<noteq> None"
    "as_failed s \<Longrightarrow> flight (as_gets s i) = None"
  using assms unfolding refresh_inv_def by metis+

text \<open>A step that touches no caller of \<open>get\<close> and nothing the refresh uses, or only resets.\<close>

lemma refresh_inv_other:
  assumes inv: "refresh_inv s" and gs: "as_gets s' = as_gets s"
    and r: "am_refreshing (as_manager s') = am_refreshing (as_manager s)"
    and c: "am_channels (as_manager s') = am_channels (as_manager s)"
    and f: "as_failed s' \<Longrightarrow> as_failed s \<and> am_refresh_err (as_manager s') = am_refresh_err (as_manager s)"
  shows "refresh_inv s'"
proof -
  note D = refresh_invD [OF inv]
  show ?thesis
  proof (rule refresh_invI [where s = s' and gs = "as_gets s'" and m = "as_manager s'"])
    show "am_refreshing (as_manager s') = Some ch" if "flight (as_gets s' j) = Some ch" for j ch
      using that D(1) by (simp add: gs r)
    show "j = k" if "flight (as_gets s' j) \<noteq> None" "flight (as_gets s' k) \<noteq> None" for j k
      using that D(2) by (simp add: gs)
    show "ch < am_channels (as_manager s') \<and> (\<exists>i. flight (as_gets s' i) = Some ch)"
      if "am_refreshing (as_manager s') = Some ch" for ch
      using that D(3,4) by (simp add: gs r c)
    show "ch < am_channels (as_manager s')" if "as_gets s' j = GWaiting ch" for j ch
      using that D(5) by (simp add: gs c)
    show "am_refresh_err (as_manager s') \<noteq> None \<and> (\<forall>i. flight (as_gets s' i) = None)" if "as_failed s'"
      using f [OF that] D(6,7) by (simp add: gs)
  qed simp_all
qed

lemma refresh_inv_part:
  assumes "refresh_inv s" "as_gets s' = as_gets s" "as_failed s' = as_failed s"
    and "refresh_part (as_manager s') = refresh_part (as_manager s)"
  shows "refresh_inv s'"
  using assms by (intro refresh_inv_other [OF assms(1,2)]) (simp_all add: refresh_part_def)

text \<open>A caller that neither starts nor ends an exchange.\<close>

lemma refresh_inv_move:
  assumes inv: "refresh_inv s" and gs: "as_gets s' = (as_gets s)(i := p)" and f: "as_failed s' = as_failed s"
    and m: "refresh_part (as_manager s') = refresh_part (as_manager s)"
    and fl: "flight p = flight (as_gets s i)" and w: "\<And>ch. p = GWaiting ch \<Longrightarrow> ch < am_channels (as_manager s)"
  shows "refresh_inv s'"
proof -
  have flights: "flight (as_gets s' j) = flight (as_gets s j)" for j using gs fl by simp
  note D = refresh_invD [OF inv]
  have m': "am_refreshing (as_manager s') = am_refreshing (as_manager s)"
    "am_channels (as_manager s') = am_channels (as_manager s)"
    "am_refresh_err (as_manager s') = am_refresh_err (as_manager s)"
    using m by (simp_all add: refresh_part_def)
  show ?thesis
  proof (rule refresh_invI [where s = s' and gs = "as_gets s'" and m = "as_manager s'"])
    show "am_refreshing (as_manager s') = Some ch" if "flight (as_gets s' j) = Some ch" for j ch
      using that D(1) by (simp add: flights m')
    show "j = k" if "flight (as_gets s' j) \<noteq> None" "flight (as_gets s' k) \<noteq> None" for j k
      using that D(2) by (simp add: flights)
    show "ch < am_channels (as_manager s') \<and> (\<exists>i. flight (as_gets s' i) = Some ch)"
      if "am_refreshing (as_manager s') = Some ch" for ch
      using that D(3,4) by (simp add: flights m')
    show "ch < am_channels (as_manager s')" if "as_gets s' j = GWaiting ch" for j ch
      using that D(5) w gs by (cases "j = i") (simp_all add: m')
    show "am_refresh_err (as_manager s') \<noteq> None \<and> (\<forall>i. flight (as_gets s' i) = None)" if "as_failed s'"
      using that D(6,7) f by (simp add: flights m')
  qed simp_all
qed

text \<open>A caller that starts the exchange, and one that ends it.\<close>

lemma refresh_inv_start:
  assumes inv: "refresh_inv s" and gs: "as_gets s' = (as_gets s)(i := p)" and f: "as_failed s' = as_failed s"
    and fl: "flight p = Some ch" and free: "am_refreshing (as_manager s) = None"
    and ok: "am_refresh_err (as_manager s) = None"
    and m: "am_refreshing (as_manager s') = Some ch" "am_channels (as_manager s) = ch"
      "am_channels (as_manager s') = Suc ch"
  shows "refresh_inv s'"
proof -
  note D = refresh_invD [OF inv]
  have none: "flight (as_gets s j) = None" for j using D(1) [of j] free by (cases "flight (as_gets s j)") auto
  have flights: "flight (as_gets s' j) = (if j = i then Some ch else None)" for j using gs fl none by simp
  show ?thesis
  proof (rule refresh_invI [where s = s' and gs = "as_gets s'" and m = "as_manager s'"])
    show "am_refreshing (as_manager s') = Some c" if "flight (as_gets s' j) = Some c" for j c
      using that m by (simp add: flights split: if_splits)
    show "j = k" if "flight (as_gets s' j) \<noteq> None" "flight (as_gets s' k) \<noteq> None" for j k
      using that by (simp add: flights split: if_splits)
    show "c < am_channels (as_manager s') \<and> (\<exists>i. flight (as_gets s' i) = Some c)"
      if "am_refreshing (as_manager s') = Some c" for c
      using that m by (simp add: flights)
    show "c < am_channels (as_manager s')" if "as_gets s' j = GWaiting c" for j c
    proof (cases "j = i")
      case True
      then show ?thesis using that gs fl by (simp add: flight_def)
    next
      case False
      then have "c < ch" using that gs D(5) [of j c] m(2) by simp
      then show ?thesis using m(3) by simp
    qed
    show "am_refresh_err (as_manager s') \<noteq> None \<and> (\<forall>i. flight (as_gets s' i) = None)" if "as_failed s'"
      using that f ok D(6) by simp
  qed simp_all
qed

lemma refresh_inv_end:
  assumes inv: "refresh_inv s" and gs: "as_gets s' = (as_gets s)(i := p)"
    and was: "flight (as_gets s i) \<noteq> None" and fl: "flight p = None" "\<And>ch. p \<noteq> GWaiting ch"
    and m: "am_refreshing (as_manager s') = None" "am_channels (as_manager s') = am_channels (as_manager s)"
    and f: "as_failed s' \<Longrightarrow> as_failed s \<or> am_refresh_err (as_manager s') \<noteq> None"
  shows "refresh_inv s'"
proof -
  note D = refresh_invD [OF inv]
  have flights: "flight (as_gets s' j) = None" for j
  proof (cases "j = i")
    case True
    then show ?thesis using gs fl by simp
  next
    case False
    then have "\<not> flight (as_gets s j) \<noteq> None" using D(2) [OF was] by blast
    then show ?thesis using gs False by simp
  qed
  show ?thesis
  proof (rule refresh_invI [where s = s' and gs = "as_gets s'" and m = "as_manager s'"])
    show "c < am_channels (as_manager s')" if "as_gets s' j = GWaiting c" for j c
      using that gs fl(2) [of c] D(5) [of j c] m by (cases "j = i") simp_all
    show "am_refresh_err (as_manager s') \<noteq> None \<and> (\<forall>i. flight (as_gets s' i) = None)" if "as_failed s'"
      using f [OF that] D(7) [of i] was flights by blast
  qed (simp_all add: flights m)
qed

lemma flight_phase [simp]:
  "flight GIdle = None" "flight GTop = None" "flight (GWaiting ch) = None" "flight (GDone c g e) = None"
  "flight (GExchanging old g ch) = Some ch" "flight (GAnswered old g ch r) = Some ch"
  by (simp_all add: flight_def)

lemma refresh_inv_section:
  assumes inv: "refresh_inv s" and top: "as_gets s i = GTop"
    and run: "get_enter ax now (as_manager s) (as_disk s) = (a, d, r)"
  shows "refresh_inv (s\<lparr>as_manager := a, as_disk := d, as_gets := (as_gets s)(i := entered_phase r)\<rparr>)"
proof (cases r)
  case (Got c g e)
  then show ?thesis using get_enter_refresh [OF run]
    by (intro refresh_inv_move [OF inv, of _ i "entered_phase r"]) (simp_all add: entered_phase_def top)
next
  case (Waits ch)
  then have "ch < am_channels (as_manager s)" using get_enter_refresh [OF run] refresh_invD(3) [OF inv] by simp
  then show ?thesis using get_enter_refresh [OF run] Waits
    by (intro refresh_inv_move [OF inv, of _ i "entered_phase r"]) (simp_all add: entered_phase_def top)
next
  case (Exchanges old g ch)
  then show ?thesis using get_enter_refresh [OF run]
    by (intro refresh_inv_start [OF inv, of _ i "entered_phase r" ch]) (simp_all add: entered_phase_def)
qed

lemma refresh_inv_step: "auth_step ax s t \<Longrightarrow> refresh_inv s \<Longrightarrow> refresh_inv t"
proof (induction rule: auth_step.induct)
  case (get_call s i)
  then show ?case by (intro refresh_inv_move [OF get_call(2), of _ i GTop]) auto
next
  case (get_section s i now a d r)
  show ?case using refresh_inv_section [OF get_section(3,1,2)] .
next
  case (get_woken s i ch)
  then show ?case by (intro refresh_inv_move [OF get_woken(3), of _ i GTop]) simp_all
next
  case (get_gives_up s i ch e)
  then show ?case
    by (intro refresh_inv_move [OF get_gives_up(2), of _ i "GDone empty_credential 0 (Some e)"]) simp_all
next
  case (get_answer s i old g ch now log' answer)
  then show ?case by (intro refresh_inv_move [OF get_answer(3), of _ i "GAnswered old g ch answer"]) simp_all
next
  case (get_end s i old g ch answer now cx a d r)
  have "flight (finished_phase r) = None" "finished_phase r \<noteq> GWaiting ch" for ch
    by (cases r; simp add: finished_phase_def)+
  then show ?case using get_finish_refresh [OF get_end(2)] get_end(1)
    by (intro refresh_inv_end [OF get_end(3), of _ i "finished_phase r"]) auto
next
  case (logs_out s)
  then show ?case by (intro refresh_inv_other [OF logs_out]) (simp_all add: logout_def)
next
  case (begins le s a r)
  then show ?case using begin_login_refresh [OF begins(2)] by (intro refresh_inv_part [OF begins(3)]) simp_all
next
  case (claims s j now ident a p)
  then show ?case using claim_refresh [OF claims(2)] by (intro refresh_inv_part [OF claims(3)]) simp_all
next
  case (works s j ident p now req log' pg)
  then show ?case by (intro refresh_inv_part [OF works(3)]) simp_all
next
  case (commits s j ident p now ctx_err c a d pg)
  note c = commit_refresh [OF commits(2)]
  have "x + 1 \<noteq> x" for x :: "64 word" by simp
  then show ?case using c by (intro refresh_inv_other [OF commits(3)]) auto
next
  case (finishes s j ident)
  then show ?case by (intro refresh_inv_part [OF finishes(2)]) simp_all
next
  case (asks now ident s a r)
  then show ?case using status_refresh [OF asks(1)] by (intro refresh_inv_part [OF asks(2)]) simp_all
next
  case (cancels ident s a r)
  then show ?case using cancel_refresh [OF cancels(1)] by (intro refresh_inv_part [OF cancels(2)]) simp_all
next
  case (listens s url)
  then show ?case by (intro refresh_inv_part [OF listens]) (simp_all add: refresh_part_def)
qed

lemma refresh_inv_init: "auth_init s \<Longrightarrow> refresh_inv s"
  by (auto simp: auth_init_def refresh_inv_def restored_manager_def new_auth_manager_def split: option.splits)

interpretation refresh_machine: inductive_invariant auth_init "auth_step ax" refresh_inv for ax
  by unfold_locales (auto intro: refresh_inv_init refresh_inv_step)

text \<open>
  C24. One refresh at a time, and nobody waits for nothing: under every interleaving at most one
  caller of \<open>get\<close> is in an exchange, it is the one whose channel the manager announces, and a
  caller that waits either waits on that very channel or may go on.
\<close>

theorem single_flight:
  assumes "reaches auth_init (auth_step ax) s"
  shows "(\<forall>i j. flight (as_gets s i) \<noteq> None \<and> flight (as_gets s j) \<noteq> None \<longrightarrow> i = j)
    \<and> (\<forall>i ch. flight (as_gets s i) = Some ch \<longrightarrow> am_refreshing (as_manager s) = Some ch)
    \<and> (\<forall>i ch. as_gets s i = GWaiting ch \<longrightarrow>
         (\<exists>j. flight (as_gets s j) = Some ch) \<or> auth_step ax s (s\<lparr>as_gets := (as_gets s)(i := GTop)\<rparr>))"
proof -
  note D = refresh_invD [OF refresh_machine.reachable_inv [OF assms]]
  have "(\<exists>j. flight (as_gets s j) = Some ch) \<or> auth_step ax s (s\<lparr>as_gets := (as_gets s)(i := GTop)\<rparr>)"
    if "as_gets s i = GWaiting ch" for i ch
    using D(4) [of ch] get_woken [OF that, of ax] by blast
  then show ?thesis using D(1,2) by blast
qed

text \<open>
  C25. A refresh that failed is not tried again. Once the exchange of a manager with a store has
  failed without being cancelled, whatever the server did with the token, no later call of
  \<open>get\<close> starts another exchange, at any time and after any steps of others, until a login or
  a logout changes the generation.
\<close>

theorem no_refresh_after_failure:
  assumes "reaches auth_init (auth_step ax) s" "as_failed s"
  shows "\<forall>now d. \<exists>c g e. get_enter ax now (as_manager s) d = (as_manager s, d, Got c g e)"
proof -
  have "am_refresh_err (as_manager s) \<noteq> None"
    using refresh_invD(6) [OF refresh_machine.reachable_inv [OF assms(1)] assms(2)] .
  then show ?thesis by (auto simp: get_enter_def)
qed

text \<open>A service with a credential that is due, and a server that cannot be reached.\<close>

definition lost_ax :: auth_ctx where
  "lost_ax = sample_ax\<lparr>ax_env := sample_auth_env\<lparr>xe_api := (xe_api sample_auth_env)\<lparr>ae_do := \<lambda>log q. NoReply None\<rparr>\<rparr>\<rparr>"

definition sample_restored :: auth_manager where
  "sample_restored = restored_manager sample_store (Some sample_credential)"

definition start_state :: auth_state where
  "start_state = \<lparr>as_manager = sample_restored, as_disk = sample_disk, as_log = [],
     as_gets = \<lambda>i. GIdle, as_logins = \<lambda>j. LIdle, as_failed = False\<rparr>"

lemma lost_enters:
  "\<exists>a d. get_enter lost_ax due sample_restored sample_disk = (a, d, Exchanges sample_pending 0 0)"
proof -
  have "snd (snd (get_enter lost_ax due sample_restored sample_disk)) = Exchanges sample_pending 0 0" by code_simp
  then show ?thesis by (metis prod.collapse)
qed

lemma lost_exchange: "\<exists>log. exchange (ax_env lost_ax) (ax_config lost_ax) 0 sample_pending [] =
    (log, Inl (ErrMsg ''device exchange connection failed''))"
proof -
  have "snd (exchange (ax_env lost_ax) (ax_config lost_ax) 0 sample_pending []) =
    Inl (ErrMsg ''device exchange connection failed'')" by code_simp
  then show ?thesis by (metis prod.collapse)
qed

lemma lost_run:
  "\<exists>s. reaches auth_init (auth_step lost_ax) s \<and> as_gets s 0 = GExchanging sample_pending 0 0
    \<and> as_log s = [] \<and> am_store (as_manager s) \<noteq> None \<and> am_generation (as_manager s) = 0"
proof -
  obtain a d where e: "get_enter lost_ax due sample_restored sample_disk = (a, d, Exchanges sample_pending 0 0)"
    using lost_enters by blast
  define s1 where "s1 = start_state\<lparr>as_gets := (as_gets start_state)(0 := GTop)\<rparr>"
  define s2 where "s2 = s1\<lparr>as_manager := a, as_disk := d,
      as_gets := (as_gets s1)(0 := entered_phase (Exchanges sample_pending 0 0))\<rparr>"
  have "auth_init start_state"
    by (auto simp: auth_init_def start_state_def sample_restored_def)
  then have "reaches auth_init (auth_step lost_ax) start_state" by (rule reaches_init)
  moreover have "auth_step lost_ax start_state s1"
    unfolding s1_def by (rule get_call) (simp add: start_state_def)
  moreover have "auth_step lost_ax s1 s2"
    unfolding s2_def by (rule get_section) (use e in \<open>simp_all add: s1_def start_state_def\<close>)
  ultimately have "reaches auth_init (auth_step lost_ax) s2" by (blast intro: reaches_step)
  moreover have "am_store a \<noteq> None \<and> am_generation a = 0"
  proof -
    have f: "get_fence lost_ax due sample_restored sample_disk = (a, d, Exchanges sample_pending 0 0)"
      using get_enter_exchanges [OF e] by simp
    have "am_store sample_restored = Some sample_store \<and> am_generation sample_restored = 0"
      by (simp add: sample_restored_def restored_manager_def new_auth_manager_def)
    then show ?thesis using get_fence_exchanges [OF f] by simp
  qed
  ultimately show ?thesis
    by (intro exI [of _ s2]) (simp add: s2_def s1_def start_state_def entered_phase_def)
qed

theorem single_flight_witness:
  "\<exists>s :: auth_state. flight (as_gets s 0) = Some 0 \<and> am_refreshing (as_manager s) = Some 0"
proof -
  obtain s where s: "reaches auth_init (auth_step lost_ax) s" "as_gets s 0 = GExchanging sample_pending 0 0"
    using lost_run by blast
  have "flight (as_gets s 0) = Some 0" using s(2) by simp
  then show ?thesis using single_flight [OF s(1)] by blast
qed

theorem no_refresh_after_failure_witness:
  "\<exists>s :: auth_state. as_failed s \<and> (\<exists>c g e. get_enter lost_ax due (as_manager s) (as_disk s) = (as_manager s, as_disk s, Got c g e))"
proof -
  let ?ans = "Inl (ErrMsg ''device exchange connection failed'') :: credential res"
  obtain s where s: "reaches auth_init (auth_step lost_ax) s" "as_gets s 0 = GExchanging sample_pending 0 0"
    "as_log s = []" "am_store (as_manager s) \<noteq> None" "am_generation (as_manager s) = 0"
    using lost_run by blast
  obtain log where x: "exchange (ax_env lost_ax) (ax_config lost_ax) 0 sample_pending [] = (log, ?ans)"
    using lost_exchange by blast
  define t where "t = s\<lparr>as_log := log, as_gets := (as_gets s)(0 := GAnswered sample_pending 0 0 ?ans)\<rparr>"
  have "auth_step lost_ax s t"
    unfolding t_def by (rule get_answer [OF s(2), of lost_ax 0]) (simp add: x s(3))
  then have t: "reaches auth_init (auth_step lost_ax) t" using s(1) by (blast intro: reaches_step)
  have top: "as_gets t 0 = GAnswered sample_pending 0 0 ?ans" by (simp add: t_def)
  obtain a2 d2 r2 where f: "get_finish lost_ax due (\<lambda>k. None) sample_pending 0 ?ans (as_manager t) (as_disk t)
      = (a2, d2, r2)" by (metis prod_cases3)
  define u where "u = t\<lparr>as_manager := a2, as_disk := d2, as_gets := (as_gets t)(0 := finished_phase r2),
      as_failed := (as_failed t \<or> fails_now (\<lambda>k. None) ?ans 0 (as_manager t))\<rparr>"
  have "auth_step lost_ax t u" unfolding u_def by (rule get_end [OF top f])
  then have u: "reaches auth_init (auth_step lost_ax) u" using t by (blast intro: reaches_step)
  have fails: "as_failed u" using s(4,5) by (simp add: u_def t_def fails_now_def)
  show ?thesis using no_refresh_after_failure [OF u fails] fails by blast
qed

end
