(* ===== verification/LoginMachine.thy ===== *)
theory LoginMachine
  imports AuthMachine
begin

text \<open>
  The login attempts of the auth machine: how many there are, which of them a browser may still
  complete, and who works on one.
\<close>

section \<open>The invariant\<close>

definition is_pending :: "auth_manager \<Rightarrow> string \<Rightarrow> bool" where
  "is_pending a k \<longleftrightarrow> (\<exists>r. map_of (am_results a) k = Some r \<and> lr_status r = ''pending'')"

definition results_ok :: "auth_manager \<Rightarrow> bool" where
  "results_ok a \<longleftrightarrow> mwf (am_results a) \<and> [] \<notin> fst ` set (am_results a)
     \<and> length (am_results a) \<le> result_limit
     \<and> (\<forall>k l. is_pending a k \<longrightarrow> is_pending a l \<longrightarrow> k = l)
     \<and> (\<forall>k p. map_of (am_pending a) k = Some p \<longrightarrow> is_pending a k \<and> am_latest a = k)"

definition login_inv :: "auth_state \<Rightarrow> bool" where
  "login_inv s \<longleftrightarrow> results_ok (as_manager s)
     \<and> (\<forall>k p j. map_of (am_pending (as_manager s)) k = Some p \<longrightarrow> login_id (as_logins s j) \<noteq> Some k)
     \<and> (\<forall>i j k. login_id (as_logins s i) = Some k \<longrightarrow> login_id (as_logins s j) = Some k \<longrightarrow> i = j)"

text \<open>The part of the manager the logins use.\<close>

definition login_part :: "auth_manager \<Rightarrow> (string \<times> login_attempt) list \<times> string \<times> (string \<times> login_result) list" where
  "login_part a = (am_pending a, am_latest a, am_results a)"

lemma login_part_ok: "login_part a' = login_part a \<Longrightarrow> results_ok a' = results_ok a"
  by (simp add: login_part_def results_ok_def is_pending_def)

lemma pending_result: "is_pending a k \<longleftrightarrow> lr_status (result_at a k) = ''pending''"
  by (auto simp: is_pending_def result_at_def split: option.split)

text \<open>Giving a known attempt another status.\<close>

lemma set_status_ok:
  assumes "results_ok a" "map_of (am_results a) s = Some r" "v \<noteq> ''pending''" "map_of (am_pending a) s = None"
  shows "results_ok (set_status s v a)"
proof -
  have mem: "s \<in> fst ` set (am_results a)" using assms(2) by (metis map_of_SomeD image_eqI fst_conv)
  have res: "am_results (set_status s v a) = mput s (r\<lparr>lr_status := v\<rparr>) (am_results a)"
    using assms(2) by (simp add: set_status_def result_at_def)
  have keys: "fst ` set (am_results (set_status s v a)) = fst ` set (am_results a)"
    using mem by (simp only: res set_map [symmetric] keys_mput if_True)
  have len: "length (am_results (set_status s v a)) = length (am_results a)"
    using mem by (simp add: res length_mput)
  have p: "is_pending (set_status s v a) k \<longleftrightarrow> is_pending a k \<and> k \<noteq> s" for k
    using assms(3) by (auto simp: is_pending_def res)
  have w: "mwf (am_results (set_status s v a))" using assms(1) by (simp add: res results_ok_def)
  have o: "am_pending (set_status s v a) = am_pending a" "am_latest (set_status s v a) = am_latest a"
    by (simp_all add: set_status_def)
  have "is_pending (set_status s v a) k \<and> am_latest (set_status s v a) = k"
    if "map_of (am_pending (set_status s v a)) k = Some q" for k q
  proof -
    have "map_of (am_pending a) k = Some q" using that o by simp
    then have "is_pending a k" "am_latest a = k" "k \<noteq> s" using assms(1,4) by (auto simp: results_ok_def)
    then show ?thesis using p o by simp
  qed
  then show ?thesis using assms(1) w keys len p unfolding results_ok_def by auto
qed

lemma mdel_pending_ok:
  "results_ok a \<Longrightarrow> results_ok (a\<lparr>am_pending := mdel s (am_pending a)\<rparr>)"
  by (auto simp: results_ok_def is_pending_def)

lemma drop_attempt_ok:
  assumes "results_ok a" "map_of (am_results a) s = Some r" "v \<noteq> ''pending''"
  shows "results_ok (drop_attempt s v a)"
proof -
  let ?b = "a\<lparr>am_pending := mdel s (am_pending a)\<rparr>"
  have "results_ok (set_status s v ?b)"
    using mdel_pending_ok [OF assms(1), of s] assms(2,3) by (intro set_status_ok [of _ _ r]) simp_all
  moreover have "am_results (drop_attempt s v a) = am_results (set_status s v ?b)"
    "am_pending (drop_attempt s v a) = am_pending (set_status s v ?b)"
    by (simp_all add: drop_attempt_def set_status_def result_at_def Let_def)
  moreover have "am_latest (drop_attempt s v a) = k" if "map_of (am_pending (set_status s v ?b)) k = Some p" for k p
  proof -
    have "map_of (am_pending a) k = Some p" "k \<noteq> s" using that by (auto simp: set_status_def split: if_splits)
    then have "am_latest a = k" using assms(1) by (simp add: results_ok_def)
    then show ?thesis using \<open>k \<noteq> s\<close> by (simp add: drop_attempt_def set_status_def Let_def)
  qed
  ultimately show ?thesis unfolding results_ok_def is_pending_def by auto
qed

lemma finish_login_ok:
  assumes "results_ok a" "map_of (am_pending a) s = None"
  shows "results_ok (finish_login s a)"
proof (cases "is_pending a s")
  case True
  then obtain r where r: "map_of (am_results a) s = Some r" by (auto simp: is_pending_def)
  show ?thesis using True set_status_ok [OF assms(1) r _ assms(2), of "''failed''"]
    by (simp add: finish_login_def pending_result)
next
  case False
  then show ?thesis using assms(1) by (simp add: finish_login_def pending_result)
qed

section \<open>Beginning a login\<close>

lemma supersede_keys: "map fst (supersede now rs) = map fst (filter (\<lambda>(k, r). \<not> lr_expires r < now) rs)"
  by (simp add: supersede_def case_prod_unfold)

lemma supersede_ok:
  assumes "mwf rs"
  shows "mwf (supersede now rs)" "fst ` set (supersede now rs) \<subseteq> fst ` set rs"
    "length (supersede now rs) \<le> length rs"
    "(k, r) \<in> set (supersede now rs) \<Longrightarrow> lr_status r \<noteq> ''pending''"
proof -
  show "mwf (supersede now rs)" using assms by (simp add: mwf_def supersede_keys distinct_map_filter)
  show "length (supersede now rs) \<le> length rs" by (simp add: supersede_def)
  show "fst ` set (supersede now rs) \<subseteq> fst ` set rs" by (force simp: supersede_def)
  show "lr_status r \<noteq> ''pending''" if "(k, r) \<in> set (supersede now rs)"
    using that by (auto simp: supersede_def split: if_splits)
qed

lemma fold_older_mem:
  assumes "fst o_ex \<in> K" "fst ` set rs \<subseteq> K"
  shows "fst (fold older_result rs o_ex) \<in> K"
  using assms by (induction rs arbitrary: o_ex) (auto simp: older_result_def)

lemma oldest_mem:
  assumes "rs \<noteq> []" "[] \<notin> fst ` set rs"
  shows "fst (fold older_result rs ([], 0)) \<in> fst ` set rs"
proof -
  obtain p ps where rs: "rs = p # ps" using assms(1) by (cases rs) auto
  have "fold older_result rs ([], 0) = fold older_result ps (fst p, lr_expires (snd p))"
    by (simp add: rs older_result_def)
  then show ?thesis using fold_older_mem [of "(fst p, lr_expires (snd p))" "fst ` set rs" ps] by (auto simp: rs)
qed

lemma evict_ok:
  assumes "mwf rs" "[] \<notin> fst ` set rs" "length rs \<le> result_limit" "mset (rng rs) = mset rs"
  shows "length (evict_result rng rs) < result_limit" "mwf (evict_result rng rs)"
    "set (evict_result rng rs) \<subseteq> set rs"
proof -
  show "mwf (evict_result rng rs)" "set (evict_result rng rs) \<subseteq> set rs"
    using assms(1) by (auto simp: evict_result_def mdel_def)
  show "length (evict_result rng rs) < result_limit"
  proof (cases "result_limit \<le> length rs")
    case True
    then have "rs \<noteq> []" by (auto simp: result_limit_def)
    then have "rng rs \<noteq> []" "set (rng rs) = set rs" using assms(4) by (auto dest: mset_eq_setD)
    then have "fst (fold older_result (rng rs) ([], 0)) \<in> fst ` set rs" using oldest_mem [of "rng rs"] assms(2) by auto
    from length_mdel_less [OF this] True assms(3) show ?thesis by (simp add: evict_result_def)
  next
    case False
    then show ?thesis by (simp add: evict_result_def)
  qed
qed

lemma begin_login_ok:
  assumes "results_ok a" "begin_login le a = (a', r)" "le_state le \<noteq> []"
    "map_of (am_results a) (le_state le) = None" "\<forall>rs. mset (le_range le rs) = mset rs"
  shows "results_ok a' \<and> dom (map_of (am_pending a')) \<subseteq> insert (le_state le) (dom (map_of (am_pending a)))"
proof (cases "am_callback_url a = []")
  case True
  then show ?thesis using assms by (auto simp: begin_login_def)
next
  case False
  define rs where "rs = evict_result (le_range le) (supersede (le_now le) (am_results a))"
  note ok = assms(1) [unfolded results_ok_def]
  note sup = supersede_ok [OF conjunct1 [OF ok]]
  have nk: "[] \<notin> fst ` set (supersede (le_now le) (am_results a))" using ok sup(2) [of "le_now le"] by blast
  have ls: "length (supersede (le_now le) (am_results a)) \<le> result_limit"
    using ok sup(3) [of "le_now le"] by linarith
  note ev = evict_ok [OF sup(1) nk ls, of "le_range le", OF assms(5) [rule_format], folded rs_def]
  have none: "lr_status q \<noteq> ''pending''" if "map_of rs k = Some q" for k q
    using that ev(3) sup(4) by (meson map_of_SomeD subsetD)
  have keys: "fst ` set rs \<subseteq> fst ` set (am_results a)" using ev(3) sup(2) by blast
  show ?thesis
  proof (cases "new_attempt le (am_generation a)")
    case (Inl e)
    then have "a' = a\<lparr>am_results := rs, am_pending := []\<rparr>"
      using assms(2) False by (simp add: begin_login_def rs_def Let_def)
    then show ?thesis using ok ev keys none by (auto simp: results_ok_def is_pending_def)
  next
    case (Inr p)
    let ?id = "le_state le"
    have a': "a' = a\<lparr>am_pending := [(?id, p)], am_latest := ?id,
        am_results := mput ?id \<lparr>lr_status = ''pending'', lr_expires = la_expires p\<rparr> rs\<rparr>"
      using assms(2) False Inr by (simp add: begin_login_def rs_def Let_def)
    have new: "?id \<notin> fst ` set rs" using keys assms(4) by (auto simp: map_of_eq_None_iff)
    have len: "length (mput ?id v rs) \<le> result_limit" for v using new ev(1) by (simp add: length_mput)
    have ks: "fst ` set (mput ?id v rs) = insert ?id (fst ` set rs)" for v
      by (simp only: set_map [symmetric] keys_mput) (use new in auto)
    have pend: "is_pending a' k \<longleftrightarrow> k = ?id" for k
      using none by (auto simp: a' is_pending_def)
    show ?thesis
      unfolding results_ok_def pend
      using len ks ev(2) keys ok assms(3) by (auto simp: a' split: if_splits)
  qed
qed

section \<open>The machine\<close>

lemma commit_login_ok:
  assumes "results_ok a" "commit_login ax now ctx_err s p c a d = (a', d', pg)" "map_of (am_pending a) s = None"
  shows "results_ok a' \<and> am_pending a' = am_pending a"
proof (cases "a' = a")
  case True
  then show ?thesis using assms(1) by simp
next
  case False
  then have p: "is_pending a s"
    using assms(2) unfolding pending_result by (auto simp: commit_login_def split: if_splits)
  obtain d1 pub e where sr: "save_reconciled ax (am_store a) c d = (d1, pub, e)" by (metis prod_cases3)
  define v where "v = (if e \<noteq> None then ''durability_uncertain'' else ''completed'')"
  have a2: "a' = set_status s v (a\<lparr>am_cred := c, am_generation := am_generation a + 1, am_refresh_err := None,
      am_uncertain := (e \<noteq> None)\<rparr>)"
    using assms(2) False sr by (auto simp: commit_login_def v_def split: if_splits)
  have v: "v \<noteq> ''pending''" "is_pending a s" using p by (simp_all add: v_def)
  have a': "login_part a' = login_part (set_status s v a)" "am_pending a' = am_pending a"
    by (simp_all add: a2 login_part_def set_status_def result_at_def)
  from v(2) obtain r where "map_of (am_results a) s = Some r" by (auto simp: is_pending_def)
  from set_status_ok [OF assms(1) this v(1) assms(3)] show ?thesis using login_part_ok [OF a'(1)] a'(2) by simp
qed

text \<open>Steps that leave the logins alone, and those of one callback.\<close>

lemma login_inv_part:
  assumes "login_inv s" "login_part (as_manager s') = login_part (as_manager s)" "as_logins s' = as_logins s"
  shows "login_inv s'"
  using assms login_part_ok [OF assms(2)] by (simp add: login_inv_def login_part_def)

lemma login_inv_manager:
  assumes "login_inv s" "as_logins s' = as_logins s" "results_ok (as_manager s')"
    and "\<And>k p. map_of (am_pending (as_manager s')) k = Some p \<Longrightarrow>
      \<exists>q. map_of (am_pending (as_manager s)) k = Some q"
  shows "login_inv s'"
  using assms unfolding login_inv_def by metis

lemma login_inv_callback:
  assumes inv: "login_inv s" and ls: "as_logins s' = (as_logins s)(j := l)"
    and ok: "results_ok (as_manager s')" and pend: "am_pending (as_manager s') = am_pending (as_manager s)"
    and l: "login_id l = None \<or> login_id l = login_id (as_logins s j)"
  shows "login_inv s'"
proof -
  have keep: "login_id (as_logins s i) = Some k" if "login_id (as_logins s' i) = Some k" for i k
    using that l ls by (cases "i = j") auto
  show ?thesis unfolding login_inv_def pend
  proof (intro conjI allI impI notI)
    fix k p i
    assume "map_of (am_pending (as_manager s)) k = Some p" "login_id (as_logins s' i) = Some k"
    then show False using keep inv unfolding login_inv_def by blast
  next
    fix i i' k
    assume "login_id (as_logins s' i) = Some k" "login_id (as_logins s' i') = Some k"
    then show "i = i'" using keep inv unfolding login_inv_def by blast
  qed (rule ok)
qed

lemma claimed_not_pending:
  assumes "login_inv s" "login_id (as_logins s j) = Some k"
  shows "map_of (am_pending (as_manager s)) k = None"
  using assms unfolding login_inv_def by (metis not_None_eq)

lemma login_inv_claim:
  assumes inv: "login_inv s" and j: "as_logins s j = LIdle"
    and c: "callback_claim now k (as_manager s) = (a, Some p)"
  shows "login_inv (s\<lparr>as_manager := a, as_logins := (as_logins s)(j := LClaimed k p)\<rparr>)"
proof -
  let ?a = "as_manager s"
  have a: "a = ?a\<lparr>am_pending := mdel k (am_pending ?a)\<rparr>" and p: "map_of (am_pending ?a) k = Some p"
    using c by (auto simp: callback_claim_def split: option.splits if_splits)
  have ok: "results_ok a" unfolding a using mdel_pending_ok inv by (simp add: login_inv_def)
  have nk: "login_id (as_logins s i) \<noteq> Some k" for i using inv p unfolding login_inv_def by blast
  have ids: "login_id (((as_logins s)(j := LClaimed k p)) i) = (if i = j then Some k else login_id (as_logins s i))" for i
    by (simp add: login_id_def)
  show ?thesis unfolding login_inv_def
  proof (intro conjI allI impI)
    show "results_ok (as_manager (s\<lparr>as_manager := a, as_logins := (as_logins s)(j := LClaimed k p)\<rparr>))"
      using ok by simp
  next
    fix k' p' i
    assume "map_of (am_pending (as_manager (s\<lparr>as_manager := a, as_logins := (as_logins s)(j := LClaimed k p)\<rparr>))) k' = Some p'"
    then have "k' \<noteq> k" "map_of (am_pending ?a) k' = Some p'" by (auto simp: a split: if_splits)
    then have "login_id (as_logins s i) \<noteq> Some k'" using inv unfolding login_inv_def by blast
    with \<open>k' \<noteq> k\<close> show "login_id (as_logins (s\<lparr>as_manager := a, as_logins := (as_logins s)(j := LClaimed k p)\<rparr>) i) \<noteq> Some k'"
      using ids [of i] by simp
  next
    fix i i' k'
    assume "login_id (as_logins (s\<lparr>as_manager := a, as_logins := (as_logins s)(j := LClaimed k p)\<rparr>) i) = Some k'"
      "login_id (as_logins (s\<lparr>as_manager := a, as_logins := (as_logins s)(j := LClaimed k p)\<rparr>) i') = Some k'"
    then have e: "(if i = j then Some k else login_id (as_logins s i)) = Some k'"
      "(if i' = j then Some k else login_id (as_logins s i')) = Some k'"
      using ids [of i] ids [of i'] by simp_all
    show "i = i'"
    proof (cases "i = j \<or> i' = j")
      case True
      then show ?thesis using e nk by (auto split: if_splits)
    next
      case False
      then show ?thesis using e inv unfolding login_inv_def by (metis (no_types))
    qed
  qed
qed

lemma login_inv_drop:
  assumes inv: "login_inv s" and r: "map_of (am_results (as_manager s)) k = Some r" and v: "v \<noteq> ''pending''"
  shows "login_inv (s\<lparr>as_manager := drop_attempt k v (as_manager s)\<rparr>)"
proof (rule login_inv_manager [OF inv])
  have "results_ok (as_manager s)" using inv by (simp add: login_inv_def)
  from drop_attempt_ok [OF this r v]
  show "results_ok (as_manager (s\<lparr>as_manager := drop_attempt k v (as_manager s)\<rparr>))" by simp
  show "\<exists>q. map_of (am_pending (as_manager s)) l = Some q"
    if "map_of (am_pending (as_manager (s\<lparr>as_manager := drop_attempt k v (as_manager s)\<rparr>))) l = Some p" for l p
    using that by (simp add: drop_attempt_def set_status_def Let_def split: if_splits)
qed simp

text \<open>\<open>get\<close> leaves the logins alone.\<close>

lemma get_enter_login: "get_enter ax now a d = (a', d', r) \<Longrightarrow> login_part a' = login_part a"
  by (auto simp: get_enter_def get_fence_def start_exchange_def login_part_def Let_def
      split: if_splits option.splits prod.splits sum.splits)

lemma finish_current_login:
  "finish_current ax now cx old answer a d = (a', d', oc) \<Longrightarrow> login_part a' = login_part a"
  by (auto simp: finish_current_def finish_answered_def finish_failed_def login_part_def
      split: if_splits option.splits prod.splits sum.splits)

lemma get_finish_login:
  assumes "get_finish ax now cx old g answer a d = (a', d', r)"
  shows "login_part a' = login_part a"
proof (cases "am_generation a = g")
  case False
  then show ?thesis using assms by (auto simp: get_finish_def login_part_def)
next
  case True
  obtain a1 d1 oc where f: "finish_current ax now cx old answer a d = (a1, d1, oc)" by (metis prod_cases3)
  have "a' = a1\<lparr>am_refreshing := None\<rparr>" using assms True f by (simp add: get_finish_def)
  then show ?thesis using finish_current_login [OF f] by (simp add: login_part_def)
qed

lemma login_inv_step: "auth_step ax s t \<Longrightarrow> login_inv s \<Longrightarrow> login_inv t"
proof (induction rule: auth_step.induct)
  case (get_section s i now a d r)
  then show ?case using get_enter_login [OF get_section(2)] by (intro login_inv_part [OF get_section(3)]) simp_all
next
  case (get_end s i old g ch answer now cx a d r)
  then show ?case using get_finish_login [OF get_end(2)] by (intro login_inv_part [OF get_end(3)]) simp_all
next
  case (logs_out s)
  have "results_ok (logout (as_manager s))"
    using logs_out by (simp add: login_inv_def results_ok_def is_pending_def logout_def)
  then show ?case by (intro login_inv_manager [OF logs_out]) (simp_all add: logout_def)
next
  case (begins le s a r)
  note f = begins(1) [unfolded fresh_login_def]
  have ok: "results_ok (as_manager s)" using begins(3) by (simp add: login_inv_def)
  have r: "results_ok a" "dom (map_of (am_pending a)) \<subseteq> insert (le_state le) (dom (map_of (am_pending (as_manager s))))"
    using begin_login_ok [OF ok begins(2)] f by simp_all
  show ?case unfolding login_inv_def
  proof (intro conjI allI impI)
    show "results_ok (as_manager (s\<lparr>as_manager := a\<rparr>))" using r by simp
  next
    fix k p j assume "map_of (am_pending (as_manager (s\<lparr>as_manager := a\<rparr>))) k = Some p"
    then have "k = le_state le \<or> (\<exists>q. map_of (am_pending (as_manager s)) k = Some q)" using r(2) by auto
    then show "login_id (as_logins (s\<lparr>as_manager := a\<rparr>) j) \<noteq> Some k"
      using f begins(3) unfolding login_inv_def by auto
  next
    fix i j k
    assume "login_id (as_logins (s\<lparr>as_manager := a\<rparr>) i) = Some k" "login_id (as_logins (s\<lparr>as_manager := a\<rparr>) j) = Some k"
    then show "i = j" using begins(3) unfolding login_inv_def by simp
  qed
next
  case (claims s j now ident a p)
  then show ?case by (intro login_inv_claim)
next
  case (works s j ident p now req log' pg)
  then show ?case
    by (intro login_inv_callback [OF works(3), of _ j "LFinishing ident"]) (simp_all add: login_id_def login_inv_def)
next
  case (commits s j ident p now ctx_err c a d pg)
  have "map_of (am_pending (as_manager s)) ident = None"
    using claimed_not_pending [OF commits(3), of j] commits(1) by (simp add: login_id_def)
  moreover have "results_ok (as_manager s)" using commits(3) by (simp add: login_inv_def)
  ultimately have "results_ok a \<and> am_pending a = am_pending (as_manager s)"
    using commit_login_ok commits(2) by blast
  then show ?case using commits(1)
    by (intro login_inv_callback [OF commits(3), of _ j "LFinishing ident"]) (simp_all add: login_id_def)
next
  case (finishes s j ident)
  have "map_of (am_pending (as_manager s)) ident = None"
    using claimed_not_pending [OF finishes(2), of j] finishes(1) by (simp add: login_id_def)
  moreover have "results_ok (as_manager s)" using finishes(2) by (simp add: login_inv_def)
  ultimately have "results_ok (finish_login ident (as_manager s))" by (intro finish_login_ok)
  moreover have "am_pending (finish_login ident (as_manager s)) = am_pending (as_manager s)"
    by (simp add: finish_login_def set_status_def)
  ultimately show ?case
    by (intro login_inv_callback [OF finishes(2), of _ j LIdle]) (simp_all add: login_id_def)
next
  case (asks now ident s a r)
  show ?case
  proof (cases "a = as_manager s")
    case False
    then obtain q where "map_of (am_results (as_manager s)) ident = Some q"
      and a: "a = drop_attempt ident ''expired'' (as_manager s)"
      using asks(1) by (auto simp: status_section_def split: option.splits if_splits)
    then show ?thesis unfolding a by (intro login_inv_drop [OF asks(2)]) simp_all
  qed (use asks(2) in simp)
next
  case (cancels ident s a r)
  show ?case
  proof (cases "a = as_manager s")
    case False
    then obtain q where "map_of (am_results (as_manager s)) ident = Some q"
      and a: "a = drop_attempt ident ''cancelled'' (as_manager s)"
      using cancels(1) by (auto simp: cancel_section_def split: option.splits if_splits)
    then show ?thesis unfolding a by (intro login_inv_drop [OF cancels(2)]) simp_all
  qed (use cancels(2) in simp)
qed (auto intro: login_inv_part simp: login_part_def)

lemma login_inv_init: "auth_init s \<Longrightarrow> login_inv s"
  by (auto simp: auth_init_def login_inv_def results_ok_def is_pending_def login_id_def restored_manager_def
      new_auth_manager_def split: option.splits)

interpretation login_machine: inductive_invariant auth_init "auth_step ax" login_inv for ax
  by unfold_locales (auto intro: login_inv_init login_inv_step)

text \<open>
  C28. Under every interleaving there are at most 128 login attempts on record, under distinct
  names, and at most one of them is pending; an attempt a browser may still claim is that one
  and the latest; and no two callbacks ever work on the same attempt.
\<close>

theorem login_attempts:
  assumes "reaches auth_init (auth_step ax) s"
  shows "length (am_results (as_manager s)) \<le> 128
    \<and> distinct (map fst (am_results (as_manager s)))
    \<and> (\<forall>k l. lr_status (result_at (as_manager s) k) = ''pending'' \<and> lr_status (result_at (as_manager s) l) = ''pending'' \<longrightarrow> k = l)
    \<and> (\<forall>k p. map_of (am_pending (as_manager s)) k = Some p \<longrightarrow>
         lr_status (result_at (as_manager s) k) = ''pending'' \<and> am_latest (as_manager s) = k
         \<and> (\<forall>j. login_id (as_logins s j) \<noteq> Some k))
    \<and> (\<forall>i j k. login_id (as_logins s i) = Some k \<and> login_id (as_logins s j) = Some k \<longrightarrow> i = j)"
  using login_machine.reachable_inv [OF assms]
  unfolding login_inv_def results_ok_def mwf_def result_limit_def pending_result by blast

definition sample_login :: login_env where
  "sample_login = \<lparr>le_now = 0, le_state = ''s'', le_key = Some \<lparr>dk_p256 = True, dk_id = 1\<rparr>,
     le_digit = (\<lambda>i n. Some 1), le_machine = Some ''m'', le_range = id\<rparr>"

theorem login_attempts_witness:
  "\<exists>s :: auth_state. (\<exists>p. map_of (am_pending (as_manager s)) ''s'' = Some p) \<and> am_latest (as_manager s) = ''s''"
proof -
  define s1 where "s1 = start_state\<lparr>as_manager := (as_manager start_state)\<lparr>am_callback_url := ''u''\<rparr>\<rparr>"
  have m1: "as_manager s1 = sample_restored\<lparr>am_callback_url := ''u''\<rparr>" by (simp add: s1_def start_state_def)
  have m: "am_results sample_restored = []" "am_generation sample_restored = 0"
    by (simp_all add: sample_restored_def restored_manager_def new_auth_manager_def)
  have "auth_init start_state" by (auto simp: auth_init_def start_state_def sample_restored_def)
  then have "reaches auth_init (auth_step lost_ax) start_state" by (rule reaches_init)
  moreover have "auth_step lost_ax start_state s1" unfolding s1_def by (rule listens)
  ultimately have r1: "reaches auth_init (auth_step lost_ax) s1" by (rule reaches_step)
  have "\<exists>x. device_digits (\<lambda>i n. Some 1) xs = Some x" for xs by (induction xs) auto
  then obtain dev where "new_device_id (le_digit sample_login) = Some dev"
    unfolding new_device_id_def by (force simp: sample_login_def)
  then obtain p where p: "new_attempt sample_login 0 = Inr p"
    unfolding new_attempt_def by (simp add: sample_login_def)
  obtain a r where b: "begin_login sample_login (as_manager s1) = (a, r)" by (meson surj_pair)
  have le: "le_state sample_login = ''s''" "le_range sample_login = id" by (simp_all add: sample_login_def)
  have c: "am_callback_url (as_manager s1) = ''u''" "am_generation (as_manager s1) = 0" by (simp_all add: m1 m)
  have "am_pending a = [(''s'', p)]"
    using b c p le by (auto simp add: begin_login_def Let_def)
  then have a: "map_of (am_pending a) ''s'' = Some p" by simp
  have "fresh_login sample_login s1"
    by (simp add: fresh_login_def m1 m le s1_def start_state_def login_id_def)
  from begins [OF this b] have "reaches auth_init (auth_step lost_ax) (s1\<lparr>as_manager := a\<rparr>)"
    by (rule reaches_step [OF r1])
  note attempts = login_attempts [OF this, THEN conjunct2, THEN conjunct2, THEN conjunct2, THEN conjunct1]
  have "am_latest (as_manager (s1\<lparr>as_manager := a\<rparr>)) = ''s''" using attempts a by simp
  then show ?thesis using a by (intro exI [of _ "s1\<lparr>as_manager := a\<rparr>"]) simp
qed

end
