(* ===== verification/AuthCancel.thy ===== *)
theory AuthCancel
  imports AuthMachine
begin

text \<open>
  The case the fence does not cover inside one process: a caller that goes away after the
  refresh was sent.
\<close>

text \<open>
  C30. A cancelled refresh leaves no mark. When the caller's context has ended by the time the
  exchange returns, whatever the server answered, the manager is as it was and its next caller
  sends the same refresh token again as soon as the fence can be written. (The known gap of
  \<open>docs/KNOWN_ISSUES.md\<close>; a restart would refuse, since the fence is on the disk.)
\<close>

theorem cancelled_refresh_resends:
  assumes "get_finish ax now cx old g answer a d = (a', d', r)"
    and "cx 0 = Some ce" "cx 1 \<noteq> None" "am_generation a = g" "am_refresh_err a = None"
    and "cr_token (am_cred a) \<noteq> []" "\<not> get_fresh now2 a" "am_store a = Some st"
    and "save (ax_os ax) (ax_codec ax) st ((am_cred a)\<lparr>cr_refresh_pending := True\<rparr>) d2 = (d3, Inr ())"
  shows "a' = a\<lparr>am_refreshing := None\<rparr> \<and> d' = d
    \<and> (\<exists>a2 old2 ch. get_enter ax now2 a' d2 = (a2, d3, Exchanges old2 g ch)
         \<and> cr_refresh_token old2 = cr_refresh_token (am_cred a))"
proof -
  obtain cy where cy: "cx 1 = Some cy" using assms(3) by blast
  have f: "finish_current ax now cx old answer a d =
      (a, d, \<lparr>oc_published = False, oc_usable = False, oc_err = Some ce\<rparr>)"
    using assms(2) cy by (simp add: finish_current_def)
  have a': "a' = a\<lparr>am_refreshing := None\<rparr>" and d': "d' = d"
    using assms(1,4) f by (simp_all add: get_finish_def)
  have gf: "\<not> get_fresh now2 (a\<lparr>am_refreshing := None\<rparr>)" using assms(7) by (simp add: get_fresh_def)
  then have "get_enter ax now2 a' d2 = get_fence ax now2 a' d2"
    using assms(5,6) by (simp add: get_enter_def a')
  also have "\<dots> = (a'\<lparr>am_cred := (am_cred a)\<lparr>cr_refresh_pending := True\<rparr>, am_refreshing := Some (am_channels a),
      am_channels := Suc (am_channels a)\<rparr>, d3, Exchanges ((am_cred a)\<lparr>cr_refresh_pending := True\<rparr>) g (am_channels a))"
    using assms(4,8,9) by (simp add: get_fence_def start_exchange_def a' Let_def)
  finally show ?thesis using a' d' by simp
qed

theorem cancelled_refresh_resends_witness:
  "\<exists>a d. get_enter sample_ax due (fst (get_finish sample_ax due (\<lambda>k. Some Canceled) sample_pending 0
       (Inr sample_credential) sample_manager sample_disk)) sample_disk = (a, d, Exchanges sample_pending 0 0)"
proof -
  obtain a d r where f: "get_finish sample_ax due (\<lambda>k. Some Canceled) sample_pending 0
       (Inr sample_credential) sample_manager sample_disk = (a, d, r)" by (metis prod_cases3)
  note e = fenced_enters
  have enter: "am_refresh_err sample_manager = None" "cr_token (am_cred sample_manager) \<noteq> []"
    "am_generation sample_manager = 0" "\<not> get_fresh due sample_manager" "am_cred sample_manager = sample_credential"
    by (simp_all add: sample_manager_def new_auth_manager_def sample_credential_def get_fresh_def due_def minute_def
        second_def)
  have "get_fence sample_ax due sample_manager sample_disk = (fst fenced, fenced_disk, Exchanges sample_pending 0 0)"
    using get_enter_exchanges [OF e] by simp
  then have "save (ax_os sample_ax) (ax_codec sample_ax) sample_store ((am_cred sample_manager)\<lparr>cr_refresh_pending := True\<rparr>)
      sample_disk = (fenced_disk, Inr ())"
    using get_fence_exchanges sample_manager_store by fastforce
  from cancelled_refresh_resends [OF f _ _ enter(3,1,2,4) sample_manager_store this]
  have a: "a = sample_manager\<lparr>am_refreshing := None\<rparr>" by simp
  have "sample_manager\<lparr>am_refreshing := None\<rparr> = sample_manager"
    by (simp add: sample_manager_def new_auth_manager_def)
  then show ?thesis using e a f by simp
qed

end
