(* ===== verification/ModelCatalog.thy ===== *)
theory ModelCatalog
  imports Transport
begin

text \<open>
  The model catalogue, \<open>models.go\<close>: the account's models as the upstream lists them, the
  route of each name (which upstream function, native name and token limits serve it), and
  the cache of both, keyed by a digest of the credential. Go's unspecified order of ranging
  over a map is a parameter: a function that rearranges the entries.
\<close>

section \<open>Data\<close>

record model_route =
  mr_function :: string
  mr_name :: string
  mr_base :: string
  mr_most :: int
  mr_window :: int

record model_detail =
  md_name :: string
  md_max_tokens :: int

record model_config =
  mc_name :: string
  mc_usage :: string
  mc_enabled :: bool
  mc_custom :: bool
  mc_details :: "model_detail list"
  mc_dev_window :: int
  mc_max_window :: int

record model_entry =
  me_function :: string
  me_config :: model_config

record model_cache =
  ca_models :: "string list"
  ca_at :: int
  ca_routes :: "(string \<times> model_route) list"

type_synonym cache = "(64 word \<times> model_cache) list"

text \<open>
  The client \<open>traeClient\<close>. \<open>cl_log\<close> records the requests it sent, \<open>cl_ticks\<close> counts its
  readings of the clock.
\<close>

record client =
  cl_cfg :: config
  cl_cache :: cache
  cl_log :: "http_request list"
  cl_ticks :: nat

definition cache_ttl :: int where
  "cache_ttl = 5 * minute"

definition cache_capacity :: nat where
  "cache_capacity = 8"

definition empty_route :: model_route where
  "empty_route = \<lparr>mr_function = [], mr_name = [], mr_base = [], mr_most = 0, mr_window = 0\<rparr>"

section \<open>The cache\<close>

definition prune_cache :: "int \<Rightarrow> cache \<Rightarrow> cache" where
  "prune_cache now m = filter (\<lambda>(k, c). now - ca_at c < cache_ttl) m"

text \<open>The first critical section of \<open>modelNamesAttempt\<close>.\<close>

definition cache_lookup :: "int \<Rightarrow> 64 word \<Rightarrow> cache \<Rightarrow> cache \<times> string list option" where
  "cache_lookup now g m =
     (let m' = prune_cache now m in
      (m', case map_of m' g of
             Some c \<Rightarrow> if ca_models c \<noteq> [] then Some (ca_models c) else None
           | None \<Rightarrow> None))"

text \<open>The loop for the oldest entry; \<open>0\<close> is the zero time it starts with.\<close>

definition oldest_key :: "cache \<Rightarrow> 64 word" where
  "oldest_key m = fst (foldl (\<lambda>(oldest, oldest_at) (key, c).
     if oldest_at = 0 \<or> ca_at c < oldest_at then (key, ca_at c) else (oldest, oldest_at)) (0, 0) m)"

text \<open>Its last critical section; \<open>rng\<close> is the order in which the map is ranged over.\<close>

definition cache_store ::
  "(cache \<Rightarrow> cache) \<Rightarrow> int \<Rightarrow> 64 word \<Rightarrow> string list \<Rightarrow> (string \<times> model_route) list \<Rightarrow> cache \<Rightarrow> cache" where
  "cache_store rng now g names routes m =
     (let m1 = prune_cache now m;
          m2 = (if map_of m1 g = None \<and> cache_capacity \<le> length m1
                then mdel (oldest_key (rng m1)) m1 else m1)
      in mput g \<lparr>ca_models = names, ca_at = now, ca_routes = routes\<rparr> m2)"

section \<open>Requests\<close>

definition chat_functions :: "string list" where
  "chat_functions = [''chat_v3'', ''solo_work_lite'', ''solo_agent'', ''solo_agent_lite'']"

definition chat_function :: "string \<Rightarrow> bool" where
  "chat_function fn \<longleftrightarrow> (\<exists>f \<in> set chat_functions. fn = f)"

definition header_values :: "api_credential \<Rightarrow> string \<Rightarrow> (string \<times> string) list" where
  "header_values c rid = [
     (''Content-Type'', ''application/json''),
     (''Accept'', ''text/event-stream''),
     (''Authorization'', ''Cloud-IDE-JWT '' @ ak_token c),
     (''X-Cloudide-Token'', ak_token c),
     (''x-ide-token'', ak_token c),
     (''x-uid'', ak_user_id c),
     (''x-app-id'', ''6eefa01c-1036-4c7e-9ca5-d891f63bfcd8''),
     (''x-device-id'', ak_device_id c),
     (''x-machine-id'', ak_machine_id c),
     (''x-request-id'', rid),
     (''x-ide-version'', ''0.1.69''),
     (''x-ide-version-code'', ''20260917''),
     (''x-ide-version-type'', ''stable''),
     (''x-app-version'', ''0.1.69''),
     (''x-app-version-code'', ''20260917''),
     (''x-version-code'', ''20260917''),
     (''x-device-brand'', ''ASUS TUF Gaming A15 FA507RM_FA507RM''),
     (''x-device-type'', ''windows''),
     (''x-device-platform'', ''windows''),
     (''x-os-version'', ''Windows 10 Pro''),
     (''package-type'', ''stable_cn''),
     (''x-lscbd-aid'', ''787976''),
     (''x-lscbd-platform'', ''windows''),
     (''x-ss-dp'', ''787976''),
     (''x-plugin-channel'', ''icube-ai''),
     (''app-version'', ''0.1.69''),
     (''x-bridge-transport'', ''aha''),
     (''x-ahanet-timeout'', ''86400''),
     (''x-lgw-req-sdk-type'', ''3''),
     (''x-net-sdk-domain-dispatch'', ''1''),
     (''x-ttnet-bypass-decompression'', ''1''),
     (''x-ttnet-bypass-cookie'', ''0''),
     (''request-traffic-type'', ''prod''),
     (''User-Agent'', ''Trae/0.1.69'')]"

definition headers :: "api_credential \<Rightarrow> string \<Rightarrow> (string \<times> string) list" where
  "headers c rid = foldl (\<lambda>h (k, v). set_header k v h) [] (header_values c rid)"

text \<open>The canonical keys worked out, which is also how closed requests are evaluated.\<close>

lemma headers_eq [code]:
  "headers c rid = [
     (''Content-Type'', ''application/json''),
     (''Accept'', ''text/event-stream''),
     (''Authorization'', ''Cloud-IDE-JWT '' @ ak_token c),
     (''X-Cloudide-Token'', ak_token c),
     (''X-Ide-Token'', ak_token c),
     (''X-Uid'', ak_user_id c),
     (''X-App-Id'', ''6eefa01c-1036-4c7e-9ca5-d891f63bfcd8''),
     (''X-Device-Id'', ak_device_id c),
     (''X-Machine-Id'', ak_machine_id c),
     (''X-Request-Id'', rid),
     (''X-Ide-Version'', ''0.1.69''),
     (''X-Ide-Version-Code'', ''20260917''),
     (''X-Ide-Version-Type'', ''stable''),
     (''X-App-Version'', ''0.1.69''),
     (''X-App-Version-Code'', ''20260917''),
     (''X-Version-Code'', ''20260917''),
     (''X-Device-Brand'', ''ASUS TUF Gaming A15 FA507RM_FA507RM''),
     (''X-Device-Type'', ''windows''),
     (''X-Device-Platform'', ''windows''),
     (''X-Os-Version'', ''Windows 10 Pro''),
     (''Package-Type'', ''stable_cn''),
     (''X-Lscbd-Aid'', ''787976''),
     (''X-Lscbd-Platform'', ''windows''),
     (''X-Ss-Dp'', ''787976''),
     (''X-Plugin-Channel'', ''icube-ai''),
     (''App-Version'', ''0.1.69''),
     (''X-Bridge-Transport'', ''aha''),
     (''X-Ahanet-Timeout'', ''86400''),
     (''X-Lgw-Req-Sdk-Type'', ''3''),
     (''X-Net-Sdk-Domain-Dispatch'', ''1''),
     (''X-Ttnet-Bypass-Decompression'', ''1''),
     (''X-Ttnet-Bypass-Cookie'', ''0''),
     (''Request-Traffic-Type'', ''prod''),
     (''User-Agent'', ''Trae/0.1.69'')]"
  by code_simp

text \<open>
  One upstream POST: \<open>NewRequestWithContext\<close>, the headers with \<open>extra\<close> set on top, and
  \<open>Do\<close>. The request identifier is the random text drawn for this request.
\<close>

definition post ::
  "api_env \<Rightarrow> api_credential \<Rightarrow> string \<Rightarrow> string \<times> string \<Rightarrow> json \<Rightarrow> client \<Rightarrow> client \<times> http_outcome res" where
  "post env c url extra body t =
     (case ae_url_error env url of
        Some e \<Rightarrow> (t, Inl e)
      | None \<Rightarrow>
          (let req = \<lparr>hq_method = ''POST'', hq_url = url,
                 hq_header = set_header (fst extra) (snd extra)
                   (headers c (ae_rand env (length (cl_log t)))),
                 hq_body = body\<rparr>
           in (t\<lparr>cl_log := cl_log t @ [req]\<rparr>, Inr (ae_do env (cl_log t) req))))"

definition business_code :: "string \<Rightarrow> gerror option" where
  "business_code code =
     (if code \<noteq> [] \<and> code \<noteq> ''0'' then
        (if code = ''1001'' \<or> code = ''401'' \<or> code = ''403'' then Some CredentialRejected
         else Some (ErrMsg ''Trae model list business error''))
      else None)"

text \<open>What \<open>modelJSON\<close> makes of the outcome.\<close>

definition model_reply :: "http_outcome \<Rightarrow> jobj res" where
  "model_reply out =
     (case out of
        NoReply (Some e) \<Rightarrow> Inl e
      | NoReply None \<Rightarrow> Inl (ErrMsg ''Trae model list connection failed'')
      | Reply st body \<Rightarrow>
          if st = 401 \<or> st = 403 then Inl CredentialRejected
          else if st \<noteq> 200 then Inl (ErrMsg (''Trae model list returned HTTP '' @ show_int st))
          else (case decode_map 4194304 body of
                  None \<Rightarrow> Inl (ErrMsg ''invalid Trae model list response'')
                | Some root \<Rightarrow>
                    (case business_code (api_first_string (or_empty root) [''code'']) of
                       Some e \<Rightarrow> Inl e
                     | None \<Rightarrow> Inr (or_empty root))))"

definition model_json ::
  "api_env \<Rightarrow> api_credential \<Rightarrow> string \<Rightarrow> json \<Rightarrow> client \<Rightarrow> client \<times> jobj res" where
  "model_json env c path body t =
     (case post env c (trim_slash (cf_base_url (cl_cfg t)) @ path) (''Accept'', ''application/json'') body t of
        (t', Inl e) \<Rightarrow> (t', Inl e)
      | (t', Inr out) \<Rightarrow> (t', model_reply out))"

definition batch_body :: json where
  "batch_body = JObj [
     (''functions'', JArr (map JStr chat_functions)),
     (''agent_type'', JStr []),
     (''current_config_info'', JObj [(''config_name'', JStr []), (''is_custom_model'', JBool False)]),
     (''mode_type'', jint 0),
     (''access_type'', jint 0),
     (''ab_force_vids'', JStr []),
     (''ab_autotest_advanced_mode'', jint 0),
     (''show_custom_model'', JBool True)]"

definition single_body :: "string \<Rightarrow> json" where
  "single_body fn = JObj [
     (''function'', JStr fn),
     (''config_names'', JNull),
     (''need_prompt'', JBool False),
     (''current_config_info'', JNull),
     (''poly_prompt'', JBool True),
     (''mode_type'', JNull),
     (''agent_type'', JNull)]"

section \<open>Model lists\<close>

definition read_detail :: "jobj \<Rightarrow> model_detail" where
  "read_detail d = \<lparr>md_name = api_first_string d [''model_name''],
     md_max_tokens = positive_int (jfield d ''max_tokens'')\<rparr>"

definition read_config :: "jobj \<Rightarrow> model_config" where
  "read_config raw =
     (let window = or_empty (api_object (jfield raw ''context_window_tokens'')) in
      \<lparr>mc_name = api_first_string raw [''config_name''],
       mc_usage = api_first_string raw [''usage''],
       mc_enabled = (jfield raw ''config_switch'' \<noteq> JBool False),
       mc_custom = (jfield raw ''is_custom_model'' = JBool True \<or>
          jfield (or_empty (api_object (jfield raw ''display_config''))) ''is_custom_model'' = JBool True),
       mc_details = map read_detail (records (jfield raw ''model_detail_list'')),
       mc_dev_window = positive_int (jfield window ''dev''),
       mc_max_window = positive_int (jfield window ''max'')\<rparr>)"

definition model_configs :: "json \<Rightarrow> model_config list" where
  "model_configs v = map read_config (records v)"

definition available :: "model_config \<Rightarrow> bool" where
  "available m \<longleftrightarrow> mc_name m \<noteq> [] \<and> \<not> has_prefix (to_lower (mc_name m)) ''custom_model''
     \<and> mc_enabled m \<and> \<not> mc_custom m \<and> (mc_usage m = [] \<or> mc_usage m = ''chat_completion'')"

definition detail :: "model_config \<Rightarrow> string \<Rightarrow> model_detail option" where
  "detail m suffix = List.find (\<lambda>d. has_suffix (md_name d) suffix) (mc_details m)"

type_synonym lists = "(string \<times> model_config list) list"

definition list_of :: "lists \<Rightarrow> string \<Rightarrow> model_config list" where
  "list_of ls fn = (case map_of ls fn of Some xs \<Rightarrow> xs | None \<Rightarrow> [])"

text \<open>The groups of the batch answer.\<close>

fun add_groups :: "jobj list \<Rightarrow> lists \<Rightarrow> lists" where
  "add_groups [] ls = ls"
| "add_groups (g # gs) ls =
     (let fn = api_first_string g [''function''] in
      add_groups gs
        (if chat_function fn
         then mput fn (list_of ls fn @ model_configs (jfield g ''config_info_list'')) ls else ls))"

definition has_available :: "lists \<Rightarrow> bool" where
  "has_available ls \<longleftrightarrow> (\<exists>(fn, xs) \<in> set ls. \<exists>m \<in> set xs. available m)"

text \<open>The fallback: one request per function; the first failure is kept.\<close>

fun fetch_each ::
  "api_env \<Rightarrow> api_credential \<Rightarrow> string list \<Rightarrow> lists \<Rightarrow> gerror option \<Rightarrow> client
   \<Rightarrow> client \<times> (lists \<times> gerror option) res" where
  "fetch_each env c [] ls first t = (t, Inr (ls, first))"
| "fetch_each env c (fn # fns) ls first t =
     (case model_json env c ''/api/ide/v1/get_detail_param'' (single_body fn) t of
        (t', Inl e) \<Rightarrow>
          if errors_is e CredentialRejected then (t', Inl e)
          else fetch_each env c fns ls (if first = None then Some e else first) t'
      | (t', Inr one) \<Rightarrow>
          fetch_each env c fns (mput fn (model_configs (api_field one ''config_info_list'')) ls) first t')"

text \<open>The lists are completed by single requests when the batch offered no usable model.\<close>

definition fetch_missing :: "api_env \<Rightarrow> api_credential \<Rightarrow> lists \<Rightarrow> client \<Rightarrow> client \<times> lists res" where
  "fetch_missing env c ls t =
     (if has_available ls then (t, Inr ls)
      else (case fetch_each env c chat_functions ls None t of
              (t', Inl e) \<Rightarrow> (t', Inl e)
            | (t', Inr (ls', first)) \<Rightarrow>
                (t', case first of
                       Some e \<Rightarrow> if ls' = [] then Inl e else Inr ls'
                     | None \<Rightarrow> Inr ls')))"

definition fetch_lists :: "api_env \<Rightarrow> api_credential \<Rightarrow> client \<Rightarrow> client \<times> lists res" where
  "fetch_lists env c t =
     (case model_json env c ''/api/ide/v1/batch_get_detail_param'' batch_body t of
        (t', Inl e) \<Rightarrow>
          if errors_is e CredentialRejected then (t', Inl e) else fetch_missing env c [] t'
      | (t', Inr root) \<Rightarrow>
          fetch_missing env c (add_groups (records (api_field root ''function_configs'')) []) t')"

section \<open>Routes\<close>

type_synonym entries = "(string \<times> model_entry list) list"

definition entry_of :: "entries \<Rightarrow> string \<Rightarrow> model_entry list" where
  "entry_of es k = (case map_of es k of Some g \<Rightarrow> g | None \<Rightarrow> [])"

fun add_entries :: "string \<Rightarrow> model_config list \<Rightarrow> entries \<Rightarrow> entries" where
  "add_entries fn [] es = es"
| "add_entries fn (m # ms) es =
     add_entries fn ms
       (if available m
        then mput (mc_name m) (entry_of es (mc_name m) @ [\<lparr>me_function = fn, me_config = m\<rparr>]) es else es)"

definition all_entries :: "lists \<Rightarrow> entries" where
  "all_entries ls = foldl (\<lambda>es fn. add_entries fn (list_of ls fn) es) [] chat_functions"

text \<open>The entry that serves a model: the first with a native \<open>__dev\<close> name, else the first.\<close>

definition choose_entry :: "model_entry list \<Rightarrow> model_entry" where
  "choose_entry grp =
     (case List.find (\<lambda>e. detail (me_config e) ''__dev'' \<noteq> None) grp of
        Some e \<Rightarrow> e
      | None \<Rightarrow> hd grp)"

definition base_route :: "string \<Rightarrow> model_entry list \<Rightarrow> model_route" where
  "base_route ident grp =
     (let chosen = choose_entry grp;
          route = empty_route\<lparr>mr_function := me_function chosen, mr_base := ident\<rparr>
      in case detail (me_config chosen) ''__dev'' of
           Some dev \<Rightarrow> route\<lparr>mr_name := md_name dev, mr_most := md_max_tokens dev\<rparr>
         | None \<Rightarrow> route)"

text \<open>The first nonzero window of a list of entries.\<close>

definition first_window :: "(model_config \<Rightarrow> int) \<Rightarrow> model_entry list \<Rightarrow> int" where
  "first_window f xs = foldl (\<lambda>w e. if w = 0 then f (me_config e) else w) 0 xs"

text \<open>The long-context variant, from the first entry that qualifies.\<close>

fun max_route :: "string \<Rightarrow> model_entry list \<Rightarrow> model_entry list \<Rightarrow> model_route option" where
  "max_route ident grp [] = None"
| "max_route ident grp (e # es) =
     (case detail (me_config e) ''__max'' of
        None \<Rightarrow> max_route ident grp es
      | Some mx \<Rightarrow>
          (let window = first_window mc_max_window (e # grp);
               dev_window = first_window mc_dev_window (e # grp)
           in if dev_window < window \<and> 0 < window
              then Some \<lparr>mr_function = me_function e, mr_name = md_name mx, mr_base = ident,
                         mr_most = md_max_tokens mx, mr_window = window\<rparr>
              else max_route ident grp es))"

definition max_id :: "string \<Rightarrow> string" where
  "max_id ident = ident @ ''-max''"

text \<open>One turn of the loop over \<open>entries\<close>, and the loop.\<close>

definition group_routes ::
  "entries \<Rightarrow> string \<times> model_entry list \<Rightarrow> (string \<times> model_route) list \<times> string list
   \<Rightarrow> (string \<times> model_route) list \<times> string list" where
  "group_routes es p acc =
     (case p of (ident, grp) \<Rightarrow> case acc of (routes, names) \<Rightarrow>
       (let routes = mput ident (base_route ident grp) routes; names = names @ [ident] in
        if map_of es (max_id ident) \<noteq> None then (routes, names)
        else (case max_route ident grp grp of
                None \<Rightarrow> (routes, names)
              | Some r \<Rightarrow> (mput (max_id ident) r routes, names @ [max_id ident]))))"

definition choose_routes :: "(entries \<Rightarrow> entries) \<Rightarrow> lists \<Rightarrow> (string \<times> model_route) list \<times> string list" where
  "choose_routes rng ls =
     (let es = all_entries ls;
          (routes, names) = foldl (\<lambda>acc p. group_routes es p acc) ([], []) (rng es)
      in (routes, sort names))"

section \<open>Model names\<close>

record range_order =
  ro_entries :: "entries \<Rightarrow> entries"
  ro_cache :: "cache \<Rightarrow> cache"

definition read_clock :: "api_env \<Rightarrow> client \<Rightarrow> int \<times> client" where
  "read_clock env t = (ae_now env (cl_ticks t), t\<lparr>cl_ticks := Suc (cl_ticks t)\<rparr>)"

definition model_names_attempt ::
  "range_order \<Rightarrow> api_env \<Rightarrow> api_credential \<Rightarrow> 64 word \<Rightarrow> client \<Rightarrow> client \<times> string list res" where
  "model_names_attempt ro env c g t =
     (case read_clock env t of (now, t1) \<Rightarrow>
      case cache_lookup now g (cl_cache t1) of
        (m, Some names) \<Rightarrow> (t1\<lparr>cl_cache := m\<rparr>, Inr names)
      | (m, None) \<Rightarrow>
          (case fetch_lists env c (t1\<lparr>cl_cache := m\<rparr>) of
             (t2, Inl e) \<Rightarrow> (t2, Inl e)
           | (t2, Inr ls) \<Rightarrow>
               (case choose_routes (ro_entries ro) ls of (routes, names) \<Rightarrow>
                if names = [] then (t2, Inl (ErrMsg ''Trae returned no available models''))
                else (case read_clock env t2 of (now', t3) \<Rightarrow>
                  (t3\<lparr>cl_cache := cache_store (ro_cache ro) now' g names routes (cl_cache t3)\<rparr>,
                   Inr names)))))"

definition model_names ::
  "range_order \<Rightarrow> api_env \<Rightarrow> api_credential \<Rightarrow> 64 word \<Rightarrow> client \<Rightarrow> client \<times> string list res" where
  "model_names ro env c g t =
     (case model_names_attempt ro env c g t of
        (t', Inl e) \<Rightarrow> (t', Inl (if errors_is e CredentialRejected then LoginRequired else e))
      | (t', Inr names) \<Rightarrow> (t', Inr names))"

end
