(* ===== verification/ModelCatalogCorrect.thy ===== *)
theory ModelCatalogCorrect
  imports ModelCatalog
begin

text \<open>
  What the model catalogue promises: the routes are a function of the upstream's lists,
  whatever order Go ranges over its maps; the cache keeps its bounds under every interleaving
  of its critical sections; and a listing succeeds only with models that have a route.
\<close>

section \<open>A concrete upstream\<close>

definition sample_reply :: string where
  "sample_reply = dq ''{`function_configs`:[{`function`:`chat_v3`,`config_info_list`:[{`config_name`:`a`}]}]}''"

definition sample_env :: api_env where
  "sample_env = \<lparr>ae_url_error = (\<lambda>_. None), ae_do = (\<lambda>_ _. Reply 200 sample_reply),
     ae_now = (\<lambda>i. int i + 1), ae_rand = (\<lambda>_. ''id'')\<rparr>"

definition sample_credential :: api_credential where
  "sample_credential = \<lparr>ak_version = 1, ak_token = ''t'', ak_expires_at = 1000, ak_user_id = ''u'',
     ak_client_id = ''c'', ak_device_id = ''d'', ak_machine_id = ''m''\<rparr>"

definition sample_client :: client where
  "sample_client = \<lparr>cl_cfg = default_config, cl_cache = [], cl_log = [], cl_ticks = 0\<rparr>"

definition sample_order :: range_order where
  "sample_order = \<lparr>ro_entries = rev, ro_cache = rev\<rparr>"

definition sample_config :: jobj where
  "sample_config = [(''config_name'', JStr ''alpha''),
     (''context_window_tokens'', JObj [(''dev'', jint 100), (''max'', jint 900)]),
     (''model_detail_list'', JArr [
        JObj [(''model_name'', JStr ''alpha__dev''), (''max_tokens'', jint 40)],
        JObj [(''model_name'', JStr ''alpha__max''), (''max_tokens'', jint 80)]])]"

definition sample_lists :: lists where
  "sample_lists = [(''solo_agent'', [read_config sample_config]),
     (''chat_v3'', [read_config [(''config_name'', JStr ''beta''), (''config_switch'', JBool False)],
                    read_config [(''config_name'', JStr ''alpha'')]])]"

lemma sample_names: "snd (choose_routes rev sample_lists) = [''alpha'', ''alpha-max'']"
  by code_simp

definition sample_routes :: "(string \<times> model_route) list" where
  "sample_routes = fst (choose_routes rev sample_lists)"

lemma sample_run: "choose_routes rev sample_lists = (sample_routes, [''alpha'', ''alpha-max''])"
  by (simp add: sample_routes_def sample_names prod_eq_iff)

lemma sample_listing:
  "snd (model_names sample_order sample_env sample_credential 7 sample_client) = Inr [''a'']"
  by code_simp

section \<open>Entries\<close>

definition entries_from :: "string \<Rightarrow> string \<Rightarrow> model_config list \<Rightarrow> model_entry list" where
  "entries_from ident fn ms =
     map (\<lambda>m. \<lparr>me_function = fn, me_config = m\<rparr>) (filter (\<lambda>m. available m \<and> mc_name m = ident) ms)"

definition group_of :: "lists \<Rightarrow> string \<Rightarrow> model_entry list" where
  "group_of ls ident = concat (map (\<lambda>fn. entries_from ident fn (list_of ls fn)) chat_functions)"

text \<open>The groups of an entry map are nonempty and its keys distinct.\<close>

definition entries_ok :: "entries \<Rightarrow> bool" where
  "entries_ok es \<longleftrightarrow> mwf es \<and> (\<forall>k. map_of es k \<noteq> Some [])"

lemma entry_of_mput: "entry_of (mput k v es) x = (if x = k then v else entry_of es x)"
  by (simp add: entry_of_def)

lemma add_entries_of:
  "entry_of (add_entries fn ms es) ident = entry_of es ident @ entries_from ident fn ms"
  by (induction ms arbitrary: es) (auto simp: entry_of_mput entries_from_def)

lemma add_entries_ok: "entries_ok es \<Longrightarrow> entries_ok (add_entries fn ms es)"
proof (induction ms arbitrary: es)
  case (Cons m ms)
  have "entries_ok (mput (mc_name m) (entry_of es (mc_name m) @ [\<lparr>me_function = fn, me_config = m\<rparr>]) es)"
    using Cons.prems by (simp add: entries_ok_def)
  with Cons show ?case by simp
qed simp

lemma fold_entries:
  "entries_ok es \<Longrightarrow> entries_ok (foldl (\<lambda>es fn. add_entries fn (list_of ls fn) es) es fns)"
  "entry_of (foldl (\<lambda>es fn. add_entries fn (list_of ls fn) es) es fns) ident
     = entry_of es ident @ concat (map (\<lambda>fn. entries_from ident fn (list_of ls fn)) fns)"
  by (induction fns arbitrary: es) (simp_all add: add_entries_ok add_entries_of)

lemma all_entries_ok: "entries_ok (all_entries ls)"
  unfolding all_entries_def by (rule fold_entries(1)) (simp add: entries_ok_def)

lemma all_entries_of: "entry_of (all_entries ls) ident = group_of ls ident"
  by (simp add: all_entries_def fold_entries(2) group_of_def) (simp add: entry_of_def)

lemma all_entries_map:
  "map_of (all_entries ls) ident = (if group_of ls ident = [] then None else Some (group_of ls ident))"
  using all_entries_of [of ls ident] all_entries_ok [of ls]
  by (auto simp: entry_of_def entries_ok_def split: option.splits)

section \<open>Routes\<close>

lemma max_id_inject [simp]: "max_id a = max_id b \<longleftrightarrow> a = b"
  by (simp add: max_id_def)

lemma max_id_neq [simp]: "max_id a \<noteq> a" "a \<noteq> max_id a"
  by (simp_all add: max_id_def)

text \<open>The route of a name, from the lists alone.\<close>

definition max_base :: "string \<Rightarrow> string option" where
  "max_base n = (if has_suffix n ''-max'' then Some (take (length n - 4) n) else None)"

lemma max_base_max_id [simp]: "max_base (max_id b) = Some b"
  by (simp add: max_base_def max_id_def)

lemma max_base_Some: "max_base n = Some b \<longleftrightarrow> n = max_id b"
  by (auto simp: max_base_def max_id_def has_suffix_iff split: if_splits)

definition variant_route :: "entries \<Rightarrow> string \<Rightarrow> model_route option" where
  "variant_route es b =
     (case map_of es b of Some g \<Rightarrow> max_route b g g | None \<Rightarrow> None)"

definition route_spec :: "entries \<Rightarrow> string \<Rightarrow> model_route option" where
  "route_spec es n =
     (case map_of es n of
        Some g \<Rightarrow> Some (base_route n g)
      | None \<Rightarrow> (case max_base n of Some b \<Rightarrow> variant_route es b | None \<Rightarrow> None))"

text \<open>The route of a name after the groups \<open>seen\<close>, and the invariant of the loop.\<close>

definition route_at :: "entries \<Rightarrow> entries \<Rightarrow> string \<Rightarrow> model_route option" where
  "route_at es seen n =
     (case map_of seen n of
        Some g \<Rightarrow> Some (base_route n g)
      | None \<Rightarrow> (case max_base n of
           Some b \<Rightarrow> if map_of es n = None then variant_route seen b else None
         | None \<Rightarrow> None))"

definition routes_upto :: "entries \<Rightarrow> entries \<Rightarrow> (string \<times> model_route) list \<times> string list \<Rightarrow> bool" where
  "routes_upto es seen acc \<longleftrightarrow>
     mwf (fst acc) \<and> distinct (snd acc) \<and> set (snd acc) = dom (map_of (fst acc)) \<and>
     (\<forall>n. map_of (fst acc) n = route_at es seen n)"

lemma route_at_max_id:
  "route_at es seen (max_id b) =
     (case map_of seen (max_id b) of
        Some g \<Rightarrow> Some (base_route (max_id b) g)
      | None \<Rightarrow> if map_of es (max_id b) = None then variant_route seen b else None)"
  unfolding route_at_def max_base_max_id option.case by (rule refl)

lemma route_at_step:
  assumes new: "map_of seen ident = None" and sub: "\<And>k. map_of seen k \<noteq> None \<Longrightarrow> map_of es k \<noteq> None"
  shows "route_at es (seen @ [(ident, grp)]) n =
     (if n = ident then Some (base_route ident grp)
      else if n = max_id ident \<and> map_of es n = None then max_route ident grp grp
      else route_at es seen n)"
proof -
  have seen': "map_of (seen @ [(ident, grp)]) = (map_of seen)(ident \<mapsto> grp)"
    using new by (auto simp: map_add_def fun_eq_iff split: option.splits)
  have var: "variant_route (seen @ [(ident, grp)]) b =
      (if b = ident then max_route ident grp grp else variant_route seen b)" for b
    unfolding variant_route_def seen' by simp
  consider "n = ident" | "n = max_id ident" | "n \<noteq> ident" "max_base n \<noteq> Some ident"
    by (auto simp: max_base_Some)
  then show ?thesis
  proof cases
    case 1
    then show ?thesis unfolding route_at_def seen' by simp
  next
    case 2
    show ?thesis
      using sub [of n] unfolding 2 route_at_max_id var
      unfolding seen' by (cases "map_of seen (max_id ident)") auto
  next
    case 3
    then have "n \<noteq> max_id ident" by auto
    with 3 show ?thesis
      unfolding route_at_def var unfolding seen' by (cases "map_of seen n"; cases "max_base n") auto
  qed
qed

lemma routes_upto_step:
  assumes inv: "routes_upto es seen acc" and new: "map_of seen ident = None"
    and es: "map_of es ident = Some grp" and sub: "\<And>k. map_of seen k \<noteq> None \<Longrightarrow> map_of es k \<noteq> None"
  shows "routes_upto es (seen @ [(ident, grp)]) (group_routes es (ident, grp) acc)"
proof -
  obtain routes names where acc: "acc = (routes, names)" by (cases acc)
  have old: "map_of routes n = route_at es seen n" for n using inv acc by (simp add: routes_upto_def)
  have ns: "mwf routes" "distinct names" "set names = dom (map_of routes)"
    using inv acc by (auto simp: routes_upto_def)
  have fresh: "ident \<notin> dom (map_of routes)"
    using old [of ident] new es by (auto simp: route_at_def split: option.splits)
  have at: "route_at es (seen @ [(ident, grp)]) n =
     (if n = ident then Some (base_route ident grp)
      else if n = max_id ident \<and> map_of es n = None then max_route ident grp grp
      else route_at es seen n)" for n
    by (rule route_at_step) (fact new, rule sub)
  show ?thesis
  proof (cases "map_of es (max_id ident) = None \<and> max_route ident grp grp \<noteq> None")
    case False
    have *: "group_routes es (ident, grp) acc = (mput ident (base_route ident grp) routes, names @ [ident])"
      using False by (auto simp: group_routes_def acc Let_def split: option.splits)
    have "route_at es seen (max_id ident) = None" if "map_of es (max_id ident) = None"
      using sub [of "max_id ident"] that new unfolding route_at_max_id variant_route_def
      by (cases "map_of seen (max_id ident)") auto
    with False have "map_of (mput ident (base_route ident grp) routes) n
        = route_at es (seen @ [(ident, grp)]) n" for n
      unfolding at by (auto simp: old)
    with ns fresh show ?thesis by (auto simp: routes_upto_def *)
  next
    case True
    then obtain r where r: "max_route ident grp grp = Some r" and ne: "map_of es (max_id ident) = None" by auto
    have *: "group_routes es (ident, grp) acc =
        (mput (max_id ident) r (mput ident (base_route ident grp) routes), names @ [ident] @ [max_id ident])"
      using r ne by (simp add: group_routes_def acc)
    have fresh': "max_id ident \<notin> dom (map_of routes)"
      using old [of "max_id ident"] sub [of "max_id ident"] new ne
      unfolding route_at_max_id variant_route_def
      by (cases "map_of seen (max_id ident)") auto
    have "map_of (mput (max_id ident) r (mput ident (base_route ident grp) routes)) n
        = route_at es (seen @ [(ident, grp)]) n" for n
      unfolding at using r ne by (auto simp: old)
    with ns fresh fresh' show ?thesis by (auto simp: routes_upto_def *)
  qed
qed

lemma routes_upto_fold:
  assumes "routes_upto es seen acc" "distinct (map fst (seen @ todo))"
    and "\<And>k g. (k, g) \<in> set (seen @ todo) \<Longrightarrow> map_of es k = Some g"
  shows "routes_upto es (seen @ todo) (foldl (\<lambda>acc p. group_routes es p acc) acc todo)"
  using assms
proof (induction todo arbitrary: seen acc)
  case (Cons p todo)
  obtain k g where p: "p = (k, g)" by (cases p)
  have "routes_upto es (seen @ [(k, g)]) (group_routes es (k, g) acc)"
  proof (rule routes_upto_step [OF Cons.prems(1)])
    show "map_of seen k = None" using Cons.prems(2) p by (simp add: map_of_eq_None_iff)
    show "map_of es k = Some g" using Cons.prems(3) p by simp
    show "map_of es j \<noteq> None" if "map_of seen j \<noteq> None" for j
      using that Cons.prems(3) map_of_SomeD [of seen j] by force
  qed
  from Cons.IH [OF this] Cons.prems(2,3) p show ?case by simp
qed simp

lemma choose_routes_fold:
  assumes "mset (rng (all_entries ls)) = mset (all_entries ls)"
    and "choose_routes rng ls = (routes, names)"
  obtains ns where "names = sort ns" "distinct ns" "set ns = dom (map_of routes)" "mwf routes"
    "\<And>n. map_of routes n = route_spec (all_entries ls) n"
proof -
  let ?es = "all_entries ls" and ?rs = "rng (all_entries ls)"
  have wf: "mwf ?es" using all_entries_ok by (simp add: entries_ok_def)
  have mm: "mset (map fst ?rs) = mset (map fst ?es)" using assms(1) by simp
  then have d: "distinct (map fst ?rs)" using wf by (metis mset_eq_imp_distinct_iff mwf_def)
  have st: "set ?rs = set ?es" using assms(1) by (metis set_mset_mset)
  have m: "map_of ?rs = map_of ?es"
    using d wf st by (metis map_of_inject_set mwf_def)
  have "routes_upto ?es [] ([], [])" by (auto simp: routes_upto_def route_at_def variant_route_def split: option.splits)
  from routes_upto_fold [OF this, of ?rs] d st wf
  have inv: "routes_upto ?es ?rs (foldl (\<lambda>acc p. group_routes ?es p acc) ([], []) ?rs)"
    by (simp add: mwf_def)
  obtain ns where f: "foldl (\<lambda>acc p. group_routes ?es p acc) ([], []) ?rs = (routes, ns)" "names = sort ns"
    using assms(2) by (auto simp: choose_routes_def Let_def split: prod.splits)
  have "map_of routes n = route_spec ?es n" for n
    using inv f m by (auto simp: routes_upto_def route_at_def route_spec_def variant_route_def split: option.splits)
  with inv f show thesis by (intro that [of ns]) (auto simp: routes_upto_def)
qed

lemma base_route_sound:
  assumes "grp \<noteq> []" "r = base_route ident grp"
  shows "mr_base r = ident \<and> mr_window r = 0 \<and> mr_function r \<in> me_function ` set grp"
proof -
  have "choose_entry grp \<in> set grp"
    using assms(1) by (auto simp: choose_entry_def find_Some_iff split: option.splits)
  with assms(2) show ?thesis
    by (auto simp: base_route_def Let_def empty_route_def split: option.splits)
qed

lemma max_route_sound:
  assumes "max_route ident grp es = Some r"
  shows "mr_base r = ident \<and> mr_function r \<in> me_function ` set es \<and> has_suffix (mr_name r) ''__max''
    \<and> 0 < mr_window r \<and> (\<exists>e \<in> set es. mr_window r = first_window mc_max_window (e # grp)
        \<and> first_window mc_dev_window (e # grp) < mr_window r)"
  using assms
proof (induction es)
  case (Cons e es)
  show ?case
  proof (cases "detail (me_config e) ''__max''")
    case None
    with Cons show ?thesis by auto
  next
    case (Some mx)
    then have "has_suffix (md_name mx) ''__max''" by (auto simp: detail_def find_Some_iff)
    with Some Cons show ?thesis by (auto simp: Let_def split: if_splits)
  qed
qed simp

lemma group_of_member:
  assumes "e \<in> set (group_of ls ident)"
  shows "me_function e \<in> set chat_functions \<and> me_config e \<in> set (list_of ls (me_function e))
    \<and> available (me_config e) \<and> mc_name (me_config e) = ident"
  using assms by (auto simp: group_of_def entries_from_def)

definition permutes_entries :: "(entries \<Rightarrow> entries) \<Rightarrow> bool" where
  "permutes_entries rng \<longleftrightarrow> (\<forall>es. mset (rng es) = mset es)"

text \<open>
  C12. The routes are a function of the upstream's model lists: the listed names are sorted and
  distinct, exactly the names with a route; a model offered by some chat function gets the
  route of the first entry that has a \<open>__dev\<close> native name (else the first entry), and the
  name with \<open>-max\<close> appended gets the long-context route unless a model of that name
  exists. The order in which Go ranges over its map of entries does not matter.
\<close>

theorem model_routes_exact:
  assumes "permutes_entries rng" and "choose_routes rng ls = (routes, names)"
  shows "sorted names \<and> distinct names \<and> set names = dom (map_of routes) \<and>
    (\<forall>n. map_of routes n =
       (if group_of ls n \<noteq> [] then Some (base_route n (group_of ls n))
        else (case max_base n of
                Some b \<Rightarrow> max_route b (group_of ls b) (group_of ls b)
              | None \<Rightarrow> None)))"
proof -
  have "mset (rng (all_entries ls)) = mset (all_entries ls)"
    using assms(1) by (simp add: permutes_entries_def)
  from choose_routes_fold [OF this assms(2)] obtain ns where
    *: "names = sort ns" "distinct ns" "set ns = dom (map_of routes)"
      "\<And>n. map_of routes n = route_spec (all_entries ls) n" by blast
  have "route_spec (all_entries ls) n =
       (if group_of ls n \<noteq> [] then Some (base_route n (group_of ls n))
        else (case max_base n of
                Some b \<Rightarrow> max_route b (group_of ls b) (group_of ls b)
              | None \<Rightarrow> None))" for n
    unfolding route_spec_def all_entries_map variant_route_def by (auto split: option.splits)
  with * show ?thesis by simp
qed

theorem model_routes_exact_witness:
  "set [''alpha'', ''alpha-max''] = dom (map_of sample_routes)"
  using model_routes_exact [OF _ sample_run] by (simp add: permutes_entries_def)

text \<open>
  No model is invented: a listed name is the name of an available model of the chat
  function its route uses, served without a window bound, or such a name with \<open>-max\<close>
  appended, and then its route names a \<open>__max\<close> native model with a positive window.
\<close>

theorem model_routes_sound:
  assumes "permutes_entries rng" and "choose_routes rng ls = (routes, names)" and "n \<in> set names"
  shows "\<exists>r m. map_of routes n = Some r \<and> mr_function r \<in> set chat_functions
    \<and> m \<in> set (list_of ls (mr_function r)) \<and> available m \<and> mc_name m = mr_base r
    \<and> (n = mr_base r \<and> mr_window r = 0 \<or>
       n = mr_base r @ ''-max'' \<and> 0 < mr_window r \<and> has_suffix (mr_name r) ''__max'')"
proof -
  have "mset (rng (all_entries ls)) = mset (all_entries ls)"
    using assms(1) by (simp add: permutes_entries_def)
  from choose_routes_fold [OF this assms(2)] assms(3) obtain r where
    r: "map_of routes n = Some r" "route_spec (all_entries ls) n = Some r" by (metis domD set_sort)
  show ?thesis
  proof (cases "group_of ls n = []")
    case False
    with r(2) have "r = base_route n (group_of ls n)" by (simp add: route_spec_def all_entries_map)
    from base_route_sound [OF False this] group_of_member [of _ ls n] r(1) show ?thesis by fastforce
  next
    case True
    with r(2) obtain b where b: "n = max_id b" "max_route b (group_of ls b) (group_of ls b) = Some r"
      by (auto simp: route_spec_def all_entries_map variant_route_def max_base_Some
          split: option.splits if_splits)
    from max_route_sound [OF b(2)] group_of_member [of _ ls b] r(1) b(1) show ?thesis
      by (fastforce simp: max_id_def)
  qed
qed

theorem model_routes_sound_witness:
  "\<exists>r m. map_of sample_routes ''alpha-max'' = Some r \<and> mr_function r \<in> set chat_functions
    \<and> m \<in> set (list_of sample_lists (mr_function r)) \<and> mc_name m = mr_base r"
  using model_routes_sound [OF _ sample_run, of "''alpha-max''"]
  by (auto simp: permutes_entries_def)

section \<open>The cache\<close>

text \<open>
  A state is the clock and the map. The two critical sections of \<open>modelNamesAttempt\<close> are
  the steps; between them other calls may run, and every reading of the clock is at least as
  late as the one before. What is stored is what \<open>choose_routes\<close> found, if anything, in
  lists of models that were read from upstream JSON.
\<close>

definition permutes_cache :: "(cache \<Rightarrow> cache) \<Rightarrow> bool" where
  "permutes_cache rng \<longleftrightarrow> (\<forall>m. mset (rng m) = mset m)"

definition lists_read :: "lists \<Rightarrow> bool" where
  "lists_read ls \<longleftrightarrow> (\<forall>p \<in> set ls. set (snd p) \<subseteq> range read_config)"

inductive cache_step :: "int \<times> cache \<Rightarrow> int \<times> cache \<Rightarrow> bool" where
  lookup_step: "now \<le> now' \<Longrightarrow> cache_step (now, m) (now', fst (cache_lookup now' g m))"
| store_step: "now \<le> now' \<Longrightarrow> permutes_cache rng_c \<Longrightarrow> permutes_entries rng_e \<Longrightarrow>
    lists_read ls \<Longrightarrow> choose_routes rng_e ls = (routes, names) \<Longrightarrow> names \<noteq> [] \<Longrightarrow>
    cache_step (now, m) (now', cache_store rng_c now' g names routes m)"

definition cache_init :: "int \<times> cache \<Rightarrow> bool" where
  "cache_init s \<longleftrightarrow> snd s = [] \<and> 0 < fst s"

text \<open>What a route promises to the request that uses it.\<close>

definition route_ok :: "string \<Rightarrow> model_route \<Rightarrow> bool" where
  "route_ok n r \<longleftrightarrow> mr_function r \<in> set chat_functions \<and> mr_base r \<noteq> []
     \<and> 0 \<le> mr_most r \<and> mr_most r < 2 ^ 30 \<and> 0 \<le> mr_window r \<and> mr_window r < 2 ^ 30
     \<and> (n = mr_base r \<and> mr_window r = 0 \<or> n = mr_base r @ ''-max'' \<and> 0 < mr_window r)"

definition entry_ok :: "int \<Rightarrow> model_cache \<Rightarrow> bool" where
  "entry_ok now c \<longleftrightarrow> 0 < ca_at c \<and> ca_at c \<le> now \<and> ca_models c \<noteq> []
     \<and> distinct (ca_models c) \<and> set (ca_models c) = dom (map_of (ca_routes c))
     \<and> (\<forall>n r. map_of (ca_routes c) n = Some r \<longrightarrow> route_ok n r)"

definition cache_inv :: "int \<times> cache \<Rightarrow> bool" where
  "cache_inv s \<longleftrightarrow> 0 < fst s \<and> mwf (snd s) \<and> length (snd s) \<le> cache_capacity
     \<and> (\<forall>(k, c) \<in> set (snd s). entry_ok (fst s) c)"

lemma read_config_bounds:
  assumes "m \<in> range read_config"
  shows "0 \<le> mc_max_window m \<and> mc_max_window m < 2 ^ 30 \<and> 0 \<le> mc_dev_window m"
    and "detail m suffix = Some d \<Longrightarrow> 0 \<le> md_max_tokens d \<and> md_max_tokens d < 2 ^ 30"
proof -
  obtain raw where m: "m = read_config raw" using assms by auto
  show "0 \<le> mc_max_window m \<and> mc_max_window m < 2 ^ 30 \<and> 0 \<le> mc_dev_window m"
    using positive_int_range by (simp add: m read_config_def Let_def)
  assume "detail m suffix = Some d"
  then have "d \<in> set (mc_details m)" by (auto simp: detail_def find_Some_iff)
  then show "0 \<le> md_max_tokens d \<and> md_max_tokens d < 2 ^ 30"
    using positive_int_range by (auto simp: m read_config_def read_detail_def Let_def)
qed

lemma first_window_mem: "first_window f xs = 0 \<or> (\<exists>e \<in> set xs. first_window f xs = f (me_config e))"
proof -
  have "foldl (\<lambda>w e. if w = 0 then f (me_config e) else w) a xs = a
      \<or> (\<exists>e \<in> set xs. foldl (\<lambda>w e. if w = 0 then f (me_config e) else w) a xs = f (me_config e))" for a
  proof (induction xs arbitrary: a)
    case (Cons e xs)
    show ?case using Cons.IH [of a] Cons.IH [of "f (me_config e)"] by (cases "a = 0") (simp, simp, blast)
  qed simp
  from this [of 0] show ?thesis by (simp only: first_window_def)
qed

lemma list_of_read:
  assumes "lists_read ls" shows "set (list_of ls fn) \<subseteq> range read_config"
proof (cases "map_of ls fn")
  case (Some xs)
  have "set (snd (fn, xs)) \<subseteq> range read_config"
    using map_of_SomeD [OF Some] assms unfolding lists_read_def by (rule bspec [rotated])
  then show ?thesis by (simp add: list_of_def Some)
qed (simp add: list_of_def)

lemma group_read: "lists_read ls \<Longrightarrow> e \<in> set (group_of ls b) \<Longrightarrow> me_config e \<in> range read_config"
  using group_of_member [of e ls b] list_of_read by blast

lemma base_route_most:
  assumes "\<forall>e \<in> set grp. me_config e \<in> range read_config" "grp \<noteq> []"
  shows "0 \<le> mr_most (base_route b grp) \<and> mr_most (base_route b grp) < 2 ^ 30"
proof -
  have "choose_entry grp \<in> set grp"
    using assms(2) by (auto simp: choose_entry_def find_Some_iff split: option.splits)
  then have "me_config (choose_entry grp) \<in> range read_config" using assms(1) by blast
  then show ?thesis
    using read_config_bounds(2) by (auto simp: base_route_def Let_def empty_route_def split: option.splits)
qed

lemma max_route_bounds:
  assumes "\<forall>e \<in> set (es @ grp). me_config e \<in> range read_config" "max_route b grp es = Some r"
  shows "0 \<le> mr_most r \<and> mr_most r < 2 ^ 30 \<and> mr_window r < 2 ^ 30"
  using assms
proof (induction es)
  case (Cons e es)
  show ?case
  proof (cases "detail (me_config e) ''__max''")
    case None
    with Cons show ?thesis by auto
  next
    case (Some mx)
    have "me_config e \<in> range read_config" using Cons.prems(1) by simp
    from read_config_bounds(2) [OF this Some]
    have mx: "0 \<le> md_max_tokens mx \<and> md_max_tokens mx < 2 ^ 30" .
    have "mc_max_window (me_config x) < 2 ^ 30" if "x \<in> set (e # grp)" for x
      using read_config_bounds(1) [of "me_config x"] Cons.prems(1) that by auto
    then have "first_window mc_max_window (e # grp) < 2 ^ 30"
      using first_window_mem [of mc_max_window "e # grp"] by auto
    with Some mx Cons show ?thesis by (auto simp: Let_def split: if_splits)
  qed
qed simp

lemma choose_routes_ok:
  assumes rng: "permutes_entries rng" and ls: "lists_read ls"
    and ch: "choose_routes rng ls = (routes, names)" and n: "map_of routes n = Some r"
  shows "route_ok n r"
proof -
  have "mset (rng (all_entries ls)) = mset (all_entries ls)"
    using rng by (simp add: permutes_entries_def)
  from choose_routes_fold [OF this ch] n have spec: "route_spec (all_entries ls) n = Some r" by metis
  show ?thesis
  proof (cases "group_of ls n = []")
    case False
    with spec have r: "r = base_route n (group_of ls n)" by (simp add: route_spec_def all_entries_map)
    have "hd (group_of ls n) \<in> set (group_of ls n)" using False by simp
    from group_of_member [OF this] have "n \<noteq> []" by (auto simp: available_def)
    moreover have "mr_function r \<in> set chat_functions"
      using base_route_sound [OF False r] group_of_member [of _ ls n] by auto
    ultimately show ?thesis
      using base_route_sound [OF False r] base_route_most [OF _ False, of n] group_read [OF ls] r
      by (auto simp: route_ok_def)
  next
    case True
    with spec obtain b where b: "n = max_id b" "max_route b (group_of ls b) (group_of ls b) = Some r"
      by (auto simp: route_spec_def all_entries_map variant_route_def max_base_Some
          split: option.splits if_splits)
    then have "group_of ls b \<noteq> []" by auto
    then have "hd (group_of ls b) \<in> set (group_of ls b)" by simp
    from group_of_member [OF this] have "b \<noteq> []" by (auto simp: available_def)
    moreover have "mr_function r \<in> set chat_functions"
      using max_route_sound [OF b(2)] group_of_member [of _ ls b] by auto
    ultimately show ?thesis
      using max_route_sound [OF b(2)] max_route_bounds [OF _ b(2)] group_read [OF ls] b(1)
      by (auto simp: route_ok_def max_id_def)
  qed
qed

lemma model_configs_read: "set (model_configs v) \<subseteq> range read_config"
  by (auto simp: model_configs_def)

lemma lists_read_mput:
  assumes "lists_read ls" "set xs \<subseteq> range read_config" shows "lists_read (mput fn xs ls)"
proof -
  have "set (mput fn xs ls) \<subseteq> insert (fn, xs) (set ls)" by (auto simp: mput_def)
  moreover have "\<forall>p \<in> insert (fn, xs) (set ls). set (snd p) \<subseteq> range read_config"
    using assms by (simp add: lists_read_def)
  ultimately show ?thesis unfolding lists_read_def by blast
qed

lemma add_groups_read: "lists_read ls \<Longrightarrow> lists_read (add_groups gs ls)"
proof (induction gs arbitrary: ls)
  case (Cons g gs)
  have "lists_read (mput fn (list_of ls fn @ model_configs v) ls)" for fn v
    by (rule lists_read_mput [OF Cons.prems])
      (simp add: list_of_read [OF Cons.prems] model_configs_read)
  with Cons.prems show ?case
    unfolding add_groups.simps Let_def by (intro Cons.IH) (simp del: api_first_string.simps)
qed simp

lemma fetch_each_read:
  "lists_read ls \<Longrightarrow> snd (fetch_each env c fns ls first t) = Inr (ls', e) \<Longrightarrow> lists_read ls'"
proof (induction fns arbitrary: ls first t)
  case (Cons fn fns)
  have "lists_read (mput fn (model_configs v) ls)" for v
    using Cons.prems(1) model_configs_read by (rule lists_read_mput)
  with Cons show ?case by (auto split: prod.splits sum.splits if_splits)
qed simp

lemma fetch_lists_read:
  assumes "fetch_lists env c t = (t', Inr ls)" shows "lists_read ls"
proof -
  have m: "lists_read ls'"
    if "lists_read ls" "fetch_missing env c ls t = (t', Inr ls')" for ls t ls'
    using that fetch_each_read [OF that(1), of env c chat_functions None t]
    by (auto simp: fetch_missing_def split: if_splits prod.splits sum.splits option.splits)
  have "lists_read []" by (simp add: lists_read_def)
  note start = this add_groups_read [OF this]
  obtain t1 r where j: "model_json env c ''/api/ide/v1/batch_get_detail_param'' batch_body t = (t1, r)"
    by fastforce
  show ?thesis
    using assms m [OF start(1)] m [OF start(2)]
    by (cases r) (auto simp: fetch_lists_def j split: if_splits)
qed

lemma entry_ok_later: "entry_ok now c \<Longrightarrow> now \<le> now' \<Longrightarrow> entry_ok now' c"
  by (auto simp: entry_ok_def)

lemma prune_cache_inv: "cache_inv (now, m) \<Longrightarrow> now \<le> now' \<Longrightarrow> cache_inv (now', prune_cache now' m)"
  by (auto simp: cache_inv_def prune_cache_def entry_ok_later intro: le_trans [OF length_filter_le])

lemma fst_cache_lookup [simp]: "fst (cache_lookup now g m) = prune_cache now m"
  by (simp add: cache_lookup_def Let_def)

text \<open>The loop finds an entry that no other one precedes.\<close>

definition earlier :: "64 word \<times> int \<Rightarrow> 64 word \<times> model_cache \<Rightarrow> 64 word \<times> int" where
  "earlier acc p = (if snd acc = 0 \<or> ca_at (snd p) < snd acc then (fst p, ca_at (snd p)) else acc)"

lemma oldest_key_earlier: "oldest_key m = fst (foldl earlier (0, 0) m)"
proof -
  have "(\<lambda>(oldest, oldest_at) (key, c). if oldest_at = 0 \<or> ca_at c < oldest_at
      then (key, ca_at c) else (oldest, oldest_at)) = earlier"
    by (auto simp: fun_eq_iff earlier_def)
  then show ?thesis by (simp add: oldest_key_def)
qed

definition stamp :: "64 word \<times> model_cache \<Rightarrow> 64 word \<times> int" where
  "stamp p = (fst p, ca_at (snd p))"

lemma fold_earlier_mem: "foldl earlier acc m \<in> insert acc (stamp ` set m)"
proof (induction m arbitrary: acc)
  case (Cons p m)
  have "earlier acc p = acc \<or> earlier acc p = stamp p" by (auto simp: earlier_def stamp_def)
  with Cons [of "earlier acc p"] show ?case by auto
qed simp

lemma fold_earlier_le:
  assumes "\<forall>p \<in> set m. 0 < ca_at (snd p)" and "0 < snd acc"
  shows "snd (foldl earlier acc m) \<le> snd acc \<and> (\<forall>p \<in> set m. snd (foldl earlier acc m) \<le> ca_at (snd p))"
  using assms
proof (induction m arbitrary: acc)
  case (Cons p m)
  have a: "0 < snd (earlier acc p)" "snd (earlier acc p) \<le> snd acc" "snd (earlier acc p) \<le> ca_at (snd p)"
    using Cons.prems by (auto simp: earlier_def)
  have "snd (foldl earlier (earlier acc p) m) \<le> snd (earlier acc p)"
    "\<forall>q \<in> set m. snd (foldl earlier (earlier acc p) m) \<le> ca_at (snd q)"
    using Cons.IH [of "earlier acc p"] a(1) Cons.prems(1) by auto
  with a show ?case by auto
qed simp

lemma oldest_key_oldest:
  assumes "m \<noteq> []" and "\<forall>p \<in> set m. 0 < ca_at (snd p)"
  shows "\<exists>c. (oldest_key m, c) \<in> set m \<and> (\<forall>p \<in> set m. ca_at c \<le> ca_at (snd p))"
proof -
  obtain p0 m' where m: "m = p0 # m'" using assms(1) by (cases m) auto
  have acc: "earlier (0, 0) p0 = stamp p0" by (simp add: earlier_def stamp_def)
  have k: "oldest_key m = fst (foldl earlier (stamp p0) m')"
    unfolding oldest_key_earlier m foldl.simps acc ..
  have "foldl earlier (stamp p0) m' \<in> stamp ` set m"
    using fold_earlier_mem [of "stamp p0" m'] m by auto
  then obtain q where q: "q \<in> set m" "foldl earlier (stamp p0) m' = stamp q" by blast
  have "\<forall>p \<in> set m. ca_at (snd q) \<le> ca_at (snd p)"
    using fold_earlier_le [of m' "stamp p0"] assms(2) q(2) m by (auto simp: stamp_def)
  then show ?thesis using q k by (intro exI [of _ "snd q"]) (simp add: stamp_def)
qed

lemma cache_store_inv:
  assumes inv: "cache_inv (now, m)" and now: "now \<le> now'" and rng: "permutes_cache rng"
    and new: "entry_ok now' \<lparr>ca_models = names, ca_at = now', ca_routes = routes\<rparr>"
  shows "cache_inv (now', cache_store rng now' g names routes m)"
proof -
  let ?m1 = "prune_cache now' m"
  let ?full = "map_of ?m1 g = None \<and> cache_capacity \<le> length ?m1"
  define m2 where "m2 = (if ?full then mdel (oldest_key (rng ?m1)) ?m1 else ?m1)"
  have i1: "cache_inv (now', ?m1)" using prune_cache_inv [OF inv now] .
  have sub: "set m2 \<subseteq> set ?m1" by (auto simp: m2_def mdel_def)
  have ok2: "cache_inv (now', m2)" and len: "map_of m2 g = None \<Longrightarrow> length m2 < cache_capacity"
  proof -
    have ne: "?m1 \<noteq> []" if ?full using that by (auto simp: cache_capacity_def)
    have rs: "set (rng ?m1) = set ?m1" using rng by (metis permutes_cache_def set_mset_mset)
    have pos: "\<forall>p \<in> set ?m1. 0 < ca_at (snd p)"
      using i1 by (auto simp: cache_inv_def entry_ok_def)
    have "oldest_key (rng ?m1) \<in> fst ` set ?m1" if ?full
    proof -
      have "rng ?m1 \<noteq> []" using ne [OF that] rs by auto
      from oldest_key_oldest [OF this] pos show ?thesis unfolding rs by force
    qed
    then have "length m2 < length ?m1" if ?full
      using that by (simp add: m2_def length_mdel_less)
    then show "map_of m2 g = None \<Longrightarrow> length m2 < cache_capacity"
      using i1 by (cases ?full) (auto simp: m2_def cache_inv_def)
    show "cache_inv (now', m2)"
      using i1 by (auto simp: cache_inv_def m2_def mdel_def intro: le_trans [OF length_filter_le])
  qed
  have eq: "cache_store rng now' g names routes m =
      mput g \<lparr>ca_models = names, ca_at = now', ca_routes = routes\<rparr> m2"
    by (simp add: cache_store_def m2_def Let_def)
  have "set (mput g v m2) \<subseteq> insert (g, v) (set m2)" for v by (auto simp: mput_def)
  moreover have "length (mput g v m2) \<le> cache_capacity" for v
    using ok2 len by (auto simp: length_mput cache_inv_def map_of_eq_None_iff)
  ultimately show ?thesis
    unfolding eq using ok2 new by (fastforce simp: cache_inv_def)
qed

interpretation cache_machine: inductive_invariant cache_init cache_step cache_inv
proof unfold_locales
  show "cache_init s \<Longrightarrow> cache_inv s" for s by (simp add: cache_init_def cache_inv_def)
  show "cache_inv t" if "cache_inv s" "cache_step s t" for s t
    using that(2,1)
  proof cases
    case (lookup_step now now' m g)
    with that(1) show ?thesis by (simp add: prune_cache_inv)
  next
    case (store_step now now' rng_c rng_e ls routes names m g)
    have "0 < now" using that(1) store_step(1) by (simp add: cache_inv_def)
    moreover have "distinct names \<and> set names = dom (map_of routes)"
    proof -
      have "mset (rng_e (all_entries ls)) = mset (all_entries ls)"
        using store_step by (simp add: permutes_entries_def)
      from choose_routes_fold [OF this store_step(7)] show ?thesis by (metis distinct_sort set_sort)
    qed
    moreover note choose_routes_ok [OF store_step(5-7)]
    ultimately show ?thesis
      using store_step that(1) by (auto intro!: cache_store_inv simp: entry_ok_def)
  qed
qed

text \<open>
  C13. Under every interleaving of the critical sections that readers and writers of the
  cache run, the cache has at most eight entries under distinct keys, and every entry has a
  nonempty list of distinct names, each with a route and no route besides; a route is for
  the model asked for (or its \<open>-max\<close> variant), names a chat function and has limits
  below \<open>2^30\<close>.
\<close>

theorem model_cache_invariant:
  assumes "reaches cache_init cache_step (now, m)"
  shows "length m \<le> 8 \<and> distinct (map fst m) \<and>
    (\<forall>(k, c) \<in> set m. ca_models c \<noteq> [] \<and> distinct (ca_models c) \<and> ca_at c \<le> now
       \<and> set (ca_models c) = dom (map_of (ca_routes c))
       \<and> (\<forall>n r. map_of (ca_routes c) n = Some r \<longrightarrow> route_ok n r))"
proof -
  have "cache_inv (now, m)" using cache_machine.reachable_inv [OF assms] .
  then have "length m \<le> 8" "distinct (map fst m)" "\<forall>(k, c) \<in> set m. entry_ok now c"
    by (simp_all add: cache_inv_def mwf_def cache_capacity_def)
  then show ?thesis unfolding entry_ok_def split_def by blast
qed

lemma sample_read: "lists_read sample_lists"
  by (simp add: lists_read_def sample_lists_def)

theorem model_cache_invariant_witness:
  "length (cache_store rev 2 5 [''alpha'', ''alpha-max''] sample_routes []) \<le> 8"
proof -
  have "reaches cache_init cache_step (1, [])" by (rule reaches_init) (simp add: cache_init_def)
  moreover have "cache_step (1, []) (2, cache_store rev 2 5 [''alpha'', ''alpha-max''] sample_routes [])"
    by (rule store_step [OF _ _ _ sample_read sample_run])
      (simp_all add: permutes_cache_def permutes_entries_def)
  ultimately have "reaches cache_init cache_step
      (2, cache_store rev 2 5 [''alpha'', ''alpha-max''] sample_routes [])"
    by (rule reaches_step)
  from model_cache_invariant [OF this] show ?thesis by simp
qed

text \<open>
  What was stored is what a later lookup returns, for five minutes and no longer;
  storing under a full cache removes one entry only, and no remaining one is older.
\<close>

theorem model_cache_roundtrip:
  assumes "cache_inv (now, m)" and "now \<le> at" and "permutes_cache rng" and "names \<noteq> []"
    and "m' = cache_store rng at g names routes m"
  shows "(\<forall>later. snd (cache_lookup later g m') = (if later - at < 5 * minute then Some names else None))
    \<and> (\<forall>k c. k \<noteq> g \<longrightarrow> map_of m k = Some c \<longrightarrow> at - ca_at c < 5 * minute \<longrightarrow>
         map_of m' k = Some c \<or>
         (map_of m' k = None \<and> (\<forall>(j, d) \<in> set m'. ca_at c \<le> ca_at d)
            \<and> (\<forall>j d. j \<noteq> k \<longrightarrow> map_of (prune_cache at m) j = Some d \<longrightarrow> map_of m' j = Some d)))"
proof -
  let ?m1 = "prune_cache at m" and ?new = "\<lparr>ca_models = names, ca_at = at, ca_routes = routes\<rparr>"
  let ?full = "map_of ?m1 g = None \<and> cache_capacity \<le> length ?m1"
  have i1: "cache_inv (at, ?m1)" using prune_cache_inv assms(1,2) .
  have m': "map_of m' = (if ?full then (map_of ?m1)(oldest_key (rng ?m1) := None) else map_of ?m1)(g \<mapsto> ?new)"
    by (simp add: assms(5) cache_store_def Let_def)
  have pr: "map_of (prune_cache now m) k
      = (case map_of m k of Some c \<Rightarrow> if now - ca_at c < cache_ttl then Some c else None | None \<Rightarrow> None)"
    if "mwf m" for now m k
    using that unfolding prune_cache_def mwf_def
    by (induction m) (auto split: option.splits if_splits simp: map_of_eq_None_iff)
  have wf': "mwf m'" using i1 by (simp add: assms(5) cache_store_def cache_inv_def Let_def)
  have "snd (cache_lookup later g m') = (if later - at < 5 * minute then Some names else None)" for later
    using assms(4) by (simp add: cache_lookup_def pr [OF wf'] m' cache_ttl_def)
  moreover have "map_of m' k = Some c \<or>
         (map_of m' k = None \<and> (\<forall>(j, d) \<in> set m'. ca_at c \<le> ca_at d)
            \<and> (\<forall>j d. j \<noteq> k \<longrightarrow> map_of ?m1 j = Some d \<longrightarrow> map_of m' j = Some d))"
    if k: "k \<noteq> g" "map_of m k = Some c" "at - ca_at c < 5 * minute" for k c
  proof (cases "?full \<and> oldest_key (rng ?m1) = k")
    case False
    have "map_of ?m1 k = Some c"
      using k assms(1) by (simp add: pr cache_inv_def cache_ttl_def)
    with False k(1) show ?thesis by (auto simp: m')
  next
    case True
    have k1: "map_of ?m1 k = Some c"
      using k assms(1) by (simp add: pr cache_inv_def cache_ttl_def)
    have rs: "set (rng ?m1) = set ?m1" using assms(3) by (metis permutes_cache_def set_mset_mset)
    have pos: "\<forall>p \<in> set (rng ?m1). 0 < ca_at (snd p)"
      using i1 unfolding rs by (auto simp: cache_inv_def entry_ok_def)
    have "rng ?m1 \<noteq> []" using map_of_SomeD [OF k1] rs by auto
    from oldest_key_oldest [OF this pos] True obtain d where
      d: "(k, d) \<in> set ?m1" "\<forall>p \<in> set ?m1. ca_at d \<le> ca_at (snd p)" unfolding rs by blast
    have "d = c" using d(1) k1 i1 by (simp add: cache_inv_def mwf_def)
    have "set m' \<subseteq> insert (g, ?new) (set ?m1)"
      by (auto simp: assms(5) cache_store_def Let_def mput_def mdel_def)
    moreover have "ca_at c \<le> at" using map_of_SomeD [OF k1] i1 by (auto simp: cache_inv_def entry_ok_def)
    ultimately have "\<forall>(j, d) \<in> set m'. ca_at c \<le> ca_at d" using d(2) \<open>d = c\<close> by fastforce
    moreover have "map_of m' k = None" using True k(1) by (auto simp: m')
    moreover have "map_of m' j = Some d" if "j \<noteq> k" "map_of ?m1 j = Some d" for j d
      using True that by (auto simp: m')
    ultimately show ?thesis by blast
  qed
  ultimately show ?thesis by blast
qed

theorem model_cache_roundtrip_witness:
  "snd (cache_lookup 3 5 (cache_store rev 2 5 [''alpha''] [] [])) = Some [''alpha'']"
  using model_cache_roundtrip [of 1 "[]" 2 rev "[''alpha'']" _ 5 "[]", OF _ _ _ _ refl]
  by (simp add: cache_inv_def permutes_cache_def minute_def second_def)

section \<open>Listing the models\<close>

text \<open>
  A request to the configured upstream in the name of a credential, and a run that sends at
  most \<open>n\<close> such requests: \<open>logged\<close> for any run, \<open>sends\<close> for one that leaves everything
  but the log alone.
\<close>

definition upstream_base :: "client \<Rightarrow> string" where
  "upstream_base t = trim_slash (cf_base_url (cl_cfg t))"

definition authorized :: "string \<Rightarrow> api_credential \<Rightarrow> http_request \<Rightarrow> bool" where
  "authorized base c q \<longleftrightarrow> hq_method q = ''POST'' \<and> has_prefix (hq_url q) base
     \<and> map_of (hq_header q) ''Authorization'' = Some (''Cloud-IDE-JWT '' @ ak_token c)"

definition logged :: "api_credential \<Rightarrow> nat \<Rightarrow> client \<Rightarrow> client \<Rightarrow> bool" where
  "logged c n t t' \<longleftrightarrow> cl_cfg t' = cl_cfg t \<and> (\<exists>xs. cl_log t' = cl_log t @ xs \<and> length xs \<le> n
     \<and> (\<forall>q \<in> set xs. authorized (upstream_base t) c q))"

definition sends :: "api_credential \<Rightarrow> nat \<Rightarrow> client \<Rightarrow> client \<Rightarrow> bool" where
  "sends c n t t' \<longleftrightarrow> (\<exists>xs. t' = t\<lparr>cl_log := cl_log t @ xs\<rparr> \<and> length xs \<le> n
     \<and> (\<forall>q \<in> set xs. authorized (upstream_base t) c q))"

lemma logged_refl [simp]: "cl_cfg t' = cl_cfg t \<Longrightarrow> cl_log t' = cl_log t \<Longrightarrow> logged c n t t'"
  by (simp add: logged_def)

lemma logged_trans: "logged c a t u \<Longrightarrow> logged c b u v \<Longrightarrow> logged c (a + b) t v"
  unfolding logged_def upstream_base_def
  by (elim exE conjE, intro conjI, simp, rule_tac x = "xs @ xsa" in exI) auto

lemma logged_mono: "logged c a t u \<Longrightarrow> a \<le> b \<Longrightarrow> logged c b t u"
  unfolding logged_def by fastforce

lemma logged_length: "logged c n t t' \<Longrightarrow> length (cl_log t') \<le> length (cl_log t) + n"
  by (auto simp: logged_def)

lemma logged_same:
  "cl_cfg u = cl_cfg t \<Longrightarrow> cl_log u = cl_log t \<Longrightarrow> cl_cfg u' = cl_cfg t' \<Longrightarrow> cl_log u' = cl_log t'
   \<Longrightarrow> logged c n u u' = logged c n t t'"
  by (simp add: logged_def upstream_base_def)

lemma sends_refl [simp]: "sends c n t t"
  unfolding sends_def by (rule exI [of _ "[]"]) simp

lemma sends_logged: "sends c n t t' \<Longrightarrow> logged c n t t'"
  by (auto simp: sends_def logged_def)

lemma sends_trans: "sends c a t u \<Longrightarrow> sends c b u v \<Longrightarrow> sends c (a + b) t v"
  unfolding sends_def upstream_base_def
  by (elim exE conjE, rule_tac x = "xs @ xsa" in exI) auto

lemma sends_mono: "sends c a t u \<Longrightarrow> a \<le> b \<Longrightarrow> sends c b t u"
  unfolding sends_def by fastforce

lemma sends_fields:
  "sends c n t t' \<Longrightarrow> cl_cache t' = cl_cache t \<and> cl_ticks t' = cl_ticks t \<and> cl_cfg t' = cl_cfg t"
  by (auto simp: sends_def)

lemma post_sends:
  assumes "canonical_key (fst extra) \<noteq> ''Authorization''" "has_prefix url (upstream_base t)"
  shows "sends c 1 t (fst (post env c url extra body t))"
proof (cases "ae_url_error env url")
  case None
  then show ?thesis unfolding sends_def post_def Let_def None option.case fst_conv
    by (rule_tac exI) (rule conjI, rule refl, use assms in \<open>simp add: authorized_def headers_eq\<close>)
qed (simp add: post_def)

lemma canonical_accept: "canonical_key ''Accept'' = ''Accept''"
  by code_simp

lemma model_json_sends: "sends c 1 t (fst (model_json env c path body t))"
proof -
  have "fst (model_json env c path body t) = fst (post env c (trim_slash (cf_base_url (cl_cfg t)) @ path)
      (''Accept'', ''application/json'') body t)"
    by (simp add: model_json_def split: prod.split sum.split)
  then show ?thesis
    using post_sends [of "(''Accept'', ''application/json'')" "trim_slash (cf_base_url (cl_cfg t)) @ path" t]
    by (simp add: canonical_accept upstream_base_def)
qed

lemma fetch_each_sends: "sends c (length fns) t (fst (fetch_each env c fns ls first t))"
proof (induction fns arbitrary: ls first t)
  case (Cons fn fns)
  obtain t' r where j: "model_json env c ''/api/ide/v1/get_detail_param'' (single_body fn) t = (t', r)"
    by fastforce
  have one: "sends c 1 t t'" using model_json_sends [of c t env] j by (metis fst_conv)
  have "sends c (1 + length fns) t (fst (fetch_each env c fns l f t'))" for l f
    by (rule sends_trans [OF one Cons.IH])
  moreover have "sends c (1 + length fns) t t'" by (rule sends_mono [OF one]) simp
  ultimately show ?case by (auto simp: j split: sum.split)
qed simp

lemma fetch_missing_sends: "sends c 4 t (fst (fetch_missing env c ls t))"
proof -
  obtain t' r where f: "fetch_each env c chat_functions ls None t = (t', r)" by fastforce
  have "sends c 4 t t'"
  proof -
    have "length chat_functions = 4" by (simp add: chat_functions_def)
    then show ?thesis using fetch_each_sends [of c chat_functions t env ls None] unfolding f by simp
  qed
  then show ?thesis by (auto simp: fetch_missing_def f split: sum.split)
qed

lemma fetch_lists_sends: "sends c 5 t (fst (fetch_lists env c t))"
proof -
  obtain t' r where j: "model_json env c ''/api/ide/v1/batch_get_detail_param'' batch_body t = (t', r)"
    by fastforce
  have one: "sends c 1 t t'" using model_json_sends [of c t env] j by (metis fst_conv)
  have "sends c (1 + 4) t (fst (fetch_missing env c ls t'))" for ls
    by (rule sends_trans [OF one fetch_missing_sends])
  moreover have "sends c (1 + 4) t t'" by (rule sends_mono [OF one]) simp
  ultimately show ?thesis by (auto simp: fetch_lists_def j split: sum.split)
qed

text \<open>The clock does not go back, and the cache was last touched before its next reading.\<close>

definition client_ok :: "api_env \<Rightarrow> client \<Rightarrow> bool" where
  "client_ok env t \<longleftrightarrow> (\<exists>now. now \<le> ae_now env (cl_ticks t) \<and> cache_inv (now, cl_cache t))"

definition clock_ok :: "api_env \<Rightarrow> bool" where
  "clock_ok env \<longleftrightarrow> (\<forall>i. ae_now env i \<le> ae_now env (Suc i))"

definition order_ok :: "range_order \<Rightarrow> bool" where
  "order_ok ro \<longleftrightarrow> permutes_entries (ro_entries ro) \<and> permutes_cache (ro_cache ro)"

lemma client_okI:
  "clock_ok env \<Longrightarrow> cache_inv (ae_now env i, cl_cache t) \<Longrightarrow> cl_ticks t = Suc i \<Longrightarrow> client_ok env t"
  by (auto simp: client_ok_def clock_ok_def)

lemma cached_models:
  assumes "cache_inv (now, m)" "map_of m g = Some c"
  shows "ca_models c \<noteq> [] \<and> distinct (ca_models c) \<and> set (ca_models c) = dom (map_of (ca_routes c))"
proof -
  have "entry_ok now c" using map_of_SomeD [OF assms(2)] assms(1) by (auto simp: cache_inv_def)
  then show ?thesis by (simp add: entry_ok_def)
qed

definition listed :: "64 word \<Rightarrow> string list \<Rightarrow> client \<Rightarrow> bool" where
  "listed g names t \<longleftrightarrow> (\<exists>c. map_of (cl_cache t) g = Some c \<and> ca_models c = names
     \<and> names \<noteq> [] \<and> distinct names \<and> set names = dom (map_of (ca_routes c)))"

lemma model_names_attempt_ok:
  assumes t: "client_ok env t" and ck: "clock_ok env" and ro: "order_ok ro"
    and run: "model_names_attempt ro env c g t = (t', res)"
  shows "client_ok env t' \<and> logged c 5 t t'
    \<and> (\<forall>names. res = Inr names \<longrightarrow> listed g names t')"
proof -
  let ?now = "ae_now env (cl_ticks t)" and ?t1 = "t\<lparr>cl_ticks := Suc (cl_ticks t)\<rparr>"
  let ?m1 = "prune_cache ?now (cl_cache t)" and ?hit = "snd (cache_lookup ?now g (cl_cache t))"
  have i1: "cache_inv (?now, ?m1)"
    using t prune_cache_inv unfolding client_ok_def by blast
  have lk: "cache_lookup ?now g (cl_cache t) = (?m1, ?hit)"
    by (metis fst_cache_lookup prod.collapse)
  show ?thesis
  proof (cases ?hit)
    case (Some names)
    then obtain d where d: "map_of ?m1 g = Some d" "names = ca_models d"
      by (auto simp: cache_lookup_def Let_def split: option.splits if_splits)
    have "t' = ?t1\<lparr>cl_cache := ?m1\<rparr>" "res = Inr names"
      using run lk Some by (auto simp: model_names_attempt_def read_clock_def)
    then show ?thesis
      using client_okI [OF ck, of "cl_ticks t" t'] i1 d cached_models [OF i1 d(1)] by (auto simp: listed_def logged_def)
  next
    case None
    obtain t2 r where f: "fetch_lists env c (?t1\<lparr>cl_cache := ?m1\<rparr>) = (t2, r)" by fastforce
    have sent: "sends c 5 (?t1\<lparr>cl_cache := ?m1\<rparr>) t2"
      using fetch_lists_sends [of c "?t1\<lparr>cl_cache := ?m1\<rparr>" env] unfolding f by simp
    then obtain xs where t2: "t2 = ?t1\<lparr>cl_cache := ?m1, cl_log := cl_log t @ xs\<rparr>"
      unfolding sends_def by auto
    have log2: "logged c 5 t t2" using sends_logged [OF sent] by (simp add: logged_def upstream_base_def)
    have ok2: "client_ok env t2" using client_okI [OF ck, of "cl_ticks t" t2] i1 t2 by simp
    consider ls where "r = Inr ls" | e where "r = Inl e" by (cases r) auto
    then show ?thesis
    proof cases
      case 2
      with run lk None f have "t' = t2" "res = Inl e"
        by (auto simp: model_names_attempt_def read_clock_def)
      with ok2 log2 show ?thesis by auto
    next
      case 1
      obtain routes names where ch: "choose_routes (ro_entries ro) ls = (routes, names)" by fastforce
      show ?thesis
      proof (cases "names = []")
        case True
        with run lk None f 1 ch have "t' = t2" "res = Inl (ErrMsg ''Trae returned no available models'')"
          by (auto simp: model_names_attempt_def read_clock_def)
        with ok2 log2 show ?thesis by auto
      next
        case False
        let ?now' = "ae_now env (cl_ticks t2)"
        have t': "t' = t2\<lparr>cl_ticks := Suc (cl_ticks t2),
              cl_cache := cache_store (ro_cache ro) ?now' g names routes (cl_cache t2)\<rparr>"
          and res: "res = Inr names"
          using run lk None f 1 ch False by (auto simp: model_names_attempt_def read_clock_def)
        have "mset (ro_entries ro (all_entries ls)) = mset (all_entries ls)"
          using ro by (simp add: order_ok_def permutes_entries_def)
        from choose_routes_fold [OF this ch] have nm: "distinct names" "set names = dom (map_of routes)"
          by (metis distinct_sort, metis set_sort)
        have late: "?now \<le> ?now'" using ck t2 by (simp add: clock_ok_def)
        have "entry_ok ?now' \<lparr>ca_models = names, ca_at = ?now', ca_routes = routes\<rparr>"
          using nm False late i1 choose_routes_ok [OF _ fetch_lists_read ch] f 1 ro
          by (auto simp: entry_ok_def cache_inv_def order_ok_def)
        then have new: "entry_ok ?now' \<lparr>ca_models = names, ca_at = ?now', ca_routes = routes\<rparr>" .
        from new i1 late ro have inv: "cache_inv (?now', cl_cache t')"
          unfolding t' by (simp add: t2 order_ok_def cache_store_inv)
        have "map_of (cl_cache t') g = Some \<lparr>ca_models = names, ca_at = ?now', ca_routes = routes\<rparr>"
          by (simp add: t' cache_store_def Let_def)
        then have "listed g names t'" using nm False by (simp add: listed_def)
        moreover have "logged c 5 t t'" using log2 by (simp add: t' logged_def upstream_base_def)
        ultimately show ?thesis using res client_okI [OF ck inv] by (auto simp: t')
      qed
    qed
  qed
qed

lemma model_names_ok:
  assumes "client_ok env t" "clock_ok env" "order_ok ro" "model_names ro env c g t = (t', res)"
  shows "client_ok env t' \<and> logged c 5 t t'
    \<and> (\<forall>names. res = Inr names \<longrightarrow> listed g names t')
    \<and> (\<forall>e. res = Inl e \<longrightarrow> \<not> errors_is e CredentialRejected)"
proof -
  obtain r where r: "model_names_attempt ro env c g t = (t', r)"
    "res = (case r of Inl e \<Rightarrow> Inl (if errors_is e CredentialRejected then LoginRequired else e)
              | Inr names \<Rightarrow> Inr names)"
    using assms(4) by (auto simp: model_names_def split: prod.splits sum.splits)
  from model_names_attempt_ok [OF assms(1-3) r(1)] r(2) show ?thesis
    by (auto split: sum.splits if_splits)
qed

text \<open>
  A listing of the models sends at most five requests; if it succeeds the names are
  nonempty and distinct and the cache entry of the credential has them with a route each;
  if it fails the internal rejection error has been turned into the one that asks for a
  login. The cache keeps its invariant on every path.
\<close>

theorem model_names_result:
  assumes "client_ok env t" "clock_ok env" "order_ok ro" "model_names ro env c g t = (t', res)"
  shows "client_ok env t' \<and> length (cl_log t') \<le> length (cl_log t) + 5
    \<and> (case res of
         Inl e \<Rightarrow> \<not> errors_is e CredentialRejected
       | Inr names \<Rightarrow> names \<noteq> [] \<and> distinct names
           \<and> (\<exists>e. map_of (cl_cache t') g = Some e \<and> ca_models e = names
                \<and> set names = dom (map_of (ca_routes e))))"
  using model_names_ok [OF assms] logged_length by (fastforce simp: listed_def split: sum.split)

theorem model_names_result_witness:
  "\<exists>t'. model_names sample_order sample_env sample_credential 7 sample_client
        = (t', Inr [''a'']) \<and> length (cl_log t') \<le> 5
      \<and> (\<exists>e. map_of (cl_cache t') 7 = Some e \<and> ca_models e = [''a''])"
proof -
  obtain t' res where run: "model_names sample_order sample_env sample_credential 7 sample_client = (t', res)"
    by fastforce
  have res: "res = Inr [''a'']" using run sample_listing by simp
  have "client_ok sample_env sample_client"
    by (auto simp: client_ok_def sample_env_def sample_client_def cache_inv_def intro: exI [of _ 1])
  moreover have "clock_ok sample_env" by (simp add: clock_ok_def sample_env_def)
  moreover have "order_ok sample_order"
    by (simp add: order_ok_def sample_order_def permutes_entries_def permutes_cache_def)
  ultimately show ?thesis
    using model_names_result [OF _ _ _ run] run res by (auto simp: sample_client_def)
qed

end
