(* ===== verification/Upstream.thy ===== *)
theory Upstream
  imports ModelCatalogCorrect IdeStream
begin

text \<open>
  One chat turn against the upstream, \<open>upstream.go\<close>: the body \<open>buildRoutedIDEBody\<close> makes
  of a validated request and a route, \<open>resolveRoute\<close>, \<open>promptAttempt\<close> and
  \<open>prompt\<close>. The stream of a successful response is read by \<open>read_ide_stream\<close>.
\<close>

section \<open>The request body\<close>

definition tools_notice :: string where
  "tools_notice = ''Tools belong to the API caller. Request tools using native function calls, then wait for the caller'' @ [CHR 0x27] @ ''s tool result with the matching call ID. Do not execute tools yourself or claim a file or command succeeded without a successful caller result.''"

definition text_blocks :: "string \<Rightarrow> json" where
  "text_blocks s = JArr [JObj [(''type'', JStr ''text''), (''text'', JStr s)]]"

text \<open>The map \<open>names\<close> from call identifiers to function names.\<close>

definition call_names :: "message list \<Rightarrow> (string \<times> string) list" where
  "call_names ms = foldl (\<lambda>names c. mput (tc_id c) (fn_name (tc_fn c)) names) [] (concat (map m_calls ms))"

definition routed_call :: "tool_call \<Rightarrow> json" where
  "routed_call c = JObj [
     (''id'', JStr (tc_id c)),
     (''type'', JStr ''function''),
     (''function_call'', JObj [(''name'', JStr (fn_name (tc_fn c))), (''arguments'', JStr (fn_args (tc_fn c)))])]"

definition routed_role :: "string \<Rightarrow> string" where
  "routed_role role = (if role = ''developer'' then ''system'' else role)"

definition result_name :: "(string \<times> string) list \<Rightarrow> message \<Rightarrow> string" where
  "result_name names m =
     (if m_name m = [] then (case map_of names (m_call_id m) of Some n \<Rightarrow> n | None \<Rightarrow> []) else m_name m)"

definition routed_message :: "(string \<times> string) list \<Rightarrow> message \<Rightarrow> jobj" where
  "routed_message names m =
     (let item = [(''role'', JStr (routed_role (m_role m))), (''content'', text_blocks (m_content m))];
          item = (if m_calls m \<noteq> []
                  then (let it = mput ''tool_calls'' (JArr (map routed_call (m_calls m))) item
                        in if m_content m = [] then mput ''content'' JNull it else it)
                  else item)
      in if m_call_id m \<noteq> []
         then (let it = mput ''tool_call_id'' (JStr (m_call_id m)) item; name = result_name names m
               in if name \<noteq> [] then mput ''name'' (JStr name) it else it)
         else item)"

definition routed_messages :: "chat_request \<Rightarrow> json list" where
  "routed_messages r =
     (if r_tools r \<noteq> [] then [JObj [(''role'', JStr ''system''), (''content'', text_blocks tools_notice)]] else [])
     @ map (\<lambda>m. JObj (routed_message (call_names (r_messages r)) m)) (r_messages r)"

text \<open>The token limit; 0 leaves it to the upstream.\<close>

definition wanted_limit :: "chat_request \<Rightarrow> int" where
  "wanted_limit r = (if r_max_completion r = 0 then r_max_tokens r else r_max_completion r)"

definition routed_limit :: "chat_request \<Rightarrow> model_route \<Rightarrow> int" where
  "routed_limit r route =
     (let limit = wanted_limit r;
          limit = (if mr_window route > 0 \<and> limit = 0 \<and> mr_most route > 0 then mr_most route else limit)
      in if limit > 0
         then (let l = (if mr_most route > 0 \<and> limit > mr_most route then mr_most route else limit)
               in if mr_window route > 0 \<and> l > mr_window route then mr_window route else l)
         else limit)"

definition routed_tool :: "tool \<Rightarrow> json" where
  "routed_tool t =
     (let fn = [(''name'', JStr (t_name t)), (''description'', JStr (t_desc t)), (''parameters'', JStr (t_params t))]
      in JObj [(''type'', JStr ''function''),
           (''function'', JObj (case t_strict t of Some b \<Rightarrow> mput ''strict'' (JBool b) fn | None \<Rightarrow> fn))])"

text \<open>\<open>if c { body[k] = v }\<close>, and the same for a pointer that may be nil.\<close>

definition put_if :: "bool \<Rightarrow> string \<Rightarrow> json \<Rightarrow> jobj \<Rightarrow> jobj" where
  "put_if b k v body = (if b then mput k v body else body)"

definition put_some :: "'a option \<Rightarrow> ('a \<Rightarrow> json) \<Rightarrow> string \<Rightarrow> jobj \<Rightarrow> jobj" where
  "put_some x f k body = (case x of Some v \<Rightarrow> mput k (f v) body | None \<Rightarrow> body)"

definition put_tools :: "chat_request \<Rightarrow> jobj \<Rightarrow> jobj" where
  "put_tools r body =
     (if r_tools r \<noteq> [] \<and> r_choice r \<noteq> ''none''
      then put_some (r_parallel r) JBool ''parallel_tool_calls''
             (mput ''tool_choice'' (JStr (r_choice r))
               (mput ''tools'' (JArr (map routed_tool (r_tools r))) body))
      else body)"

definition build_routed_body :: "chat_request \<Rightarrow> string \<Rightarrow> model_route \<Rightarrow> jobj" where
  "build_routed_body r session route =
     (let body = [
            (''messages'', JArr (routed_messages r)),
            (''config_name'', JStr (r_model r)),
            (''model'', JStr (r_model r)),
            (''function'', JStr ''solo_work_lite''),
            (''stream'', JBool True),
            (''request_id'', JStr session),
            (''session_id'', JStr session)];
          body = put_if (mr_base route \<noteq> []) ''config_name'' (JStr (mr_base route)) body;
          body = put_if (mr_base route \<noteq> []) ''model'' (JStr (mr_base route)) body;
          body = put_if (mr_function route \<noteq> []) ''function'' (JStr (mr_function route)) body;
          body = put_if (mr_name route \<noteq> []) ''model_name'' (JStr (mr_name route)) body;
          limit = routed_limit r route;
          body = put_if (limit > 0) ''max_tokens'' (jint limit) body;
          body = put_if (mr_window route > 0) ''user_message_context''
            (JObj [(''model_info'', JObj [(''prompt_max_tokens'', jint (mr_window route - limit))])]) body;
          body = put_some (r_temperature r) JNum ''temperature'' body;
          body = put_some (r_top_p r) JNum ''top_p'' body
      in put_tools r body)"

section \<open>Routing and the turn\<close>

text \<open>
  The two looks at the cache under the lock, with \<open>modelNames\<close> between them when the first
  one has no fresh route.
\<close>

definition cached_route :: "cache \<Rightarrow> 64 word \<Rightarrow> string \<Rightarrow> model_route option" where
  "cached_route m g model =
     (case map_of m g of Some c \<Rightarrow> map_of (ca_routes c) model | None \<Rightarrow> None)"

definition cached_at :: "cache \<Rightarrow> 64 word \<Rightarrow> int" where
  "cached_at m g = (case map_of m g of Some c \<Rightarrow> ca_at c | None \<Rightarrow> 0)"

definition bad_request :: "string \<Rightarrow> gerror" where
  "bad_request s = ApiError 400 s"

definition resolve_route ::
  "range_order \<Rightarrow> api_env \<Rightarrow> api_credential \<Rightarrow> 64 word \<Rightarrow> string \<Rightarrow> client \<Rightarrow> client \<times> model_route res" where
  "resolve_route ro env c g model t =
     (case read_clock env t of (now, t1) \<Rightarrow>
      case (if now - cached_at (cl_cache t1) g < 5 * minute then cached_route (cl_cache t1) g model else None) of
        Some route \<Rightarrow> (t1, Inr route)
      | None \<Rightarrow>
          (case model_names ro env c g t1 of
             (t2, Inl e) \<Rightarrow> (t2, Inl e)
           | (t2, Inr names) \<Rightarrow>
               (t2, case cached_route (cl_cache t2) g model of
                      Some route \<Rightarrow> Inr route
                    | None \<Rightarrow> Inl (bad_request ''model is not available for this account''))))"

text \<open>
  A turn ends with a completion and an error or none; the deltas handed to the callback are
  kept beside the completion. The reading of the response body is \<open>read_ide_stream\<close>; the
  error its reader may end with and whether it came early are parameters, as they are there.
\<close>

type_synonym turn = "(completion \<times> delta list) eff"

definition no_answer :: "gerror \<Rightarrow> turn" where
  "no_answer e = ((empty_completion, []), Some e)"

definition prompt_reply ::
  "stream_env \<Rightarrow> gerror option \<Rightarrow> bool \<Rightarrow> chat_request \<Rightarrow> http_outcome \<Rightarrow> turn" where
  "prompt_reply senv rerr early r out =
     (case out of
        NoReply (Some e) \<Rightarrow> no_answer e
      | NoReply None \<Rightarrow> no_answer (ErrMsg ''Trae IDE connection failed'')
      | Reply st body \<Rightarrow>
          if st \<noteq> 200 then
            no_answer (if st = 401 \<or> st = 403 then CredentialRejected
                       else ErrMsg (''Trae IDE returned HTTP '' @ show_int st))
          else (case read_ide_stream senv \<lparr>si_bytes = body, si_err = rerr, si_early = early\<rparr> r of
                  (a, e) \<Rightarrow> ((a_result a, a_sent a), e)))"

definition chat_path :: string where
  "chat_path = ''/api/agent/v3/llm_utils_chat''"

record turn_env =
  te_order :: range_order
  te_api :: api_env
  te_stream :: stream_env
  te_read_err :: "gerror option"
  te_early :: bool

definition prompt_attempt ::
  "turn_env \<Rightarrow> api_credential \<Rightarrow> 64 word \<Rightarrow> chat_request \<Rightarrow> string \<Rightarrow> client \<Rightarrow> client \<times> turn" where
  "prompt_attempt env c g r ident t =
     (case resolve_route (te_order env) (te_api env) c g (r_model r) t of
        (t1, Inl e) \<Rightarrow> (t1, no_answer e)
      | (t1, Inr route) \<Rightarrow>
          (let endpoint = trim_slash (cf_base_url (cl_cfg t1)) @ chat_path in
           case post (te_api env) c endpoint (''Referer'', endpoint)
                  (JObj (build_routed_body r ident route)) t1 of
             (t2, Inl e) \<Rightarrow> (t2, no_answer e)
           | (t2, Inr out) \<Rightarrow>
               (t2, prompt_reply (te_stream env) (te_read_err env) (te_early env) r out)))"

definition prompt ::
  "turn_env \<Rightarrow> api_credential \<Rightarrow> 64 word \<Rightarrow> chat_request \<Rightarrow> string \<Rightarrow> client \<Rightarrow> client \<times> turn" where
  "prompt env c g r ident t =
     (case prompt_attempt env c g r ident t of
        (t', (result, e)) \<Rightarrow>
          (t', (result, case e of
                  Some x \<Rightarrow> Some (if errors_is x CredentialRejected then LoginRequired else x)
                | None \<Rightarrow> None)))"

end
