(* ===== verification/GoURL.thy ===== *)
theory GoURL
  imports GoText Json
begin

text \<open>
  What the program uses of \<open>net/url\<close> and \<open>net\<close>: query escaping, \<open>url.Parse\<close>, splitting host
  and port, and IP literals. A host with a percent escape is taken as a parse error: none of
  the hosts the program accepts can be written so.
\<close>

section \<open>Query strings\<close>

definition unreserved :: "char \<Rightarrow> bool" where
  "unreserved c \<longleftrightarrow>
     (let n = of_char c :: nat in 48 \<le> n \<and> n \<le> 57 \<or> 65 \<le> n \<and> n \<le> 90 \<or> 97 \<le> n \<and> n \<le> 122
        \<or> c = CHR ''-'' \<or> c = CHR ''_'' \<or> c = CHR ''.'' \<or> c = CHR ''~'')"

definition upper_hex :: "nat \<Rightarrow> char" where
  "upper_hex d = char_of (if d < 10 then 48 + d else 55 + d)"

definition escape_query_char :: "char \<Rightarrow> string" where
  "escape_query_char c =
     (if unreserved c then [c] else if c = CHR '' '' then ''+''
      else [CHR ''%'', upper_hex (of_char c div 16), upper_hex (of_char c mod 16)])"

definition query_escape :: "string \<Rightarrow> string" where
  "query_escape s = concat (map escape_query_char s)"

text \<open>\<open>unescape\<close>, where a plus sign is a space in a query and itself in a path.\<close>

fun unescape :: "bool \<Rightarrow> string \<Rightarrow> string option" where
  "unescape q [] = Some []"
| "unescape q (c # cs) =
     (if c = CHR ''%'' then
        (case cs of
           a # b # r \<Rightarrow>
             (case (hex_val a, hex_val b) of
                (Some x, Some y) \<Rightarrow> map_option ((#) (char_of (16 * x + y))) (unescape q r)
              | _ \<Rightarrow> None)
         | _ \<Rightarrow> None)
      else map_option ((#) (if q \<and> c = CHR ''+'' then CHR '' '' else c)) (unescape q cs))"

definition cut_at :: "char \<Rightarrow> string \<Rightarrow> string \<times> string" where
  "cut_at c s = (takeWhile (\<lambda>x. x \<noteq> c) s, drop 1 (dropWhile (\<lambda>x. x \<noteq> c) s))"

fun split_at :: "char \<Rightarrow> string \<Rightarrow> string list" where
  "split_at c [] = [[]]"
| "split_at c (x # xs) =
     (if x = c then [] # split_at c xs
      else (case split_at c xs of [] \<Rightarrow> [[x]] | p # ps \<Rightarrow> (x # p) # ps))"

text \<open>\<open>url.Values.Encode\<close> of single values, given in the order of their keys.\<close>

definition query_pair :: "string \<times> string \<Rightarrow> string" where
  "query_pair p = query_escape (fst p) @ ''='' @ query_escape (snd p)"

fun query_encode :: "(string \<times> string) list \<Rightarrow> string" where
  "query_encode [] = []"
| "query_encode [p] = query_pair p"
| "query_encode (p # ps) = query_pair p @ ''&'' @ query_encode ps"

text \<open>\<open>Query().Get\<close>: pairs that do not parse, or have a semicolon, are dropped.\<close>

definition parse_pair :: "string \<Rightarrow> (string \<times> string) option" where
  "parse_pair s =
     (if s = [] \<or> CHR '';'' \<in> set s then None
      else (case cut_at (CHR ''='') s of (k, v) \<Rightarrow>
        (case (unescape True k, unescape True v) of (Some k', Some v') \<Rightarrow> Some (k', v') | _ \<Rightarrow> None)))"

definition query_get :: "string \<Rightarrow> string \<Rightarrow> string" where
  "query_get q k =
     (case map_of (List.map_filter parse_pair (split_at (CHR ''&'') q)) k of Some v \<Rightarrow> v | None \<Rightarrow> [])"

section \<open>Parsing a URL\<close>

record url =
  u_scheme :: string
  u_user :: bool
  u_host :: string
  u_path :: string
  u_query :: string
  u_fragment :: string

definition ascii_lower :: "char \<Rightarrow> char" where
  "ascii_lower c = (if 65 \<le> (of_char c :: nat) \<and> (of_char c :: nat) \<le> 90 then char_of ((of_char c :: nat) + 32) else c)"

definition is_letter :: "char \<Rightarrow> bool" where
  "is_letter c \<longleftrightarrow> (let n = of_char (ascii_lower c) :: nat in 97 \<le> n \<and> n \<le> 122)"

definition scheme_char :: "char \<Rightarrow> bool" where
  "scheme_char c \<longleftrightarrow> is_letter c \<or> is_digit c \<or> c = CHR ''+'' \<or> c = CHR ''-'' \<or> c = CHR ''.''"

text \<open>\<open>getScheme\<close>: a scheme and the rest, no scheme, or the error of a leading colon.\<close>

definition get_scheme :: "string \<Rightarrow> (string \<times> string) option" where
  "get_scheme s =
     (let p = takeWhile scheme_char s; r = dropWhile scheme_char s in
      if take 1 s = '':'' then None
      else if p \<noteq> [] \<and> is_letter (hd p) \<and> take 1 r = '':'' then Some (map ascii_lower p, drop 1 r)
      else Some ([], s))"

text \<open>A host and its port: split at the last colon.\<close>

definition before_last :: "char \<Rightarrow> string \<Rightarrow> string" where
  "before_last c s = rev (drop 1 (dropWhile (\<lambda>x. x \<noteq> c) (rev s)))"

definition after_last :: "char \<Rightarrow> string \<Rightarrow> string" where
  "after_last c s = rev (takeWhile (\<lambda>x. x \<noteq> c) (rev s))"

definition port_ok :: "string \<Rightarrow> bool" where
  "port_ok p \<longleftrightarrow> list_all is_digit p"

definition host_char :: "char \<Rightarrow> bool" where
  "host_char c \<longleftrightarrow> unreserved c \<or> 128 \<le> (of_char c :: nat) \<or> c \<in> set ''!$&()*+,;=:[]<>'' \<or> c = CHR 0x27 \<or> c = CHR 0x22"

definition parse_host :: "string \<Rightarrow> string option" where
  "parse_host h =
     (if \<not> list_all host_char h then None
      else if take 1 h = ''['' then
        (if CHR '']'' \<notin> set h then None
         else (let p = after_last (CHR '']'') h in
               if p = [] \<or> take 1 p = '':'' \<and> port_ok (drop 1 p) then Some h else None))
      else if CHR '':'' \<in> set h \<and> \<not> port_ok (after_last (CHR '':'') h) then None
      else Some h)"

text \<open>\<open>u.Hostname()\<close>.\<close>

definition hostname :: "string \<Rightarrow> string" where
  "hostname h =
     (let s = (if CHR '':'' \<in> set h \<and> port_ok (after_last (CHR '':'') h) then before_last (CHR '':'') h else h) in
      if take 1 s = ''['' \<and> take 1 (rev s) = '']'' then butlast (drop 1 s) else s)"

definition parse_authority :: "string \<Rightarrow> (bool \<times> string) option" where
  "parse_authority a =
     (if CHR ''@'' \<in> set a then map_option (Pair True) (parse_host (after_last (CHR ''@'') a))
      else map_option (Pair False) (parse_host a))"

definition ctl_byte :: "char \<Rightarrow> bool" where
  "ctl_byte c \<longleftrightarrow> (of_char c :: nat) < 32 \<or> (of_char c :: nat) = 127"

definition url_parse :: "string \<Rightarrow> url option" where
  "url_parse s =
     (case cut_at (CHR ''#'') s of (body, frag) \<Rightarrow>
      if list_ex ctl_byte s then None
      else (case (get_scheme body, unescape False frag) of
        (Some (scheme, rest), Some fragment) \<Rightarrow>
          (case cut_at (CHR ''?'') rest of (rest, query) \<Rightarrow>
            if take 2 rest = ''//'' \<and> (scheme \<noteq> [] \<or> take 3 rest \<noteq> ''///'') then
              (let auth = takeWhile (\<lambda>c. c \<noteq> CHR ''/'') (drop 2 rest);
                   path = dropWhile (\<lambda>c. c \<noteq> CHR ''/'') (drop 2 rest)
               in case (parse_authority auth, unescape False path) of
                    (Some (user, host), Some p) \<Rightarrow>
                      Some \<lparr>u_scheme = scheme, u_user = user, u_host = host, u_path = p, u_query = query,
                            u_fragment = fragment\<rparr>
                  | _ \<Rightarrow> None)
            else
              (case unescape False rest of
                 Some p \<Rightarrow> Some \<lparr>u_scheme = scheme, u_user = False, u_host = [], u_path = p, u_query = query,
                            u_fragment = fragment\<rparr>
               | None \<Rightarrow> None))
      | _ \<Rightarrow> None))"

section \<open>Addresses\<close>

text \<open>\<open>net.SplitHostPort\<close>.\<close>

definition split_host_port :: "string \<Rightarrow> (string \<times> string) option" where
  "split_host_port s =
     (if CHR '':'' \<notin> set s then None
      else if take 1 s = ''['' then
        (let host = takeWhile (\<lambda>c. c \<noteq> CHR '']'') (drop 1 s);
             r = dropWhile (\<lambda>c. c \<noteq> CHR '']'') (drop 1 s)
         in if take 2 r = '']:'' \<and> CHR '':'' \<notin> set (drop 2 r) \<and> CHR ''['' \<notin> set (drop 1 s)
               \<and> CHR '']'' \<notin> set (drop 1 r)
            then Some (host, drop 2 r) else None)
      else
        (let host = before_last (CHR '':'') s in
         if CHR '':'' \<in> set host \<or> CHR ''['' \<in> set s \<or> CHR '']'' \<in> set s then None
         else Some (host, after_last (CHR '':'') s)))"

text \<open>\<open>net.ParseIP\<close>: four bytes, or eight groups.\<close>

datatype ip = IPv4 nat nat nat nat | IPv6 "nat list"

definition v4_field :: "string \<Rightarrow> nat option" where
  "v4_field d = (if d \<noteq> [] \<and> list_all is_digit d \<and> (length d = 1 \<or> take 1 d \<noteq> ''0'')
     \<and> length d \<le> 3 \<and> nat_of_digits d \<le> 255 then Some (nat_of_digits d) else None)"

definition parse_v4 :: "string \<Rightarrow> nat list option" where
  "parse_v4 s = (case map v4_field (split_at (CHR ''.'') s) of
     [Some a, Some b, Some c, Some d] \<Rightarrow> Some [a, b, c, d] | _ \<Rightarrow> None)"

definition hex_number :: "string \<Rightarrow> nat" where
  "hex_number s = foldl (\<lambda>n c. 16 * n + (case hex_val c of Some d \<Rightarrow> d | None \<Rightarrow> 0)) 0 s"

definition is_hex :: "char \<Rightarrow> bool" where
  "is_hex c \<longleftrightarrow> hex_val c \<noteq> None"

text \<open>
  The groups and the place of the ellipsis; each round takes a group of the text, so the
  length of the text is fuel enough.
\<close>

fun v6_groups :: "nat \<Rightarrow> nat list \<Rightarrow> nat option \<Rightarrow> string \<Rightarrow> (nat list \<times> nat option) option" where
  "v6_groups 0 acc el s = None"
| "v6_groups (Suc n) acc el s =
     (let h = takeWhile is_hex s; r = dropWhile is_hex s; acc' = acc @ [hex_number h] in
      if 8 \<le> length acc \<or> h = [] \<or> 4 < length h then None
      else if take 1 r = ''.'' then
        (if el = None \<and> length acc \<noteq> 6 \<or> 6 < length acc then None
         else (case parse_v4 s of
                 Some [a, b, c, d] \<Rightarrow> Some (acc @ [a * 256 + b, c * 256 + d], el)
               | _ \<Rightarrow> None))
      else if r = [] then Some (acc', el)
      else if take 1 r \<noteq> '':'' \<or> length r = 1 then None
      else if take 2 r = ''::'' then
        (if el \<noteq> None then None
         else if drop 2 r = [] then Some (acc', Some (length acc'))
         else v6_groups n acc' (Some (length acc')) (drop 2 r))
      else v6_groups n acc' el (drop 1 r))"

definition parse_v6 :: "string \<Rightarrow> nat list option" where
  "parse_v6 s =
     (case (if s = ''::'' then Some ([], Some 0)
            else if take 2 s = ''::'' then v6_groups (length s) [] (Some 0) (drop 2 s)
            else v6_groups (length s) [] None s) of
        None \<Rightarrow> None
      | Some (g, None) \<Rightarrow> if length g = 8 then Some g else None
      | Some (g, Some k) \<Rightarrow>
          if length g < 8 then Some (take k g @ replicate (8 - length g) 0 @ drop k g) else None)"

definition parse_ip :: "string \<Rightarrow> ip option" where
  "parse_ip s =
     (case filter (\<lambda>c. c = CHR ''.'' \<or> c = CHR '':'' \<or> c = CHR ''%'') s of
        [] \<Rightarrow> None
      | c # cs \<Rightarrow>
          if CHR ''%'' \<in> set s then None
          else if c = CHR ''.'' then
            (case parse_v4 s of Some [a, b, c, d] \<Rightarrow> Some (IPv4 a b c d) | _ \<Rightarrow> None)
          else map_option IPv6 (parse_v6 s))"

definition ip_loopback :: "ip \<Rightarrow> bool" where
  "ip_loopback i \<longleftrightarrow>
     (case i of
        IPv4 a b c d \<Rightarrow> a = 127
      | IPv6 g \<Rightarrow> if take 6 g = [0, 0, 0, 0, 0, 65535] then g ! 6 div 256 = 127
                  else g = [0, 0, 0, 0, 0, 0, 0, 1])"

definition loopback_literal :: "string \<Rightarrow> bool" where
  "loopback_literal s \<longleftrightarrow> (case parse_ip s of Some i \<Rightarrow> ip_loopback i | None \<Rightarrow> False)"

section \<open>Escaping is undone\<close>

lemma upper_hex_val: "d < 16 \<Longrightarrow> hex_val (upper_hex d) = Some d"
  by (auto simp: hex_val_def upper_hex_def Let_def)

lemma unescape_char: "unescape True (escape_query_char c @ t) = map_option ((#) c) (unescape True t)"
proof -
  have n: "(of_char c :: nat) < 256" by (rule nat_of_char_less_256)
  then have "hex_val (upper_hex (of_char c div 16)) = Some (of_char c div 16)"
    "hex_val (upper_hex (of_char c mod 16)) = Some (of_char c mod 16 :: nat)"
    using n by (intro upper_hex_val; simp add: less_mult_imp_div_less)+
  moreover have "char_of (16 * ((of_char c :: nat) div 16) + of_char c mod 16) = c"
    by (simp only: mult_div_mod_eq char_of_char)
  moreover have "unreserved c \<Longrightarrow> c \<noteq> CHR ''%'' \<and> c \<noteq> CHR ''+''" by (auto simp: unreserved_def Let_def)
  ultimately show ?thesis by (simp add: escape_query_char_def)
qed

lemma unescape_query_escape: "unescape True (query_escape s) = Some s"
proof (induction s)
  case (Cons c s)
  then show ?case using unescape_char [of c "query_escape s"] by (simp add: query_escape_def)
qed (simp add: query_escape_def)

lemma unreserved_hex: "d < 16 \<Longrightarrow> unreserved (upper_hex d)"
  by (auto simp: unreserved_def upper_hex_def Let_def)

lemma unreserved_not:
  "unreserved c \<Longrightarrow> c \<noteq> CHR ''&'' \<and> c \<noteq> CHR ''='' \<and> c \<noteq> CHR '';'' \<and> c \<noteq> CHR ''#'' \<and> c \<noteq> CHR ''?''"
  by (auto simp: unreserved_def Let_def)

lemma escaped_char:
  assumes "c \<in> set (escape_query_char x)"
  shows "unreserved c \<or> c = CHR ''+'' \<or> c = CHR ''%''"
proof -
  have "unreserved (upper_hex (of_char x div 16))" "unreserved (upper_hex (of_char x mod 16))"
    using nat_of_char_less_256 [of x] by (intro unreserved_hex; simp add: less_mult_imp_div_less)+
  then show ?thesis using assms by (auto simp: escape_query_char_def split: if_splits)
qed

lemma escaped_chars:
  assumes "c \<in> set (query_escape s)"
  shows "c \<noteq> CHR ''&'' \<and> c \<noteq> CHR ''='' \<and> c \<noteq> CHR '';'' \<and> c \<noteq> CHR ''#'' \<and> c \<noteq> CHR ''?''"
proof -
  obtain x where "c \<in> set (escape_query_char x)" using assms by (auto simp: query_escape_def)
  then have "unreserved c \<or> c = CHR ''+'' \<or> c = CHR ''%''" by (rule escaped_char)
  then show ?thesis using unreserved_not by auto
qed

lemma split_at_none: "c \<notin> set s \<Longrightarrow> split_at c s = [s]"
  by (induction s) auto

lemma split_at_append: "c \<notin> set s \<Longrightarrow> split_at c (s @ c # t) = s # split_at c t"
  by (induction s) auto

lemma cut_at_append: "c \<notin> set s \<Longrightarrow> cut_at c (s @ c # t) = (s, t)"
  by (simp add: cut_at_def takeWhile_append dropWhile_append)

lemma parse_query_pair: "parse_pair (query_pair p) = Some p"
proof -
  have "cut_at (CHR ''='') (query_pair p) = (query_escape (fst p), query_escape (snd p))"
    using cut_at_append escaped_chars by (fastforce simp: query_pair_def)
  moreover have "CHR '';'' \<notin> set (query_pair p)" using escaped_chars by (fastforce simp: query_pair_def)
  ultimately show ?thesis by (simp add: parse_pair_def unescape_query_escape query_pair_def [of p])
qed

lemma split_query_encode: "ps \<noteq> [] \<Longrightarrow> split_at (CHR ''&'') (query_encode ps) = map query_pair ps"
proof (induction ps rule: query_encode.induct)
  case (2 p)
  have "CHR ''&'' \<notin> set (query_pair p)" using escaped_chars by (fastforce simp: query_pair_def)
  then show ?case by (simp add: split_at_none)
next
  case (3 p q ps)
  have "CHR ''&'' \<notin> set (query_pair p)" using escaped_chars by (fastforce simp: query_pair_def)
  then show ?case using 3 split_at_append [of "CHR ''&''" "query_pair p" "query_encode (q # ps)"] by simp
qed simp

text \<open>Every value of an encoded query is read back, whatever characters it has.\<close>

lemma query_get_encode:
  assumes "ps \<noteq> []"
  shows "query_get (query_encode ps) k = (case map_of ps k of Some v \<Rightarrow> v | None \<Rightarrow> [])"
proof -
  have "List.map_filter parse_pair (map query_pair ps) = ps"
    by (induction ps) (simp_all add: map_filter_simps parse_query_pair)
  then show ?thesis by (simp add: query_get_def split_query_encode [OF assms])
qed

lemma query_encode_chars: "c \<in> set (query_encode ps) \<Longrightarrow> c \<noteq> CHR ''#'' \<and> c \<noteq> CHR ''?''"
proof (induction ps rule: query_encode.induct)
  case (2 p)
  then show ?case using escaped_chars by (fastforce simp: query_pair_def)
next
  case (3 p q ps)
  then show ?case using escaped_chars by (fastforce simp: query_pair_def)
qed simp

end
