(* ===== verification/Gateway.thy ===== *)
theory Gateway
  imports Upstream CredStore GoURL
begin

text \<open>
  The gateway of \<open>main.go\<close>: the checks of its configuration, the queue in front of the upstream,
  one request from validation to the upstream turn, and the way the process ends.
\<close>

section \<open>Errors and their status\<close>

text \<open>The text of an error; \<open>errors.Join\<close> writes one error per line.\<close>

fun join_lines :: "string list \<Rightarrow> string" where
  "join_lines [] = []"
| "join_lines [s] = s"
| "join_lines (s # t # ts) = s @ [CHR 0x0A] @ join_lines (t # ts)"

fun error_text :: "gerror \<Rightarrow> string" and error_texts :: "gerror list \<Rightarrow> string list" where
  "error_text (ErrMsg s) = s"
| "error_text LoginRequired = ''Trae login required; run trae-api login''"
| "error_text AmbiguousExchange = ''token exchange response missing access token''"
| "error_text CredentialRejected = ''upstream rejected credential''"
| "error_text Canceled = ''context canceled''"
| "error_text DeadlineExceeded = ''context deadline exceeded''"
| "error_text ErrNotExist = ''file does not exist''"
| "error_text ServerClosed = ''http: Server closed''"
| "error_text (ApiError st s) = s"
| "error_text (Wrap s e) = s @ error_text e"
| "error_text (Joined es) = join_lines (error_texts es)"
| "error_texts [] = []"
| "error_texts (e # es) = error_text e # error_texts es"

definition status_for_error :: "gerror \<Rightarrow> int" where
  "status_for_error e =
     (case errors_as_api e of
        Some (st, _) \<Rightarrow> st
      | None \<Rightarrow>
          if errors_is e LoginRequired then 401
          else if errors_is e DeadlineExceeded then 504
          else 502)"

section \<open>Configuration\<close>

definition is_loopback_addr :: "string \<Rightarrow> bool" where
  "is_loopback_addr addr \<longleftrightarrow>
     (case split_host_port addr of
        Some (h, p) \<Rightarrow> h = ''localhost'' \<or> loopback_literal h
      | None \<Rightarrow> False)"

text \<open>\<open>strconv.Atoi\<close>.\<close>

definition atoi :: "string \<Rightarrow> int option" where
  "atoi s =
     (let d = (if take 1 s = ''-'' \<or> take 1 s = ''+'' then drop 1 s else s);
          n = (if take 1 s = ''-'' then - int (nat_of_digits d) else int (nat_of_digits d))
      in if d \<noteq> [] \<and> list_all is_digit d \<and> - (2 ^ 63) \<le> n \<and> n < 2 ^ 63 then Some n else None)"

definition validate_api_config :: "config \<Rightarrow> gerror option" where
  "validate_api_config c =
     (case split_host_port (cf_addr c) of
        None \<Rightarrow> Some (ErrMsg ''API address must be host:port with port 0..65535'')
      | Some (host, port) \<Rightarrow>
          (case atoi port of
             None \<Rightarrow> Some (ErrMsg ''API address must be host:port with port 0..65535'')
           | Some n \<Rightarrow>
               if n < 0 \<or> 65535 < n then Some (ErrMsg ''API address must be host:port with port 0..65535'')
               else if host \<noteq> [] \<and> host \<noteq> ''localhost'' \<and> parse_ip host = None
               then Some (ErrMsg ''API address must use localhost or a literal IP'')
               else if \<not> is_loopback_addr (cf_addr c) \<and> cf_api_token c = []
               then Some (ErrMsg ''TRAE_API_TOKEN is required for non-loopback listening'')
               else None))"

section \<open>The queue\<close>

text \<open>What the \<open>select\<close> of \<open>acquireGate\<close> finds ready.\<close>

datatype gate_event = GateSlot | GateDone gerror | GateTimeout

definition acquire_gate :: "gerror option \<Rightarrow> gate_event \<Rightarrow> gerror option" where
  "acquire_gate ctx_err ev =
     (case ctx_err of
        Some e \<Rightarrow> Some e
      | None \<Rightarrow>
          (case ev of
             GateSlot \<Rightarrow> None
           | GateDone e \<Rightarrow> Some e
           | GateTimeout \<Rightarrow> Some (ApiError 503 ''request queue timed out'')))"

section \<open>One request\<close>

text \<open>
  What happens around \<open>execute\<close>: the readings of \<open>ctx.Err()\<close> at its start and in the queue,
  the queue, the credential file, the identity of a snapshot and a request identifier.
\<close>

record exec_env =
  ee_ctx :: "gerror option"
  ee_queue_ctx :: "gerror option"
  ee_gate :: gate_event
  ee_os :: os_env
  ee_codec :: codec
  ee_config_dir :: "gerror + string"
  ee_now :: int
  ee_identity :: "api_credential \<Rightarrow> 64 word"
  ee_request :: string
  ee_turn :: turn_env

type_synonym emitter = "(delta list \<Rightarrow> delta \<Rightarrow> gerror option) option"

text \<open>The callback's answer may depend on the deltas it was given before.\<close>

definition start_delta :: "string \<Rightarrow> delta" where
  "start_delta model = \<lparr>d_text = [], d_reasoning = [], d_call = None, d_index = 0, d_heartbeat = False,
     d_start = True, d_model = model\<rparr>"

definition emit_start :: "emitter \<Rightarrow> string \<Rightarrow> delta list \<times> gerror option" where
  "emit_start emit model =
     (case emit of None \<Rightarrow> ([], None) | Some f \<Rightarrow> ([start_delta model], f [] (start_delta model)))"

definition after_start :: "delta list \<Rightarrow> emitter \<Rightarrow> emitter" where
  "after_start sent emit = map_option (\<lambda>f h d. f (sent @ h) d) emit"

definition with_emit :: "emitter \<Rightarrow> turn_env \<Rightarrow> turn_env" where
  "with_emit emit te = te\<lparr>te_stream := (te_stream te)\<lparr>se_emit := emit\<rparr>\<rparr>"

text \<open>The model of the request: its own, or the first the account has.\<close>

definition choose_model ::
  "turn_env \<Rightarrow> api_credential \<Rightarrow> 64 word \<Rightarrow> string \<Rightarrow> client \<Rightarrow> client \<times> string res" where
  "choose_model te c g model t =
     (if model = [] \<or> model = ''auto'' then
        (case model_names (te_order te) (te_api te) c g t of
           (t', Inl e) \<Rightarrow> (t', Inl e)
         | (t', Inr names) \<Rightarrow> (t', Inr (hd names)))
      else (t, Inr model))"

definition run_turn ::
  "exec_env \<Rightarrow> emitter \<Rightarrow> api_credential \<Rightarrow> chat_request \<Rightarrow> client \<Rightarrow> client \<times> chat_request \<times> turn" where
  "run_turn ee emit c r t =
     (let g = ee_identity ee c; te = ee_turn ee in
      case choose_model te c g (r_model r) t of
        (t1, Inl e) \<Rightarrow> (t1, r, no_answer e)
      | (t1, Inr model) \<Rightarrow>
          (let r1 = r\<lparr>r_model := model\<rparr> in
           case resolve_route (te_order te) (te_api te) c g model t1 of
             (t2, Inl e) \<Rightarrow> (t2, r1, no_answer e)
           | (t2, Inr route) \<Rightarrow>
               (case emit_start emit model of
                  (sent, Some e) \<Rightarrow> (t2, r1, ((empty_completion, sent), Some e))
                | (sent, None) \<Rightarrow>
                    (case prompt (with_emit (after_start sent emit) te) c g r1 (ee_request ee) t2 of
                       (t3, ((result, deltas), e)) \<Rightarrow> (t3, r1, ((result, sent @ deltas), e))))))"

definition execute ::
  "exec_env \<Rightarrow> emitter \<Rightarrow> chat_request \<Rightarrow> client \<Rightarrow> disk \<Rightarrow> client \<times> disk \<times> chat_request \<times> turn" where
  "execute ee emit r t d =
     (case ee_ctx ee of
        Some e \<Rightarrow> (t, d, r, no_answer e)
      | None \<Rightarrow>
          (case validate_request r of
             (r1, Some e) \<Rightarrow> (t, d, r1, no_answer (bad_request (error_text e)))
           | (r1, None) \<Rightarrow>
               (case validate_tool_history (r_messages r1) of
                  Some e \<Rightarrow> (t, d, r1, no_answer (bad_request (error_text e)))
                | None \<Rightarrow>
                    (case acquire_gate (ee_queue_ctx ee) (ee_gate ee) of
                       Some e \<Rightarrow> (t, d, r1, no_answer e)
                     | None \<Rightarrow>
                         (case read_api_credential (ee_os ee) (ee_codec ee) (ee_config_dir ee) (ee_now ee) d of
                            (d', Inl e) \<Rightarrow> (t, d', r1, no_answer e)
                          | (d', Inr c) \<Rightarrow>
                              (case run_turn ee emit c r1 t of (t', r2, out) \<Rightarrow> (t', d', r2, out)))))))"

section \<open>The end of the process\<close>

text \<open>
  \<open>waitForHTTP\<close>: the server stops by itself, or the signal comes and it is shut down, with the
  errors of the shutdown and of \<open>Serve\<close>.
\<close>

datatype wait_event = ServeEnds "gerror option" | SignalFirst "gerror option" "gerror option"

definition drop_closed :: "gerror option \<Rightarrow> gerror option" where
  "drop_closed e = (case e of Some x \<Rightarrow> if errors_is x ServerClosed then None else e | None \<Rightarrow> None)"

text \<open>\<open>errors.Join\<close> drops nil errors; it is nil when all are.\<close>

definition join_errors :: "gerror option list \<Rightarrow> gerror option" where
  "join_errors es = (let xs = List.map_filter id es in if xs = [] then None else Some (Joined xs))"

definition wait_for_http :: "wait_event \<Rightarrow> gerror option" where
  "wait_for_http ev =
     (case ev of
        ServeEnds e \<Rightarrow> drop_closed e
      | SignalFirst shutdown_err serve_err \<Rightarrow>
          (case shutdown_err of
             Some e \<Rightarrow>
               map_option (Wrap ''graceful shutdown failed: '') (join_errors [Some e, drop_closed serve_err])
           | None \<Rightarrow> drop_closed serve_err))"

text \<open>The auth service's \<open>Run\<close> after its listener is up; \<open>ctx_err\<close> is \<open>ctx.Err()\<close>.\<close>

definition auth_run_end :: "gerror option \<Rightarrow> wait_event \<Rightarrow> gerror option \<Rightarrow> gerror option" where
  "auth_run_end ctx_err ev close_err =
     (case ev of
        ServeEnds (Some e) \<Rightarrow>
          if errors_is e ServerClosed \<and> ctx_err \<noteq> None then None else Some e
      | ServeEnds None \<Rightarrow> Some (ErrMsg ''Auth listener stopped unexpectedly'')
      | SignalFirst shutdown_err serve_err \<Rightarrow>
          join_errors [case shutdown_err of Some e \<Rightarrow> join_errors [Some e, close_err] | None \<Rightarrow> None,
            drop_closed serve_err])"

text \<open>\<open>runCombined\<close>: the two components in the order they stop.\<close>

definition combined_result :: "gerror option \<Rightarrow> string \<times> gerror option \<Rightarrow> string \<times> gerror option \<Rightarrow> gerror option" where
  "combined_result ctx_err one two =
     (let failures = List.map_filter (\<lambda>(name, e). map_option (Wrap (name @ '' stopped: '')) e) [one, two] in
      if failures \<noteq> [] then Some (Joined failures)
      else if ctx_err = None then Some (ErrMsg ''component stopped unexpectedly'')
      else None)"

end
