(* ===== verification/HttpRequest.thy ===== *)
theory HttpRequest
  imports Gateway
begin

text \<open>
  The body of an API request: \<open>decodeBody\<close> of \<open>http.go\<close> and \<open>decodeChatRequest\<close> of
  \<open>types.go\<close>. The decoder of the OpenAI SDK is a parameter, and so is whether the JSON
  scanner meets a syntax error in a text that is cut off by the body limit. A member that is
  given twice counts with its last value if it is an array.
\<close>

section \<open>The body\<close>

definition max_request_body :: nat where
  "max_request_body = 4194304"

definition too_large :: gerror where
  "too_large = ApiError 413 ''request body exceeds 4 MiB limit''"

definition is_container :: "json \<Rightarrow> bool" where
  "is_container v \<longleftrightarrow> (case v of JObj m \<Rightarrow> True | JArr xs \<Rightarrow> True | _ \<Rightarrow> False)"

text \<open>
  The first \<open>Decode\<close>: the raw text of the value and what follows it within the limit. A value
  that is no object or array ends at the byte after it, which a body over the limit lacks.
\<close>

definition first_value :: "(string \<Rightarrow> bool) \<Rightarrow> string \<Rightarrow> (json \<times> string \<times> string) res" where
  "first_value broken body =
     (let over = max_request_body < length body; s = skip_ws (take max_request_body body) in
      case pvalue (fuel_for s) s of
        None \<Rightarrow> Inl (if over \<and> \<not> broken s then too_large else bad_request ''invalid JSON request'')
      | Some (v, r) \<Rightarrow>
          if over \<and> r = [] \<and> \<not> is_container v then Inl too_large
          else Inr (v, take (length s - length r) s, r))"

definition unsupported_keys :: "string list" where
  "unsupported_keys = [''reasoning_effort'', ''reasoning'', ''thinking'']"

text \<open>The loop over the unsupported members.\<close>

fun check_unsupported :: "(string \<Rightarrow> string option) \<Rightarrow> string list \<Rightarrow> gerror option" where
  "check_unsupported raw [] = None"
| "check_unsupported raw (k # ks) =
     (case raw k of
        Some v \<Rightarrow>
          if v \<noteq> ''null'' \<and> v \<noteq> ''{}'' then Some (bad_request (k @ '' is unsupported by the IDE upstream''))
          else check_unsupported raw ks
      | None \<Rightarrow> check_unsupported raw ks)"

definition text_format :: "string \<Rightarrow> bool" where
  "text_format v \<longleftrightarrow> (case parse_json v of Some (JObj m) \<Rightarrow> struct_str ''type'' m = Some ''text'' | _ \<Rightarrow> False)"

definition check_members :: "(string \<Rightarrow> string option) \<Rightarrow> gerror option" where
  "check_members raw =
     (case check_unsupported raw unsupported_keys of
        Some e \<Rightarrow> Some e
      | None \<Rightarrow>
          if (case raw ''n'' of Some v \<Rightarrow> v \<noteq> ''1'' | None \<Rightarrow> False)
          then Some (bad_request ''only n=1 is supported'')
          else if (case raw ''response_format'' of Some v \<Rightarrow> v \<noteq> ''null'' \<and> \<not> text_format v | None \<Rightarrow> False)
          then Some (bad_request ''only text response_format is supported'')
          else None)"

type_synonym raw_map = "string \<Rightarrow> string option"

definition decode_body :: "(string \<Rightarrow> bool) \<Rightarrow> string \<Rightarrow> (string \<times> raw_map) res" where
  "decode_body broken body =
     rbind (first_value broken body) (\<lambda>(v, text, r).
       case raw_members text of
         Some (Some ms) \<Rightarrow>
           (let raw = map_of (rev ms) in
            if skip_ws r \<noteq> [] \<or> max_request_body < length body then Inl (bad_request ''multiple JSON values'')
            else (case check_members raw of Some e \<Rightarrow> Inl e | None \<Rightarrow> Inr (text, raw)))
       | _ \<Rightarrow> Inl (bad_request ''request must be a JSON object''))"

section \<open>Struct fields\<close>

text \<open>The raw values of the members that Go assigns to a field, in order.\<close>

definition raw_values :: "string \<Rightarrow> (string \<times> string) list \<Rightarrow> string list" where
  "raw_values name ms = map snd (filter (\<lambda>p. key_matches name (fst p)) ms)"

definition field_str :: "string \<Rightarrow> (string \<times> string) list \<Rightarrow> string option" where
  "field_str name ms = assign_str [] (List.map_filter parse_json (raw_values name ms))"

definition field_raw :: "string \<Rightarrow> (string \<times> string) list \<Rightarrow> string" where
  "field_raw name ms = (case rev (raw_values name ms) of [] \<Rightarrow> [] | v # _ \<Rightarrow> v)"

text \<open>Fields of type \<open>bool\<close>, \<open>int64\<close> and \<open>*float64\<close>; \<open>null\<close> changes none of the first two.\<close>

fun assign_bool :: "bool \<Rightarrow> string list \<Rightarrow> bool option" where
  "assign_bool b [] = Some b"
| "assign_bool b (v # vs) =
     (if v = ''null'' then assign_bool b vs
      else if v = ''true'' then assign_bool True vs
      else if v = ''false'' then assign_bool False vs else None)"

definition field_int_ok :: "string \<Rightarrow> (string \<times> string) list \<Rightarrow> bool" where
  "field_int_ok name ms \<longleftrightarrow> list_all (\<lambda>v. v = ''null'' \<or> atoi v \<noteq> None) (raw_values name ms)"

definition field_bool_ok :: "string \<Rightarrow> (string \<times> string) list \<Rightarrow> bool" where
  "field_bool_ok name ms \<longleftrightarrow> assign_bool False (raw_values name ms) \<noteq> None"

definition field_float_ok :: "string \<Rightarrow> (string \<times> string) list \<Rightarrow> bool" where
  "field_float_ok name ms \<longleftrightarrow>
     list_all (\<lambda>v. case parse_json v of Some JNull \<Rightarrow> True | Some (JNum x) \<Rightarrow> num_in_range x | _ \<Rightarrow> False)
       (raw_values name ms)"

text \<open>A nested struct: the members of every object given for it.\<close>

fun collect_members :: "string list \<Rightarrow> (string \<times> string) list option" where
  "collect_members [] = Some []"
| "collect_members (v # vs) =
     (case raw_members v of
        Some None \<Rightarrow> collect_members vs
      | Some (Some ms) \<Rightarrow> map_option (\<lambda>r. ms @ r) (collect_members vs)
      | None \<Rightarrow> None)"

text \<open>\<open>[]json.RawMessage\<close>: the source texts of the elements of an array.\<close>

fun raw_elems_from :: "nat \<Rightarrow> string \<Rightarrow> string list option" where
  "raw_elems_from 0 s = None"
| "raw_elems_from (Suc n) s =
     (let v = skip_ws s in
      case pvalue (fuel_for v) v of
        None \<Rightarrow> None
      | Some (_, r) \<Rightarrow>
          (let t = skip_ws r; raw = take (length v - length r) v in
           if take 1 t = '']'' then Some [raw]
           else map_option ((#) raw) (raw_elems_from n (drop 1 t))))"

definition raw_elems :: "string \<Rightarrow> string list option" where
  "raw_elems s =
     (case parse_json s of
        Some JNull \<Rightarrow> Some []
      | Some (JArr []) \<Rightarrow> Some []
      | Some (JArr xs) \<Rightarrow> raw_elems_from (length s) (drop 1 (skip_ws s))
      | _ \<Rightarrow> None)"

text \<open>A slice field: absent, it is empty.\<close>

definition field_elems :: "string \<Rightarrow> (string \<times> string) list \<Rightarrow> string list option" where
  "field_elems name ms = (case field_raw name ms of [] \<Rightarrow> Some [] | v \<Rightarrow> raw_elems v)"

text \<open>A slice of structs: every element an object or \<open>null\<close>.\<close>

fun decode_all :: "((string \<times> string) list \<Rightarrow> 'a option) \<Rightarrow> string list \<Rightarrow> 'a list option" where
  "decode_all f [] = Some []"
| "decode_all f (v # vs) =
     (case raw_members v of
        None \<Rightarrow> None
      | Some mo \<Rightarrow>
          (case f (case mo of Some ms \<Rightarrow> ms | None \<Rightarrow> []) of
             None \<Rightarrow> None
           | Some x \<Rightarrow> map_option ((#) x) (decode_all f vs)))"

definition decode_call :: "(string \<times> string) list \<Rightarrow> tool_call option" where
  "decode_call ms =
     (case (field_str ''id'' ms, field_str ''type'' ms, collect_members (raw_values ''function'' ms)) of
        (Some i, Some ty, Some fs) \<Rightarrow>
          (case (field_str ''name'' fs, field_str ''arguments'' fs) of
             (Some n, Some a) \<Rightarrow> Some \<lparr>tc_id = i, tc_type = ty, tc_fn = \<lparr>fn_name = n, fn_args = a\<rparr>\<rparr>
           | _ \<Rightarrow> None)
      | _ \<Rightarrow> None)"

definition decode_message :: "(string \<times> string) list \<Rightarrow> message_input option" where
  "decode_message ms =
     (case (field_str ''role'' ms, Option.bind (field_elems ''tool_calls'' ms) (decode_all decode_call),
            field_str ''name'' ms, field_str ''tool_call_id'' ms) of
        (Some r, Some cs, Some n, Some i) \<Rightarrow>
          Some \<lparr>mi_role = r, mi_content = field_raw ''content'' ms, mi_calls = cs, mi_name = n, mi_call_id = i\<rparr>
      | _ \<Rightarrow> None)"

record tool_input =
  ti_type :: string
  ti_params :: string

definition decode_tool :: "(string \<times> string) list \<Rightarrow> tool_input option" where
  "decode_tool ms =
     (case (field_str ''type'' ms, collect_members (raw_values ''function'' ms)) of
        (Some ty, Some fs) \<Rightarrow>
          if field_str ''name'' fs \<noteq> None \<and> field_str ''description'' fs \<noteq> None \<and> field_bool_ok ''strict'' fs
          then Some \<lparr>ti_type = ty, ti_params = field_raw ''parameters'' fs\<rparr> else None
      | _ \<Rightarrow> None)"

record chat_fields =
  cf_stream :: bool
  cf_messages :: "message_input list"
  cf_tools :: "tool_input list"
  cf_tool_choice :: string

definition decode_fields :: "string \<Rightarrow> chat_fields option" where
  "decode_fields body =
     (case raw_members body of
        Some mo \<Rightarrow>
          (let ms = (case mo of Some ms \<Rightarrow> ms | None \<Rightarrow> []) in
           case (assign_bool False (raw_values ''stream'' ms),
                 Option.bind (field_elems ''messages'' ms) (decode_all decode_message),
                 Option.bind (field_elems ''tools'' ms) (decode_all decode_tool),
                 collect_members (raw_values ''stream_options'' ms)) of
             (Some st, Some msgs, Some ts, Some so) \<Rightarrow>
               if field_str ''model'' ms \<noteq> None \<and> field_int_ok ''max_tokens'' ms
                  \<and> field_int_ok ''max_completion_tokens'' ms \<and> field_bool_ok ''parallel_tool_calls'' ms
                  \<and> field_float_ok ''temperature'' ms \<and> field_float_ok ''top_p'' ms \<and> field_bool_ok ''include_usage'' so
               then Some \<lparr>cf_stream = st, cf_messages = msgs, cf_tools = ts,
                      cf_tool_choice = field_raw ''tool_choice'' ms\<rparr>
               else None
           | _ \<Rightarrow> None)
      | None \<Rightarrow> None)"

section \<open>The chat request\<close>

text \<open>
  What the SDK's decoder gives: the parameters the gateway reads, the role of each message, if
  it knows one, and the function of each tool, if it is one. \<open>optionalPointer\<close> is the option.
\<close>

record sdk_tool =
  sd_name :: string
  sd_desc :: string
  sd_strict :: "bool option"

record sdk_params =
  sd_model :: string
  sd_parallel :: "bool option"
  sd_max_tokens :: int
  sd_max_completion :: int
  sd_temperature :: "number option"
  sd_top_p :: "number option"
  sd_include_usage :: bool
  sd_roles :: "string option list"
  sd_tools :: "sdk_tool option list"

fun normalize_all :: "message_input list \<Rightarrow> string option list \<Rightarrow> message list res" where
  "normalize_all (f # fs) (role # rs) =
     rbind (normalize_message f) (\<lambda>m.
       if role \<noteq> Some (mi_role f) then Inl (ErrMsg (''unsupported role '' @ go_quote (mi_role f)))
       else rbind (normalize_all fs rs) (\<lambda>ms. Inr (m # ms)))"
| "normalize_all _ _ = Inr []"

fun merge_tools :: "tool_input list \<Rightarrow> sdk_tool option list \<Rightarrow> tool list res" where
  "merge_tools (f # fs) (t # ts) =
     (if ti_type f \<noteq> ''function'' then Inl (ErrMsg ''only named function tools are supported'')
      else (case t of
         None \<Rightarrow> Inl (ErrMsg ''only named function tools are supported'')
       | Some fn \<Rightarrow>
           rbind (merge_tools fs ts) (\<lambda>vs.
             Inr (\<lparr>t_type = ''function'', t_name = sd_name fn, t_desc = sd_desc fn, t_params = ti_params f,
                   t_strict = sd_strict fn\<rparr> # vs))))"
| "merge_tools _ _ = Inr []"

definition decode_chat_request :: "(string \<Rightarrow> sdk_params res) \<Rightarrow> string \<Rightarrow> raw_map \<Rightarrow> chat_request res" where
  "decode_chat_request sdk_decode body raw =
     (if (case raw ''stop'' of Some v \<Rightarrow> v \<noteq> ''null'' | None \<Rightarrow> False)
      then Inl (ErrMsg ''stop is unsupported by the IDE upstream'')
      else rbind (sdk_decode body) (\<lambda>sdk.
        case decode_fields body of
          None \<Rightarrow> Inl json_error
        | Some f \<Rightarrow>
            if length (cf_messages f) \<noteq> length (sd_roles sdk) \<or> length (cf_tools f) \<noteq> length (sd_tools sdk)
            then Inl (ErrMsg ''invalid request arrays'')
            else rbind (normalize_all (cf_messages f) (sd_roles sdk)) (\<lambda>ms.
              rbind (merge_tools (cf_tools f) (sd_tools sdk)) (\<lambda>ts.
                Inr \<lparr>r_model = sd_model sdk, r_messages = ms, r_stream = cf_stream f, r_tools = ts,
                     r_tool_choice = cf_tool_choice f, r_parallel = sd_parallel sdk,
                     r_max_tokens = sd_max_tokens sdk, r_max_completion = sd_max_completion sdk,
                     r_temperature = sd_temperature sdk, r_top_p = sd_top_p sdk,
                     r_include_usage = sd_include_usage sdk, r_choice = []\<rparr>))))"

end
