(* ===== verification/HttpStream.thy ===== *)
theory HttpStream
  imports HttpRequest JsonWrite
begin

text \<open>
  The event stream of a streamed answer, \<open>streamSink\<close> of \<open>http.go\<close>, and what is written
  to it. Every method holds the sink's mutex, so a method is one step; the heartbeats of the
  ticker's goroutine that come before each step of the handler are a parameter. So are the
  readings of \<open>ctx.Err()\<close> and the writes to the connection that fail.
\<close>

section \<open>The sink\<close>

record sink_env =
  sv_flusher :: bool
  sv_ctx :: "nat \<Rightarrow> gerror option"
  sv_write :: "nat \<Rightarrow> (nat \<times> gerror) option"
  sv_beats :: "nat \<Rightarrow> nat"

text \<open>
  \<open>sk_out\<close> are the texts written in full, \<open>sk_cut\<close> what a failing write wrote,
  \<open>sk_ops\<close> the number of the handler's calls.
\<close>

record sink =
  sk_started :: bool
  sk_finished :: bool
  sk_err :: "gerror option"
  sk_out :: "string list"
  sk_cut :: string
  sk_writes :: nat
  sk_ops :: nat

definition new_sink :: sink where
  "new_sink = \<lparr>sk_started = False, sk_finished = False, sk_err = None, sk_out = [], sk_cut = [],
     sk_writes = 0, sk_ops = 0\<rparr>"

definition write_text :: "sink_env \<Rightarrow> string \<Rightarrow> sink \<Rightarrow> sink" where
  "write_text env t s =
     (let s' = s\<lparr>sk_writes := Suc (sk_writes s)\<rparr> in
      case sv_write env (sk_writes s) of
        None \<Rightarrow> s'\<lparr>sk_out := sk_out s @ [t]\<rparr>
      | Some (k, e) \<Rightarrow> s'\<lparr>sk_cut := take k t, sk_err := Some e\<rparr>)"

definition lf :: string where
  "lf = [CHR 0x0A]"

definition event_frame :: "string \<Rightarrow> string" where
  "event_frame event = ''event: '' @ event @ lf"

definition data_frame :: "string \<Rightarrow> string" where
  "data_frame data = ''data: '' @ data @ lf @ lf"

definition keepalive :: string where
  "keepalive = '': keepalive'' @ lf @ lf"

definition done_frame :: string where
  "done_frame = ''data: [DONE]'' @ lf @ lf"

text \<open>\<open>writeLocked\<close>; the value is what \<open>json.Marshal\<close> makes of it.\<close>

definition write_locked :: "sink_env \<Rightarrow> string \<Rightarrow> string res \<Rightarrow> sink \<Rightarrow> sink eff" where
  "write_locked env event v s =
     (case sk_err s of
        Some e \<Rightarrow> (s, Some e)
      | None \<Rightarrow>
          if sk_finished s then (s, Some (ErrMsg ''stream already finished''))
          else (case sv_ctx env (sk_ops s) of
            Some e \<Rightarrow> (s, Some e)
          | None \<Rightarrow>
              if \<not> sv_flusher env then (s, Some (ErrMsg ''streaming unsupported''))
              else (case v of
                Inl e \<Rightarrow> (s, Some (Wrap ''encode stream event: '' e))
              | Inr data \<Rightarrow>
                  (let s1 = s\<lparr>sk_started := True\<rparr>;
                       s2 = (if event \<noteq> [] then write_text env (event_frame event) s1 else s1);
                       s3 = (if sk_err s2 = None then write_text env (data_frame data) s2 else s2)
                   in (s3, sk_err s3)))))"

definition heartbeat :: "sink_env \<Rightarrow> sink \<Rightarrow> sink eff" where
  "heartbeat env s =
     (if \<not> sk_started s \<or> sk_finished s \<or> sk_err s \<noteq> None then (s, sk_err s)
      else (let s' = write_text env keepalive s in (s', sk_err s')))"

definition sink_done :: "sink_env \<Rightarrow> sink \<Rightarrow> sink eff" where
  "sink_done env s =
     (case sk_err s of
        Some e \<Rightarrow> (s, Some e)
      | None \<Rightarrow> (let s' = write_text env done_frame (s\<lparr>sk_finished := True\<rparr>) in (s', sk_err s')))"

definition sink_finish :: "sink \<Rightarrow> sink" where
  "sink_finish s = s\<lparr>sk_finished := True\<rparr>"

text \<open>A call of the handler, after the heartbeats that came before it.\<close>

definition beats :: "sink_env \<Rightarrow> sink \<Rightarrow> sink" where
  "beats env s = ((\<lambda>s. fst (heartbeat env s)) ^^ sv_beats env (sk_ops s)) s"

definition turn_of :: "sink_env \<Rightarrow> (sink \<Rightarrow> sink eff) \<Rightarrow> sink \<Rightarrow> sink eff" where
  "turn_of env m s = apfst (\<lambda>s. s\<lparr>sk_ops := Suc (sk_ops s)\<rparr>) (m (beats env s))"

definition sink_send :: "sink_env \<Rightarrow> string \<Rightarrow> string res \<Rightarrow> sink \<Rightarrow> sink eff" where
  "sink_send env event v s = turn_of env (write_locked env event v) s"

text \<open>What the connection has received.\<close>

definition sink_body :: "sink \<Rightarrow> string" where
  "sink_body s = concat (sk_out s) @ sk_cut s"

section \<open>Values of the SDK\<close>

text \<open>
  The chunks and completions the handlers build, with the fields they set. Their JSON is the
  SDK's business, a parameter; so is \<open>sjson.SetBytes\<close>.
\<close>

record usage_out =
  uo_prompt :: int
  uo_completion :: int
  uo_total :: int
  uo_cached :: int
  uo_reasoning :: int

definition chat_usage :: "usage option \<Rightarrow> usage_out" where
  "chat_usage u =
     (case u of
        None \<Rightarrow> \<lparr>uo_prompt = 0, uo_completion = 0, uo_total = 0, uo_cached = 0, uo_reasoning = 0\<rparr>
      | Some u \<Rightarrow> \<lparr>uo_prompt = u_input u, uo_completion = u_output u, uo_total = u_total u,
          uo_cached = (case u_cached u of Some n \<Rightarrow> n | None \<Rightarrow> 0),
          uo_reasoning = (case u_reasoning u of Some n \<Rightarrow> n | None \<Rightarrow> 0)\<rparr>)"

record chunk_call =
  kc_index :: nat
  kc_id :: string
  kc_type :: string
  kc_name :: string
  kc_args :: string

record chunk_delta =
  kd_role :: string
  kd_content :: string
  kd_calls :: "chunk_call list"

definition empty_chunk_delta :: chunk_delta where
  "empty_chunk_delta = \<lparr>kd_role = [], kd_content = [], kd_calls = []\<rparr>"

text \<open>\<open>ck_choice\<close> is the one choice: its delta and finish reason.\<close>

record chunk =
  ck_id :: string
  ck_created :: int
  ck_model :: string
  ck_choice :: "(chunk_delta \<times> string) option"
  ck_usage :: usage_out

definition chat_chunk :: "string \<Rightarrow> int \<Rightarrow> string \<Rightarrow> chunk_delta \<Rightarrow> string \<Rightarrow> usage option \<Rightarrow> chunk" where
  "chat_chunk ident created model d finish u =
     \<lparr>ck_id = ident, ck_created = created, ck_model = model, ck_choice = Some (d, finish), ck_usage = chat_usage u\<rparr>"

record completion_out =
  co_id :: string
  co_created :: int
  co_model :: string
  co_content :: string
  co_calls :: "tool_call list"
  co_finish :: string
  co_usage :: usage_out

record sdk_env =
  sn_chunk :: "chunk \<Rightarrow> string res"
  sn_completion :: "completion_out \<Rightarrow> string res"
  sn_set :: "string \<Rightarrow> string \<Rightarrow> string \<Rightarrow> string res"
  sn_error :: "string \<Rightarrow> string \<Rightarrow> (string \<times> string) list res"
  sn_models :: "string list \<Rightarrow> string res"

definition marshal_reasoning :: "sdk_env \<Rightarrow> string res \<Rightarrow> string \<Rightarrow> string \<Rightarrow> string res" where
  "marshal_reasoning sdk data path reason =
     (case data of Inl e \<Rightarrow> Inl e | Inr d \<Rightarrow> if reason = [] then Inr d else sn_set sdk d path reason)"

text \<open>\<open>openAIErrorJSON\<close>: the SDK's members without its own, with or without a null code.\<close>

definition error_json :: "sdk_env \<Rightarrow> bool \<Rightarrow> string \<Rightarrow> string \<Rightarrow> string res" where
  "error_json sdk include_code msg typ =
     rbind (sn_error sdk msg typ) (\<lambda>fields.
       let fields = foldl (\<lambda>m k. mdel k m) fields [''StatusCode'', ''Request'', ''Response'', ''param''];
           fields = (if include_code then mput ''code'' ''null'' fields else mdel ''code'' fields)
       in Inr (raw_obj [(''error'', raw_obj (sort_key fst fields))]))"

section \<open>The deltas of an answer\<close>

text \<open>The closure \<open>emit\<close> of \<open>chat\<close>, with the model it remembers.\<close>

record stream_state =
  sm_model :: string
  sm_sink :: sink

record chat_env =
  ce_sdk :: sdk_env
  ce_sink :: sink_env
  ce_id :: string
  ce_created :: int

definition on_sink :: "(sink \<Rightarrow> sink eff) \<Rightarrow> stream_state \<Rightarrow> stream_state eff" where
  "on_sink m s = apfst (\<lambda>k. s\<lparr>sm_sink := k\<rparr>) (m (sm_sink s))"

definition chunk_call_of :: "nat \<Rightarrow> tool_call \<Rightarrow> chunk_call" where
  "chunk_call_of i c = \<lparr>kc_index = i, kc_id = tc_id c, kc_type = (if tc_id c \<noteq> [] then ''function'' else []),
     kc_name = fn_name (tc_fn c), kc_args = fn_args (tc_fn c)\<rparr>"

definition delta_chunk :: "chat_env \<Rightarrow> string \<Rightarrow> delta \<Rightarrow> chunk" where
  "delta_chunk env model d = chat_chunk (ce_id env) (ce_created env) model
     \<lparr>kd_role = [], kd_content = d_text d,
      kd_calls = (case d_call d of Some c \<Rightarrow> [chunk_call_of (d_index d) c] | None \<Rightarrow> [])\<rparr> [] None"

definition start_chunk :: "chat_env \<Rightarrow> string \<Rightarrow> chunk" where
  "start_chunk env model = chat_chunk (ce_id env) (ce_created env) model
     (empty_chunk_delta\<lparr>kd_role := ''assistant''\<rparr>) [] None"

definition delta_payload :: "chat_env \<Rightarrow> string \<Rightarrow> delta \<Rightarrow> string res" where
  "delta_payload env model d = marshal_reasoning (ce_sdk env) (sn_chunk (ce_sdk env) (delta_chunk env model d))
     ''choices.0.delta.reasoning_content'' (d_reasoning d)"

definition chat_emit :: "chat_env \<Rightarrow> delta \<Rightarrow> stream_state \<Rightarrow> stream_state eff" where
  "chat_emit env d s =
     (if d_start d then
        on_sink (sink_send (ce_sink env) [] (sn_chunk (ce_sdk env) (start_chunk env (d_model d))))
          (s\<lparr>sm_model := d_model d\<rparr>)
      else if d_heartbeat d then on_sink (turn_of (ce_sink env) (heartbeat (ce_sink env))) s
      else if d_reasoning d \<noteq> [] then
        (case delta_payload env (sm_model s) d of
           Inl e \<Rightarrow> (s, Some e)
         | Inr body \<Rightarrow> on_sink (sink_send (ce_sink env) [] (Inr body)) s)
      else on_sink (sink_send (ce_sink env) [] (sn_chunk (ce_sdk env) (delta_chunk env (sm_model s) d))) s)"

definition replay :: "chat_env \<Rightarrow> string \<Rightarrow> delta list \<Rightarrow> stream_state" where
  "replay env model ds = foldl (\<lambda>s d. fst (chat_emit env d s)) \<lparr>sm_model = model, sm_sink = new_sink\<rparr> ds"

definition chat_emitter :: "chat_env \<Rightarrow> string \<Rightarrow> emitter" where
  "chat_emitter env model = Some (\<lambda>before d. snd (chat_emit env d (replay env model before)))"

section \<open>The end of a stream\<close>

text \<open>After an answer: the finish reason, the usage if it was asked for, and the end mark.\<close>

definition finish_chunk :: "chat_env \<Rightarrow> string \<Rightarrow> completion \<Rightarrow> chunk" where
  "finish_chunk env model result =
     chat_chunk (ce_id env) (ce_created env) model empty_chunk_delta (c_finish result) None"

definition usage_chunk :: "chat_env \<Rightarrow> string \<Rightarrow> usage option \<Rightarrow> chunk" where
  "usage_chunk env model u = \<lparr>ck_id = ce_id env, ck_created = ce_created env, ck_model = model,
     ck_choice = None, ck_usage = chat_usage u\<rparr>"

definition end_answer :: "chat_env \<Rightarrow> bool \<Rightarrow> string \<Rightarrow> completion \<Rightarrow> sink \<Rightarrow> sink" where
  "end_answer env include_usage model result s =
     fst (andthen (sink_send (ce_sink env) [] (sn_chunk (ce_sdk env) (finish_chunk env model result)) s) (\<lambda>s.
          andthen (if include_usage
                   then sink_send (ce_sink env) [] (sn_chunk (ce_sdk env) (usage_chunk env model (c_usage result))) s
                   else (s, None)) (\<lambda>s.
          turn_of (ce_sink env) (sink_done (ce_sink env)) s)))"

text \<open>The started branch of \<open>writeExecutionError\<close>.\<close>

definition error_type :: "gerror \<Rightarrow> string" where
  "error_type e = (if status_for_error e = 401 then ''authentication_error'' else ''server_error'')"

definition end_error :: "chat_env \<Rightarrow> gerror \<Rightarrow> sink \<Rightarrow> sink" where
  "end_error env e s =
     (let s1 = fst (sink_send (ce_sink env) [] (error_json (ce_sdk env) False (error_text e) (error_type e)) s) in
      if error_type e = ''authentication_error''
      then fst (turn_of (ce_sink env) (\<lambda>s. (sink_finish s, None)) s1)
      else fst (turn_of (ce_sink env) (sink_done (ce_sink env)) s1))"

end
