(* ===== verification/HttpApi.thy ===== *)
theory HttpApi
  imports HttpStream
begin

text \<open>
  The HTTP interface of the gateway, \<open>http.go\<close>: the access check, the routes, the model list,
  the chat handler in both modes, the error answers and the estimated usage. The classes of
  Unicode characters are a parameter. The library's multiplexer compares the
  unescaped segments of a path; its redirection of paths that are not clean is not modelled.
\<close>

section \<open>Requests and responses\<close>

text \<open>\<open>wq_path\<close> is \<open>r.URL.EscapedPath()\<close>: the path as the client wrote it, with its escapes.\<close>

record web_request =
  wq_method :: string
  wq_path :: string
  wq_host :: string
  wq_header :: "(string \<times> string) list"
  wq_body :: string

record response =
  rp_status :: int
  rp_header :: "(string \<times> string) list"
  rp_body :: string

text \<open>\<open>r.Header.Get\<close>.\<close>

definition get_header :: "web_request \<Rightarrow> string \<Rightarrow> string" where
  "get_header q k = (case map_of (wq_header q) (canonical_key k) of Some v \<Rightarrow> v | None \<Rightarrow> [])"

text \<open>\<open>writeJSON\<close> after the headers set before; the encoder ends the text with a newline.\<close>

definition write_json :: "(string \<times> string) list \<Rightarrow> int \<Rightarrow> string res \<Rightarrow> response" where
  "write_json h status v = \<lparr>rp_status = status, rp_header = set_header ''Content-Type'' ''application/json'' h,
     rp_body = (case v of Inr s \<Rightarrow> s @ lf | Inl e \<Rightarrow> [])\<rparr>"

definition status_type :: "int \<Rightarrow> string" where
  "status_type status =
     (if status = 401 then ''authentication_error''
      else if status = 400 then ''invalid_request_error'' else ''server_error'')"

definition write_error :: "sdk_env \<Rightarrow> (string \<times> string) list \<Rightarrow> int \<Rightarrow> string \<Rightarrow> response" where
  "write_error sdk h status msg = write_json h status (error_json sdk True msg (status_type status))"

section \<open>Access\<close>

definition local_management_host :: "string \<Rightarrow> bool" where
  "local_management_host host \<longleftrightarrow>
     (case url_parse (''http://'' @ host) of
        None \<Rightarrow> False
      | Some u \<Rightarrow>
          if u_host u \<noteq> host \<or> u_user u \<or> u_path u \<noteq> [] \<or> u_query u \<noteq> [] \<or> u_fragment u \<noteq> [] then False
          else equal_fold (hostname (u_host u)) ''localhost'' \<or> loopback_literal (hostname (u_host u)))"

definition same_origin :: "web_request \<Rightarrow> bool" where
  "same_origin q \<longleftrightarrow>
     (let origin = get_header q ''Origin'' in
      if origin = [] then get_header q ''Sec-Fetch-Site'' \<noteq> ''cross-site''
      else origin = ''http://'' @ wq_host q \<or> origin = ''https://'' @ wq_host q)"

text \<open>\<open>authMiddleware\<close>: the refusal, or none and the next handler is called.\<close>

definition refusal :: "sdk_env \<Rightarrow> string \<Rightarrow> web_request \<Rightarrow> response option" where
  "refusal sdk token q =
     (if token = [] \<and> (\<not> local_management_host (wq_host q) \<or> \<not> same_origin q)
      then Some (write_error sdk [] 403 ''non-local or cross-origin management request denied'')
      else if \<not> (token = [] \<or> get_header q ''Authorization'' = ''Bearer '' @ token)
      then Some (write_error sdk [] 401 ''invalid API token'')
      else None)"

section \<open>Estimated usage\<close>

text \<open>\<open>json.Marshal\<close> of the request's messages and tools and of the answer's calls.\<close>

definition call_json :: "tool_call \<Rightarrow> string" where
  "call_json c = raw_obj [(''id'', quote_str (tc_id c)), (''type'', quote_str (tc_type c)),
     (''function'', raw_obj [(''name'', quote_str (fn_name (tc_fn c))), (''arguments'', quote_str (fn_args (tc_fn c)))])]"

definition list_json :: "string list \<Rightarrow> string" where
  "list_json xs = (if xs = [] then ''null'' else ''['' @ commas xs @ '']'')"

definition omit_empty :: "string \<Rightarrow> string \<Rightarrow> (string \<times> string) list" where
  "omit_empty k s = (if s = [] then [] else [(k, quote_str s)])"

definition message_json :: "message \<Rightarrow> string" where
  "message_json m = raw_obj ([(''role'', quote_str (m_role m)), (''content'', quote_str (m_content m))]
     @ (if m_calls m = [] then [] else [(''tool_calls'', list_json (map call_json (m_calls m)))])
     @ omit_empty ''tool_call_id'' (m_call_id m) @ omit_empty ''name'' (m_name m))"

text \<open>A raw value is written without white space and with the HTML characters escaped.\<close>

fun compact_raw :: "bool \<Rightarrow> string \<Rightarrow> string" where
  "compact_raw quoted [] = []"
| "compact_raw quoted (c # cs) =
     (if quoted \<and> c = CHR 0x5C then c # take 1 cs @ compact_raw True (drop 1 cs)
      else if c = CHR 0x22 then c # compact_raw (\<not> quoted) cs
      else if quoted then (if c = CHR ''<'' \<or> c = CHR ''>'' \<or> c = CHR ''&'' then escape_char c else [c]) @ compact_raw True cs
      else if ws_char c then compact_raw False cs else c # compact_raw False cs)"

definition tool_json :: "tool \<Rightarrow> string" where
  "tool_json t = raw_obj [(''type'', quote_str (t_type t)),
     (''function'', raw_obj ([(''name'', quote_str (t_name t))] @ omit_empty ''description'' (t_desc t)
        @ [(''parameters'', if t_params t = [] then ''null'' else compact_raw False (t_params t))]
        @ (case t_strict t of Some b \<Rightarrow> [(''strict'', if b then ''true'' else ''false'')] | None \<Rightarrow> [])))]"

text \<open>\<open>estimateTokens\<close>: the loop over the runes, with the flag \<open>word\<close>.\<close>

record char_classes =
  cc_han :: "nat \<Rightarrow> bool"
  cc_punct :: "nat \<Rightarrow> bool"

fun count_tokens :: "char_classes \<Rightarrow> bool \<Rightarrow> nat list \<Rightarrow> nat" where
  "count_tokens cc word [] = 0"
| "count_tokens cc word (r # rs) =
     (if is_space r then count_tokens cc False rs
      else if cc_han cc r \<or> cc_punct cc r then Suc (count_tokens cc False rs)
      else if \<not> word then Suc (count_tokens cc True rs)
      else count_tokens cc word rs)"

definition estimate_tokens :: "char_classes \<Rightarrow> string \<Rightarrow> nat" where
  "estimate_tokens cc s = count_tokens cc False (runes s)"

definition estimated_usage :: "char_classes \<Rightarrow> chat_request \<Rightarrow> completion \<Rightarrow> usage" where
  "estimated_usage cc r c =
     (let i = int (estimate_tokens cc (list_json (map message_json (r_messages r)) @ list_json (map tool_json (r_tools r))));
          out = int (estimate_tokens cc (m_content (c_message c) @ c_reasoning c
                  @ list_json (map call_json (m_calls (c_message c)))))
      in \<lparr>u_input = i, u_output = out, u_total = i + out, u_cached = None, u_reasoning = None\<rparr>)"

section \<open>The chat handler\<close>

record server_env =
  se_cfg :: config
  se_chat :: chat_env
  se_exec :: exec_env
  se_decode :: "string \<Rightarrow> sdk_params res"
  se_broken :: "string \<Rightarrow> bool"
  se_chars :: char_classes

text \<open>The response of a stream: its headers are set by the first event.\<close>

definition stream_headers :: "(string \<times> string) list" where
  "stream_headers = [(''Content-Type'', ''text/event-stream''), (''Cache-Control'', ''no-cache''),
     (''X-Accel-Buffering'', ''no'')]"

definition stream_response :: "sink \<Rightarrow> response" where
  "stream_response s = \<lparr>rp_status = 200, rp_header = (if sk_started s then stream_headers else []),
     rp_body = sink_body s\<rparr>"

text \<open>\<open>writeExecutionError\<close>; a sink that has not started leaves the response to the error.\<close>

definition write_execution_error :: "server_env \<Rightarrow> sink option \<Rightarrow> gerror \<Rightarrow> response" where
  "write_execution_error se sink e =
     (case sink of
        Some s \<Rightarrow>
          if sk_started s then stream_response (end_error (se_chat se) e s)
          else write_error (ce_sdk (se_chat se)) [] (status_for_error e) (error_text e)
      | None \<Rightarrow> write_error (ce_sdk (se_chat se)) [] (status_for_error e) (error_text e))"

definition with_usage :: "char_classes \<Rightarrow> chat_request \<Rightarrow> completion \<Rightarrow> completion" where
  "with_usage cc r c = (if c_usage c = None then c\<lparr>c_usage := Some (estimated_usage cc r c)\<rparr> else c)"

definition completion_json :: "chat_env \<Rightarrow> string \<Rightarrow> completion \<Rightarrow> string res" where
  "completion_json env model c = sn_completion (ce_sdk env)
     \<lparr>co_id = ce_id env, co_created = ce_created env, co_model = model, co_content = m_content (c_message c),
      co_calls = map (\<lambda>k. k\<lparr>tc_type := ''function''\<rparr>) (m_calls (c_message c)), co_finish = c_finish c,
      co_usage = chat_usage (c_usage c)\<rparr>"

text \<open>The answer of a request that was not streamed.\<close>

definition whole_response :: "server_env \<Rightarrow> chat_request \<Rightarrow> completion \<Rightarrow> response" where
  "whole_response se r c =
     (let h = (if c_usage c = None then set_header ''X-Usage-Estimated'' ''true'' [] else []);
          c' = with_usage (se_chars se) r c;
          v = completion_json (se_chat se) (r_model r) c'
      in if c_reasoning c' = [] then write_json h 200 v
         else (case marshal_reasoning (ce_sdk (se_chat se)) v ''choices.0.message.reasoning_content'' (c_reasoning c') of
                 Inl e \<Rightarrow> write_error (ce_sdk (se_chat se)) h 500 ''could not encode chat completion''
               | Inr body \<Rightarrow> write_json h 200 (Inr body)))"

definition chat_reply :: "server_env \<Rightarrow> chat_request \<Rightarrow> chat_request \<times> turn \<Rightarrow> response" where
  "chat_reply se req out =
     (case out of (r, ((result, deltas), e)) \<Rightarrow>
       if r_stream req then
         (let sink = sm_sink (replay (se_chat se) (r_model req) deltas) in
          case e of
            Some x \<Rightarrow> write_execution_error se (Some sink) x
          | None \<Rightarrow> stream_response (end_answer (se_chat se) (r_include_usage req) (r_model r)
              (with_usage (se_chars se) r result) sink))
       else
         (case e of
            Some x \<Rightarrow> write_execution_error se None x
          | None \<Rightarrow> whole_response se r result))"

definition chat_handler :: "server_env \<Rightarrow> web_request \<Rightarrow> client \<Rightarrow> disk \<Rightarrow> client \<times> disk \<times> response" where
  "chat_handler se q t d =
     (let sdk = ce_sdk (se_chat se) in
      case decode_body (se_broken se) (wq_body q) of
        Inl e \<Rightarrow> (t, d, write_error sdk [] (status_for_error e) (error_text e))
      | Inr (body, raw) \<Rightarrow>
          (case decode_chat_request (se_decode se) body raw of
             Inl e \<Rightarrow> (t, d, write_error sdk [] 400 (''invalid chat completion request: '' @ error_text e))
           | Inr req \<Rightarrow>
               (case execute (se_exec se)
                       (if r_stream req then chat_emitter (se_chat se) (r_model req) else None) req t d of
                  (t', d', out) \<Rightarrow> (t', d', chat_reply se req out))))"

section \<open>The other handlers\<close>

definition api_read :: "server_env \<Rightarrow> disk \<Rightarrow> disk \<times> api_credential res" where
  "api_read se d = (let ee = se_exec se in
     read_api_credential (ee_os ee) (ee_codec ee) (ee_config_dir ee) (ee_now ee) d)"

definition models_handler :: "server_env \<Rightarrow> client \<Rightarrow> disk \<Rightarrow> client \<times> disk \<times> response" where
  "models_handler se t d =
     (let ee = se_exec se; sdk = ce_sdk (se_chat se) in
      case api_read se d of
        (d', Inl e) \<Rightarrow> (t, d', write_error sdk [] (status_for_error e) (error_text e))
      | (d', Inr c) \<Rightarrow>
          (case model_names (te_order (ee_turn ee)) (te_api (ee_turn ee)) c (ee_identity ee c) t of
             (t', Inl e) \<Rightarrow> (t', d', write_error sdk [] (status_for_error e) (error_text e))
           | (t', Inr names) \<Rightarrow> (t', d', write_json [] 200 (sn_models sdk names))))"

definition health_json :: "bool \<Rightarrow> string" where
  "health_json logged_in = raw_obj [(''logged_in'', if logged_in then ''true'' else ''false''), (''status'', quote_str ''ok'')]"

definition health_handler :: "server_env \<Rightarrow> disk \<Rightarrow> disk \<times> response" where
  "health_handler se d =
     (case api_read se d of (d', k) \<Rightarrow>
       (d', write_json [] 200 (Inr (health_json (case k of Inr c \<Rightarrow> True | Inl e \<Rightarrow> False)))))"

text \<open>
  The multiplexer. It cuts the escaped path at its slashes and unescapes each part, so that
  an escaped letter still finds the route; a slash at the end is a part of its own. A pattern
  with GET also serves HEAD.
\<close>

definition mux_unescape :: "string \<Rightarrow> string" where
  "mux_unescape s = (case unescape False s of Some t \<Rightarrow> t | None \<Rightarrow> s)"

definition mux_segments :: "string \<Rightarrow> string list" where
  "mux_segments p =
     (case p of
        [] \<Rightarrow> []
      | c # r \<Rightarrow>
          if c \<noteq> CHR ''/'' then []
          else let parts = split_at (CHR ''/'') r in
            map mux_unescape (butlast parts) @ [if last parts = [] then ''/'' else mux_unescape (last parts)])"

datatype api_route = Health | Models | Chat | Responses | WrongMethod | NotFound

definition api_route :: "web_request \<Rightarrow> api_route" where
  "api_route q =
     (let get = (wq_method q = ''GET'' \<or> wq_method q = ''HEAD''); path = mux_segments (wq_path q) in
      if path = [''healthz''] then (if get then Health else WrongMethod)
      else if path = [''v1'', ''models''] then (if get then Models else WrongMethod)
      else if path = [''v1'', ''chat'', ''completions''] then (if wq_method q = ''POST'' then Chat else WrongMethod)
      else if path = [''v1'', ''responses''] then Responses
      else NotFound)"

lemma mux_literals [simp]:
  "mux_segments ''/v1/chat/completions'' = [''v1'', ''chat'', ''completions'']"
  "mux_segments ''/api/auth/login'' = [''api'', ''auth'', ''login'']"
  "mux_segments ''/api/auth/login/status'' = [''api'', ''auth'', ''login'', ''status'']"
  "mux_segments ''/api/auth/login/cancel'' = [''api'', ''auth'', ''login'', ''cancel'']"
  "mux_segments ''/authorize'' = [''authorize'']"
  "mux_segments ''/%61uthorize'' = [''authorize'']"
  by code_simp+

definition plain_text :: "int \<Rightarrow> string \<Rightarrow> response" where
  "plain_text status s = \<lparr>rp_status = status, rp_header = [(''Content-Type'', ''text/plain; charset=utf-8'')],
     rp_body = s @ lf\<rparr>"

definition api_serve :: "server_env \<Rightarrow> web_request \<Rightarrow> client \<Rightarrow> disk \<Rightarrow> client \<times> disk \<times> response" where
  "api_serve se q t d =
     (case refusal (ce_sdk (se_chat se)) (cf_api_token (se_cfg se)) q of
        Some r \<Rightarrow> (t, d, r)
      | None \<Rightarrow>
          (case api_route q of
             Health \<Rightarrow> (case health_handler se d of (d', r) \<Rightarrow> (t, d', r))
           | Models \<Rightarrow> models_handler se t d
           | Chat \<Rightarrow> chat_handler se q t d
           | Responses \<Rightarrow> (t, d, write_error (ce_sdk (se_chat se)) [] 501
               ''Responses API is unsupported; use Chat Completions with full history'')
           | WrongMethod \<Rightarrow> (t, d, plain_text 405 ''Method Not Allowed'')
           | NotFound \<Rightarrow> (t, d, plain_text 404 ''404 page not found'')))"

section \<open>Headers for the log\<close>

definition secret_header :: "string \<Rightarrow> bool" where
  "secret_header k \<longleftrightarrow> (let lower = to_lower k in
     str_contains lower ''token'' \<or> str_contains lower ''authorization''
     \<or> str_contains lower ''cookie'' \<or> str_contains lower ''api-key'')"

definition debug_headers :: "(string \<times> string list) list \<Rightarrow> (string \<times> string list) list" where
  "debug_headers h = map (\<lambda>(k, v). (k, if secret_header k then [''<redacted>''] else v)) h"

end
