(* ===== verification/HttpStreamCorrect.thy ===== *)
theory HttpStreamCorrect
  imports HttpStream
begin

text \<open>
  The event stream as its client sees it: a reader of the frames, the payloads a healthy
  connection delivers, and for any connection the order of what is written, whatever the
  handler and the heartbeat do.
\<close>

section \<open>A reader of event streams\<close>

text \<open>
  The events of a body: a data line adds to the current event, an empty line ends it, other
  lines (comments) are skipped. An event that is not ended is not delivered.
\<close>

fun dispatch :: "string list \<Rightarrow> string option \<Rightarrow> string list" where
  "dispatch [] cur = []"
| "dispatch (l # ls) cur =
     (if l = [] then (case cur of Some d \<Rightarrow> d # dispatch ls None | None \<Rightarrow> dispatch ls None)
      else if has_prefix l ''data: ''
        then dispatch ls (Some (case cur of Some d \<Rightarrow> d @ lf @ drop 6 l | None \<Rightarrow> drop 6 l))
      else dispatch ls cur)"

definition client_events :: "string \<Rightarrow> string list" where
  "client_events body = dispatch (split_at (CHR 0x0A) body) None"

definition line_safe :: "string \<Rightarrow> bool" where
  "line_safe s \<longleftrightarrow> CHR 0x0A \<notin> set s"

text \<open>A frame: an event with its payload, or a comment.\<close>

definition frame_text :: "string option \<Rightarrow> string" where
  "frame_text f = (case f of Some p \<Rightarrow> data_frame p | None \<Rightarrow> keepalive)"

definition payloads :: "string option list \<Rightarrow> string list" where
  "payloads fs = List.map_filter id fs"

lemma payloads_simps [simp]:
  "payloads [] = []" "payloads (Some p # fs) = p # payloads fs" "payloads (None # fs) = payloads fs"
  "payloads (fs @ gs) = payloads fs @ payloads gs"
  by (simp_all add: payloads_def map_filter_def)

lemma split_line: "line_safe s \<Longrightarrow> split_at (CHR 0x0A) (s @ CHR 0x0A # t) = s # split_at (CHR 0x0A) t"
  unfolding line_safe_def by (rule split_at_append)

lemma events_data: "line_safe p \<Longrightarrow> client_events (data_frame p @ t) = p # client_events t"
  using split_line [of "''data: '' @ p" "CHR 0x0A # t"] split_line [of "[]" t]
  by (simp add: client_events_def data_frame_def lf_def line_safe_def has_prefix_def)

lemma events_keepalive: "client_events (keepalive @ t) = client_events t"
  using split_line [of "'': keepalive''" "CHR 0x0A # t"] split_line [of "[]" t]
  by (simp add: client_events_def keepalive_def lf_def line_safe_def has_prefix_def)

lemma client_events_frames:
  "list_all (\<lambda>f. \<forall>p. f = Some p \<longrightarrow> line_safe p) fs \<Longrightarrow> client_events (concat (map frame_text fs)) = payloads fs"
proof (induction fs)
  case Nil
  show ?case by (simp add: client_events_def)
next
  case (Cons f fs)
  then show ?case by (cases f) (simp_all add: frame_text_def events_data events_keepalive)
qed

lemma done_frame_eq: "done_frame = data_frame ''[DONE]''"
  by (simp add: done_frame_def data_frame_def)

lemma line_safe_done: "line_safe ''[DONE]''"
  by (simp add: line_safe_def)

section \<open>A healthy connection\<close>

definition healthy :: "sink_env \<Rightarrow> bool" where
  "healthy env \<longleftrightarrow> sv_flusher env \<and> (\<forall>n. sv_ctx env n = None \<and> sv_write env n = None)"

text \<open>The payloads \<open>ps\<close> were delivered; \<open>fin\<close> tells whether the stream was finished.\<close>

definition delivered :: "bool \<Rightarrow> string list \<Rightarrow> sink \<Rightarrow> bool" where
  "delivered fin ps s \<longleftrightarrow> sk_finished s = fin \<and> sk_err s = None \<and> sk_cut s = []
     \<and> (sk_started s \<longleftrightarrow> ps \<noteq> [])
     \<and> (\<exists>fs. sk_out s = map frame_text fs \<and> payloads fs = ps \<and> list_all (\<lambda>f. \<forall>p. f = Some p \<longrightarrow> line_safe p) fs)"

lemma delivered_new: "delivered False [] new_sink"
  by (auto simp: delivered_def new_sink_def intro: exI [of _ "[]"])

lemma delivered_body: "delivered fin ps s \<Longrightarrow> client_events (sink_body s) = ps"
  by (auto simp: delivered_def sink_body_def client_events_frames)

lemma delivered_write:
  assumes "healthy env" "delivered fin ps s" "\<forall>p. f = Some p \<longrightarrow> line_safe p" "ps = [] \<longrightarrow> f \<noteq> None"
  shows "delivered fin' (ps @ payloads [f]) (write_text env (frame_text f) (s\<lparr>sk_started := True, sk_finished := fin'\<rparr>))"
proof -
  obtain fs where fs: "sk_out s = map frame_text fs" "payloads fs = ps"
    "list_all (\<lambda>f. \<forall>p. f = Some p \<longrightarrow> line_safe p) fs" using assms(2) by (auto simp: delivered_def)
  have "sv_write env (sk_writes s) = None" using assms(1) by (simp add: healthy_def)
  then show ?thesis
    using assms fs unfolding delivered_def
    by (auto simp: write_text_def Let_def intro!: exI [of _ "fs @ [f]"] split: option.splits)
qed

lemma delivered_heartbeat:
  assumes "healthy env" "delivered fin ps s"
  shows "delivered fin ps (fst (heartbeat env s)) \<and> snd (heartbeat env s) = None"
proof (cases "sk_started s \<and> \<not> fin")
  case True
  have s: "s\<lparr>sk_started := True, sk_finished := False\<rparr> = s" using True assms(2) by (simp add: delivered_def)
  have "ps \<noteq> []" using True assms(2) by (simp add: delivered_def)
  with delivered_write [OF assms, of None False] True s have
    d: "delivered fin ps (write_text env keepalive s)" by (simp add: frame_text_def)
  then have "sk_err (write_text env keepalive s) = None" by (simp add: delivered_def)
  with True d assms(2) show ?thesis by (simp add: heartbeat_def delivered_def Let_def)
next
  case False
  with assms show ?thesis by (auto simp: heartbeat_def delivered_def)
qed

lemma delivered_beats: "healthy env \<Longrightarrow> delivered fin ps s \<Longrightarrow> delivered fin ps (beats env s)"
proof -
  assume *: "healthy env" "delivered fin ps s"
  have "delivered fin ps (((\<lambda>s. fst (heartbeat env s)) ^^ n) s)" for n
    by (induction n) (use * delivered_heartbeat in auto)
  then show ?thesis by (simp add: beats_def)
qed

lemma delivered_ops [simp]: "delivered fin ps (s\<lparr>sk_ops := n\<rparr>) = delivered fin ps s"
  by (simp add: delivered_def)

lemma delivered_send:
  assumes "healthy env" "delivered False ps s" "line_safe p"
  shows "\<exists>s'. sink_send env [] (Inr p) s = (s', None) \<and> delivered False (ps @ [p]) s'"
proof -
  let ?b = "beats env s"
  have b: "delivered False ps ?b" by (rule delivered_beats [OF assms(1,2)])
  have "?b\<lparr>sk_started := True, sk_finished := False\<rparr> = ?b\<lparr>sk_started := True\<rparr>" using b by (simp add: delivered_def)
  with delivered_write [OF assms(1) b, of "Some p" False] assms(3) have
    d: "delivered False (ps @ [p]) (write_text env (data_frame p) (?b\<lparr>sk_started := True\<rparr>))"
    by (simp add: frame_text_def)
  then have "sk_err (write_text env (data_frame p) (?b\<lparr>sk_started := True\<rparr>)) = None" by (simp add: delivered_def)
  moreover have "write_locked env [] (Inr p) ?b =
      (write_text env (data_frame p) (?b\<lparr>sk_started := True\<rparr>), sk_err (write_text env (data_frame p) (?b\<lparr>sk_started := True\<rparr>)))"
    using b assms(1) by (simp add: write_locked_def delivered_def healthy_def Let_def)
  ultimately show ?thesis using d by (simp add: sink_send_def turn_of_def)
qed

lemma delivered_done:
  assumes "healthy env" "delivered False ps s" "ps \<noteq> []"
  shows "delivered True (ps @ [''[DONE]'']) (fst (turn_of env (sink_done env) s))"
proof -
  let ?b = "beats env s"
  have b: "delivered False ps ?b" by (rule delivered_beats [OF assms(1,2)])
  then have "?b\<lparr>sk_started := True, sk_finished := True\<rparr> = ?b\<lparr>sk_finished := True\<rparr>"
    using assms(3) by (simp add: delivered_def)
  with delivered_write [OF assms(1) b, of "Some ''[DONE]''" True] line_safe_done
  have "delivered True (ps @ [''[DONE]'']) (write_text env done_frame (?b\<lparr>sk_finished := True\<rparr>))"
    by (simp add: frame_text_def done_frame_eq)
  moreover have "sk_err ?b = None" using b by (simp add: delivered_def)
  ultimately show ?thesis by (simp add: turn_of_def sink_done_def Let_def)
qed

lemma delivered_finish:
  assumes "healthy env" "delivered False ps s"
  shows "delivered True ps (fst (turn_of env (\<lambda>s. (sink_finish s, None)) s))"
  using delivered_beats [OF assms] by (simp add: turn_of_def sink_finish_def delivered_def)

section \<open>The deltas of an answer\<close>

text \<open>
  The encoders succeed, on one line each, as \<open>json.Marshal\<close> and \<open>sjson\<close> do. Of \<open>sjson.SetBytes\<close>
  only the one use is required: setting the reasoning of the first choice in a chunk that has
  a choice and was written by \<open>json.Marshal\<close>; it rejects malformed paths.
\<close>

definition encodes :: "sdk_env \<Rightarrow> bool" where
  "encodes sdk \<longleftrightarrow> (\<forall>c. \<exists>p. sn_chunk sdk c = Inr p \<and> line_safe p)
     \<and> (\<forall>c d r. ck_choice c \<noteq> None \<longrightarrow> sn_chunk sdk c = Inr d \<longrightarrow>
          (\<exists>p. sn_set sdk d ''choices.0.delta.reasoning_content'' r = Inr p \<and> line_safe p))
     \<and> (\<forall>m t. \<exists>fs. sn_error sdk m t = Inr fs \<and> (\<forall>f \<in> set fs. line_safe (snd f)))"

definition payload_text :: "string res \<Rightarrow> string" where
  "payload_text v = (case v of Inr p \<Rightarrow> p | Inl e \<Rightarrow> [])"

definition chunk_text :: "chat_env \<Rightarrow> chunk \<Rightarrow> string" where
  "chunk_text env c = payload_text (sn_chunk (ce_sdk env) c)"

definition delta_texts :: "chat_env \<Rightarrow> string \<Rightarrow> delta list \<Rightarrow> string list" where
  "delta_texts env model ds =
     map (\<lambda>d. payload_text (delta_payload env model d)) (filter (\<lambda>d. \<not> d_heartbeat d) ds)"

lemma encoded_chunk:
  assumes "encodes (ce_sdk env)"
  shows "sn_chunk (ce_sdk env) c = Inr (chunk_text env c) \<and> line_safe (chunk_text env c)"
proof -
  obtain p where "sn_chunk (ce_sdk env) c = Inr p" "line_safe p" using assms unfolding encodes_def by metis
  then show ?thesis by (simp add: chunk_text_def payload_text_def)
qed

lemma encoded_delta:
  assumes "encodes (ce_sdk env)"
  shows "delta_payload env model d = Inr (payload_text (delta_payload env model d))
    \<and> line_safe (payload_text (delta_payload env model d))"
proof (cases "d_reasoning d = []")
  case True
  then show ?thesis
    using encoded_chunk [OF assms, of "delta_chunk env model d"]
    by (simp add: delta_payload_def marshal_reasoning_def payload_text_def)
next
  case False
  obtain p where "sn_set (ce_sdk env) (chunk_text env (delta_chunk env model d))
      ''choices.0.delta.reasoning_content'' (d_reasoning d) = Inr p" "line_safe p"
  proof -
    have "ck_choice (delta_chunk env model d) \<noteq> None" by (simp add: delta_chunk_def chat_chunk_def)
    with that show ?thesis
      using assms encoded_chunk [OF assms, of "delta_chunk env model d"] unfolding encodes_def by blast
  qed
  then show ?thesis
    using False encoded_chunk [OF assms, of "delta_chunk env model d"]
    by (simp add: delta_payload_def marshal_reasoning_def payload_text_def)
qed

lemma on_sink_send:
  assumes "healthy (ce_sink env)" "delivered False ps (sm_sink s)" "line_safe p"
  shows "\<exists>k. on_sink (sink_send (ce_sink env) [] (Inr p)) s = (s\<lparr>sm_sink := k\<rparr>, None)
    \<and> delivered False (ps @ [p]) k"
  using delivered_send [OF assms] by (auto simp: on_sink_def)

lemma chat_emit_start:
  assumes "healthy (ce_sink env)" "encodes (ce_sdk env)" "delivered False ps (sm_sink s)"
  shows "\<exists>k. chat_emit env (start_delta model) s = (s\<lparr>sm_model := model, sm_sink := k\<rparr>, None)
    \<and> delivered False (ps @ [chunk_text env (start_chunk env model)]) k"
  using on_sink_send [OF assms(1), of ps "s\<lparr>sm_model := model\<rparr>"] assms(3)
    encoded_chunk [OF assms(2), of "start_chunk env model"]
  by (simp add: chat_emit_def start_delta_def)

lemma chat_emit_plain:
  assumes "healthy (ce_sink env)" "encodes (ce_sdk env)" "delivered False ps (sm_sink s)" "\<not> d_start d"
  shows "\<exists>k. chat_emit env d s = (s\<lparr>sm_sink := k\<rparr>, None)
    \<and> delivered False (ps @ delta_texts env (sm_model s) [d]) k"
proof (cases "d_heartbeat d")
  case True
  have b: "delivered False ps (beats (ce_sink env) (sm_sink s))" by (rule delivered_beats [OF assms(1,3)])
  show ?thesis
    using delivered_heartbeat [OF assms(1) b] True assms(4)
    by (cases "heartbeat (ce_sink env) (beats (ce_sink env) (sm_sink s))")
      (auto simp: chat_emit_def on_sink_def turn_of_def delta_texts_def)
next
  case False
  let ?p = "payload_text (delta_payload env (sm_model s) d)"
  have p: "delta_payload env (sm_model s) d = Inr ?p" "line_safe ?p"
    using encoded_delta [OF assms(2)] by blast+
  have "chat_emit env d s = on_sink (sink_send (ce_sink env) [] (Inr ?p)) s"
  proof (cases "d_reasoning d = []")
    case True
    have "sn_chunk (ce_sdk env) (delta_chunk env (sm_model s) d) = delta_payload env (sm_model s) d"
      using True by (simp add: delta_payload_def marshal_reasoning_def split: sum.split)
    then show ?thesis using True False assms(4) p(1) by (simp add: chat_emit_def)
  next
    case r: False
    have "chat_emit env d s = (case delta_payload env (sm_model s) d of
           Inl e \<Rightarrow> (s, Some e)
         | Inr body \<Rightarrow> on_sink (sink_send (ce_sink env) [] (Inr body)) s)"
      using r False assms(4) by (simp add: chat_emit_def)
    then show ?thesis using p(1) by (metis sum.case(2))
  qed
  with on_sink_send [OF assms(1,3) p(2)] False show ?thesis by (simp add: delta_texts_def)
qed

lemma delivered_fold:
  assumes "healthy (ce_sink env)" "encodes (ce_sdk env)"
  shows "delivered False ps (sm_sink s) \<Longrightarrow> list_all (\<lambda>d. \<not> d_start d) ds \<Longrightarrow>
    delivered False (ps @ delta_texts env (sm_model s) ds) (sm_sink (foldl (\<lambda>s d. fst (chat_emit env d s)) s ds))"
proof (induction ds arbitrary: s ps)
  case Nil
  then show ?case by (simp add: delta_texts_def)
next
  case (Cons d ds)
  obtain k where k: "chat_emit env d s = (s\<lparr>sm_sink := k\<rparr>, None)"
    "delivered False (ps @ delta_texts env (sm_model s) [d]) k"
    using chat_emit_plain [OF assms Cons.prems(1)] Cons.prems(2) by auto
  have "delta_texts env (sm_model s) (d # ds) = delta_texts env (sm_model s) [d] @ delta_texts env (sm_model s) ds"
    by (simp add: delta_texts_def)
  with Cons.IH [of "ps @ delta_texts env (sm_model s) [d]" "s\<lparr>sm_sink := k\<rparr>"] k Cons.prems(2) show ?case by simp
qed

text \<open>A streamed answer: its start, then a payload for each delta that is no heartbeat.\<close>

lemma delivered_replay:
  assumes "healthy (ce_sink env)" "encodes (ce_sdk env)" "list_all (\<lambda>d. \<not> d_start d) ds"
  shows "delivered False (chunk_text env (start_chunk env model) # delta_texts env model ds)
    (sm_sink (replay env m0 (start_delta model # ds)))"
proof -
  let ?s = "\<lparr>sm_model = m0, sm_sink = new_sink\<rparr>"
  obtain k where k: "chat_emit env (start_delta model) ?s = (?s\<lparr>sm_model := model, sm_sink := k\<rparr>, None)"
    "delivered False [chunk_text env (start_chunk env model)] k"
    using chat_emit_start [OF assms(1,2), of "[]" ?s model] delivered_new by auto
  with delivered_fold [OF assms(1,2), of _ "?s\<lparr>sm_model := model, sm_sink := k\<rparr>"] assms(3) show ?thesis
    by (fastforce simp: replay_def)
qed

section \<open>The end of a stream\<close>

definition answer_tail :: "chat_env \<Rightarrow> bool \<Rightarrow> string \<Rightarrow> completion \<Rightarrow> string list" where
  "answer_tail env include_usage model result = chunk_text env (finish_chunk env model result)
     # (if include_usage then [chunk_text env (usage_chunk env model (c_usage result))] else []) @ [''[DONE]'']"

definition error_tail :: "chat_env \<Rightarrow> gerror \<Rightarrow> string list" where
  "error_tail env e = payload_text (error_json (ce_sdk env) False (error_text e) (error_type e))
     # (if status_for_error e = 401 then [] else [''[DONE]''])"

lemma delivered_answer:
  assumes "healthy (ce_sink env)" "encodes (ce_sdk env)" "delivered False ps s"
  shows "delivered True (ps @ answer_tail env iu model result) (end_answer env iu model result s)"
proof -
  note c = encoded_chunk [OF assms(2)]
  let ?f = "chunk_text env (finish_chunk env model result)" and ?u = "chunk_text env (usage_chunk env model (c_usage result))"
  obtain s1 where s1: "sink_send (ce_sink env) [] (Inr ?f) s = (s1, None)" "delivered False (ps @ [?f]) s1"
    using delivered_send [OF assms(1,3)] c by blast
  obtain s2 where s2: "(if iu then sink_send (ce_sink env) [] (Inr ?u) s1 else (s1, None)) = (s2, None)"
    "delivered False (ps @ ?f # (if iu then [?u] else [])) s2"
    using delivered_send [OF assms(1) s1(2), of ?u] s1(2) c by (cases iu) auto
  have "end_answer env iu model result s = fst (turn_of (ce_sink env) (sink_done (ce_sink env)) s2)"
    using s1 s2(1) c by (cases iu) (simp_all add: end_answer_def)
  with delivered_done [OF assms(1) s2(2)] show ?thesis by (simp add: answer_tail_def)
qed

lemma line_safe_escape: "CHR 0x0A \<notin> set (escape_char c)"
proof -
  have "hex_char n \<noteq> CHR 0x0A" if "n < 16" for n
  proof -
    have "48 \<le> (of_char (hex_char n) :: nat)" using that by (simp add: hex_char_def)
    then show ?thesis by auto
  qed
  then have "hex_char (of_char c div 16) \<noteq> CHR 0x0A" "hex_char (of_char c mod 16) \<noteq> CHR 0x0A"
    using nat_of_char_less_256 [of c] by (simp_all add: less_mult_imp_div_less)
  then show ?thesis by (auto simp: escape_char_def Let_def)
qed

lemma line_safe_quote: "line_safe (quote_str s)"
  using line_safe_escape by (auto simp: line_safe_def quote_str_def)

lemma line_safe_commas: "\<forall>x \<in> set xs. line_safe x \<Longrightarrow> line_safe (commas xs)"
  by (induction xs rule: commas.induct) (auto simp: line_safe_def)

lemma line_safe_obj: "\<forall>f \<in> set fs. line_safe (snd f) \<Longrightarrow> line_safe (raw_obj fs)"
  using line_safe_commas [of "map raw_item fs"] line_safe_quote
  by (auto simp: raw_obj_def raw_item_def line_safe_def)

lemma set_mput: "set (mput k v m) \<subseteq> insert (k, v) (set m)"
  by (auto simp: mput_def)

lemma encoded_error:
  assumes "encodes sdk"
  shows "error_json sdk ic m t = Inr (payload_text (error_json sdk ic m t))
    \<and> line_safe (payload_text (error_json sdk ic m t))"
proof -
  obtain fs where fs: "sn_error sdk m t = Inr fs" "\<forall>f \<in> set fs. line_safe (snd f)"
    using assms unfolding encodes_def by metis
  define gs where "gs = foldl (\<lambda>m k. mdel k m) fs [''StatusCode'', ''Request'', ''Response'', ''param'']"
  define hs where "hs = (if ic then mput ''code'' ''null'' gs else mdel ''code'' gs)"
  have "set gs \<subseteq> set fs" by (auto simp: gs_def mdel_def)
  then have "\<forall>f \<in> set gs. line_safe (snd f)" using fs(2) by blast
  moreover have "set hs \<subseteq> insert (''code'', ''null'') (set gs)"
    using set_mput [of "''code''" "''null''" gs] by (auto simp: hs_def mdel_def)
  ultimately have "\<forall>f \<in> set hs. line_safe (snd f)" by (auto simp: line_safe_def)
  then have "line_safe (raw_obj (sort_key fst hs))" by (intro line_safe_obj) simp
  then have "line_safe (raw_obj [(''error'', raw_obj (sort_key fst hs))])" by (intro line_safe_obj) simp
  moreover have "error_json sdk ic m t = Inr (raw_obj [(''error'', raw_obj (sort_key fst hs))])"
    by (simp add: error_json_def fs(1) gs_def hs_def Let_def)
  ultimately show ?thesis by (simp add: payload_text_def)
qed

lemma delivered_error:
  assumes "healthy (ce_sink env)" "encodes (ce_sdk env)" "delivered False ps s"
  shows "delivered True (ps @ error_tail env e) (end_error env e s)"
proof -
  let ?v = "error_json (ce_sdk env) False (error_text e) (error_type e)"
  note v = encoded_error [OF assms(2), of False "error_text e" "error_type e"]
  obtain s1 where s1: "sink_send (ce_sink env) [] ?v s = (s1, None)" "delivered False (ps @ [payload_text ?v]) s1"
    using delivered_send [OF assms(1,3)] v by metis
  show ?thesis
    using s1 delivered_done [OF assms(1) s1(2)] delivered_finish [OF assms(1) s1(2)]
    by (auto simp: end_error_def error_tail_def error_type_def Let_def)
qed

section \<open>Any connection\<close>

text \<open>
  The steps on a sink: calls of the handler until it ends the stream, and the heartbeat at any
  time. The flag tells that the handler still runs.
\<close>

inductive sink_step :: "bool \<times> sink \<Rightarrow> bool \<times> sink \<Rightarrow> bool" where
  step_send: "write_locked env [] v s = (s', e) \<Longrightarrow> sink_step (True, s) (True, s')"
| step_beat: "heartbeat env s = (s', e) \<Longrightarrow> sink_step (b, s) (b, s')"
| step_done: "sink_done env s = (s', e) \<Longrightarrow> sk_started s \<Longrightarrow> sink_step (True, s) (False, s')"
| step_finish: "sink_step (True, s) (False, sink_finish s)"

inductive_cases sink_stepE: "sink_step (b, s) (b', s')"

definition frames_first :: "string option list \<Rightarrow> bool" where
  "frames_first fs \<longleftrightarrow> (case fs of [] \<Rightarrow> True | f # _ \<Rightarrow> f \<noteq> None)"

definition sink_inv :: "bool \<times> sink \<Rightarrow> bool" where
  "sink_inv st \<longleftrightarrow> (case st of (b, s) \<Rightarrow>
     (\<exists>fs fin. sk_out s = map frame_text fs @ (if fin then [done_frame] else []) \<and> frames_first fs
        \<and> (fin \<longrightarrow> sk_finished s) \<and> (sk_started s \<and> sk_err s = None \<longrightarrow> fs \<noteq> []) \<and> (\<not> sk_started s \<longrightarrow> fs = []))
     \<and> (sk_err s = None \<longrightarrow> sk_cut s = []) \<and> (\<not> sk_started s \<longrightarrow> sk_err s = None)
     \<and> (sk_finished s \<longrightarrow> \<not> b) \<and> (\<not> b \<longrightarrow> sk_finished s \<or> sk_err s \<noteq> None))"

definition sink_start :: "bool \<times> sink \<Rightarrow> bool" where
  "sink_start st \<longleftrightarrow> st = (True, new_sink)"

lemma write_text_cases:
  obtains "write_text env t s = s\<lparr>sk_writes := Suc (sk_writes s), sk_out := sk_out s @ [t]\<rparr>"
  | k e where "write_text env t s = s\<lparr>sk_writes := Suc (sk_writes s), sk_cut := take k t, sk_err := Some e\<rparr>"
  by (cases "sv_write env (sk_writes s)") (auto simp: write_text_def Let_def)

lemma sink_inv_write:
  assumes "sink_inv (b, s)" "sk_err s = None" "\<not> sk_finished s" "f = None \<longrightarrow> sk_started s"
  shows "sink_inv (b, write_text env (frame_text f) (s\<lparr>sk_started := True\<rparr>))"
proof -
  obtain fs where fs: "sk_out s = map frame_text fs" "frames_first fs" "sk_started s \<longrightarrow> fs \<noteq> []"
    and b: "\<not> b \<longrightarrow> sk_finished s \<or> sk_err s \<noteq> None" "sk_cut s = []"
    using assms(1-3) by (auto simp: sink_inv_def split: if_splits)
  have ff: "frames_first (fs @ [f])" using fs(2,3) assms(4) by (cases fs) (auto simp: frames_first_def)
  show ?thesis
  proof (cases rule: write_text_cases [of env "frame_text f" "s\<lparr>sk_started := True\<rparr>"])
    case 1
    then show ?thesis
      using fs(1) ff b assms(2,3) by (auto simp: sink_inv_def intro!: exI [of _ "fs @ [f]"] exI [of _ False])
  next
    case (2 k e)
    then show ?thesis
      using fs(1,2) b assms(2,3) by (auto simp: sink_inv_def intro!: exI [of _ "fs"] exI [of _ False])
  qed
qed

lemma sink_inv_send:
  assumes "sink_inv (True, s)"
  shows "sink_inv (True, fst (write_locked env [] v s))"
proof (cases "fst (write_locked env [] v s) = s")
  case True
  then show ?thesis using assms by simp
next
  case False
  then obtain data where "sk_err s = None" "\<not> sk_finished s"
    "fst (write_locked env [] v s) = write_text env (frame_text (Some data)) (s\<lparr>sk_started := True\<rparr>)"
    by (auto simp: write_locked_def frame_text_def Let_def split: option.splits if_splits sum.splits)
  then show ?thesis using sink_inv_write [OF assms, of "Some data" env] by simp
qed

lemma sink_inv_heartbeat:
  assumes "sink_inv (b, s)"
  shows "sink_inv (b, fst (heartbeat env s))"
proof (cases "sk_started s \<and> \<not> sk_finished s \<and> sk_err s = None")
  case True
  then have eq: "s\<lparr>sk_started := True\<rparr> = s" by simp
  have "fst (heartbeat env s) = write_text env (frame_text None) (s\<lparr>sk_started := True\<rparr>)"
    unfolding eq using True by (simp add: heartbeat_def frame_text_def Let_def)
  then show ?thesis using sink_inv_write [OF assms, of None env] True by simp
next
  case False
  then have "fst (heartbeat env s) = s" by (auto simp: heartbeat_def)
  then show ?thesis using assms by simp
qed

lemma sink_inv_running:
  assumes "sink_inv (True, s)"
  obtains fs where "sk_out s = map frame_text fs" "frames_first fs" "sk_started s \<and> sk_err s = None \<longrightarrow> fs \<noteq> []"
    "\<not> sk_started s \<longrightarrow> fs = []" "\<not> sk_finished s"
proof -
  have nf: "\<not> sk_finished s" using assms by (simp add: sink_inv_def)
  then obtain fs where "sk_out s = map frame_text fs" "frames_first fs" "sk_started s \<and> sk_err s = None \<longrightarrow> fs \<noteq> []"
    "\<not> sk_started s \<longrightarrow> fs = []"
    using assms unfolding sink_inv_def prod.case by (metis append_Nil2)
  with nf that show ?thesis by blast
qed

lemma sink_inv_done:
  assumes "sink_inv (True, s)" "sk_started s"
  shows "sink_inv (False, fst (sink_done env s))"
proof (cases "sk_err s")
  case (Some x)
  then have s': "fst (sink_done env s) = s" by (simp add: sink_done_def)
  from sink_inv_running [OF assms(1)] obtain fs where "sk_out s = map frame_text fs" "frames_first fs" by blast
  then show ?thesis
    unfolding s' sink_inv_def prod.case using Some assms(2)
    by (intro conjI exI [of _ fs] exI [of _ False]) simp_all
next
  case None
  have s': "fst (sink_done env s) = write_text env done_frame (s\<lparr>sk_finished := True\<rparr>)"
    using None by (simp add: sink_done_def Let_def)
  obtain fs where fs: "sk_out s = map frame_text fs" "frames_first fs" "fs \<noteq> []"
    using sink_inv_running [OF assms(1)] assms(2) None by metis
  have "sk_cut s = []" using assms(1) None by (simp add: sink_inv_def)
  show ?thesis
  proof (cases rule: write_text_cases [of env done_frame "s\<lparr>sk_finished := True\<rparr>"])
    case 1
    show ?thesis
      unfolding s' 1 sink_inv_def prod.case using fs assms(2) None \<open>sk_cut s = []\<close>
      by (intro conjI exI [of _ fs] exI [of _ True]) simp_all
  next
    case (2 k e)
    show ?thesis
      unfolding s' 2 sink_inv_def prod.case using fs assms(2)
      by (intro conjI exI [of _ fs] exI [of _ False]) simp_all
  qed
qed

lemma sink_inv_finish:
  assumes "sink_inv (True, s)"
  shows "sink_inv (False, sink_finish s)"
proof -
  from sink_inv_running [OF assms] obtain fs where fs: "sk_out s = map frame_text fs" "frames_first fs"
    "sk_started s \<and> sk_err s = None \<longrightarrow> fs \<noteq> []" "\<not> sk_started s \<longrightarrow> fs = []" by blast
  have "sk_err s = None \<longrightarrow> sk_cut s = []" "\<not> sk_started s \<longrightarrow> sk_err s = None"
    using assms by (simp_all add: sink_inv_def)
  with fs show ?thesis
    unfolding sink_inv_def prod.case sink_finish_def
    by (intro conjI exI [of _ fs] exI [of _ False]) simp_all
qed

interpretation streams: inductive_invariant sink_start sink_step sink_inv
proof unfold_locales
  show "sink_inv st" if "sink_start st" for st
    using that by (auto simp: sink_start_def sink_inv_def new_sink_def frames_first_def
        intro: exI [of _ "[]"] exI [of _ False])
next
  fix st st' assume "sink_inv st" and st: "sink_step st st'"
  from st \<open>sink_inv st\<close> show "sink_inv st'"
  proof cases
    case (step_send env v s s' e)
    then show ?thesis using sink_inv_send [of s env v] \<open>sink_inv st\<close> by simp
  next
    case (step_beat env s s' e b)
    then show ?thesis using sink_inv_heartbeat [of b s env] \<open>sink_inv st\<close> by simp
  next
    case (step_done env s s' e)
    then show ?thesis using sink_inv_done [of s env] \<open>sink_inv st\<close> by simp
  next
    case (step_finish s)
    then show ?thesis using sink_inv_finish \<open>sink_inv st\<close> by simp
  qed
qed

text \<open>
  C11. Whatever the handler sends, whenever the heartbeat comes and whichever write fails, what
  a streamed response has is a sequence of whole frames, the first an event, with the end mark
  at most once and last, and a cut frame only after a failed write; and once a write has failed
  or the stream is finished, no step of either thread writes anything more.
\<close>

theorem stream_discipline:
  assumes "reaches sink_start sink_step (b, s)"
  shows "(\<exists>fs fin. sink_body s = concat (map frame_text fs) @ (if fin then done_frame else []) @ sk_cut s
      \<and> frames_first fs \<and> (fin \<longrightarrow> sk_finished s) \<and> (sk_cut s \<noteq> [] \<longrightarrow> sk_err s \<noteq> None))
    \<and> (\<forall>b' s'. sink_step (b, s) (b', s') \<and> (sk_err s \<noteq> None \<or> sk_finished s) \<longrightarrow> sink_body s' = sink_body s)"
proof
  note inv = streams.reachable_inv [OF assms]
  then obtain fs fin where fs: "sk_out s = map frame_text fs @ (if fin then [done_frame] else [])" "frames_first fs"
    "fin \<longrightarrow> sk_finished s" "sk_cut s \<noteq> [] \<longrightarrow> sk_err s \<noteq> None" by (auto simp: sink_inv_def)
  then show "\<exists>fs fin. sink_body s = concat (map frame_text fs) @ (if fin then done_frame else []) @ sk_cut s
      \<and> frames_first fs \<and> (fin \<longrightarrow> sk_finished s) \<and> (sk_cut s \<noteq> [] \<longrightarrow> sk_err s \<noteq> None)"
    by (intro exI [of _ fs] exI [of _ fin]) (simp add: sink_body_def)
  have "sk_finished s \<longrightarrow> \<not> b" using inv by (simp add: sink_inv_def)
  then show "\<forall>b' s'. sink_step (b, s) (b', s') \<and> (sk_err s \<noteq> None \<or> sk_finished s) \<longrightarrow> sink_body s' = sink_body s"
    by (auto elim!: sink_stepE simp: write_locked_def heartbeat_def sink_done_def sink_finish_def sink_body_def
        Let_def split: option.splits if_splits)
qed

definition quick_sink :: sink_env where
  "quick_sink = \<lparr>sv_flusher = True, sv_ctx = (\<lambda>_. None), sv_write = (\<lambda>_. None), sv_beats = (\<lambda>n. n mod 2)\<rparr>"

definition one_event :: sink where
  "one_event = fst (write_locked quick_sink [] (Inr ''x'') new_sink)"

theorem stream_discipline_witness:
  "\<exists>fs fin. sink_body (fst (sink_done quick_sink one_event)) = concat (map frame_text fs) @ (if fin then done_frame else [])
      @ sk_cut (fst (sink_done quick_sink one_event)) \<and> frames_first fs"
proof -
  let ?s = "fst (sink_done quick_sink one_event)"
  have "reaches sink_start sink_step (True, new_sink)" by (rule reaches_init) (simp add: sink_start_def)
  moreover have "sink_step (True, new_sink) (True, one_event)"
    by (rule step_send) (simp add: one_event_def prod_eq_iff)
  moreover have "sk_started one_event" by code_simp
  then have "sink_step (True, one_event) (False, ?s)"
    by (intro step_done [of quick_sink one_event _ "snd (sink_done quick_sink one_event)"]) simp_all
  ultimately have "reaches sink_start sink_step (False, ?s)" by (meson reaches_step)
  from stream_discipline [OF this, THEN conjunct1] show ?thesis by blast
qed

end
