(* ===== verification/UpstreamCorrect.thy ===== *)
theory UpstreamCorrect
  imports Upstream IdeStreamCorrect
begin

text \<open>
  What a chat turn promises: the limits of the body it sends, the tool protocol in its
  messages, a route that belongs to the model asked for, and errors a caller can act on.
\<close>

section \<open>Limits\<close>

lemma map_of_put_if [simp]:
  "map_of (put_if b k v body) = (if b then (map_of body)(k \<mapsto> v) else map_of body)"
  by (simp add: put_if_def)

lemma mwf_put_if [simp]: "mwf body \<Longrightarrow> mwf (put_if b k v body)"
  by (simp add: put_if_def)

lemma put_some_other: "k' \<noteq> k \<Longrightarrow> map_of (put_some x f k body) k' = map_of body k'"
  by (simp add: put_some_def split: option.split)

lemma mwf_put_some [simp]: "mwf body \<Longrightarrow> mwf (put_some x f k body)"
  by (simp add: put_some_def split: option.split)

lemma mwf_put_tools [simp]: "mwf body \<Longrightarrow> mwf (put_tools r body)"
  by (simp add: put_tools_def)

lemma jget_mwf: "mwf m \<Longrightarrow> jget m = map_of m"
  unfolding jget_def fun_eq_iff mwf_def
  using map_of_inject_set [of "rev m" m] by (simp add: rev_map [symmetric])

lemma put_tools_other:
  "k \<notin> {''parallel_tool_calls'', ''tool_choice'', ''tools''} \<Longrightarrow> map_of (put_tools r body) k = map_of body k"
  by (auto simp: put_tools_def put_some_other)

lemma body_wf: "mwf (build_routed_body r ident route)"
proof -
  have "mwf [(''messages'', JArr (routed_messages r)), (''config_name'', JStr (r_model r)),
       (''model'', JStr (r_model r)), (''function'', JStr ''solo_work_lite''), (''stream'', JBool True),
       (''request_id'', JStr ident), (''session_id'', JStr ident)]" by (simp add: mwf_def)
  then show ?thesis unfolding build_routed_body_def Let_def by simp
qed

lemma body_fields:
  "jget (build_routed_body r ident route) ''max_tokens'' =
     (if 0 < routed_limit r route then Some (jint (routed_limit r route)) else None)"
  "jget (build_routed_body r ident route) ''user_message_context'' =
     (if 0 < mr_window route then Some (JObj [(''model_info'',
         JObj [(''prompt_max_tokens'', jint (mr_window route - routed_limit r route))])]) else None)"
  "jget (build_routed_body r ident route) ''config_name'' =
     Some (JStr (if mr_base route \<noteq> [] then mr_base route else r_model r))"
  "jget (build_routed_body r ident route) ''model'' =
     Some (JStr (if mr_base route \<noteq> [] then mr_base route else r_model r))"
  "jget (build_routed_body r ident route) ''function'' =
     Some (JStr (if mr_function route \<noteq> [] then mr_function route else ''solo_work_lite''))"
  "jget (build_routed_body r ident route) ''messages'' = Some (JArr (routed_messages r))"
  "jget (build_routed_body r ident route) ''stream'' = Some (JBool True)"
  unfolding jget_mwf [OF body_wf] unfolding build_routed_body_def Let_def
  by (simp_all add: put_tools_other put_some_other)

text \<open>
  C14. The token limits of the upstream body: a limit is never above what the caller asked
  for, the model's maximum or its window; a positive request stays positive; and with a
  context window the prompt gets exactly the part of it the answer does not need.
\<close>

theorem routed_limits:
  assumes "0 \<le> r_max_tokens r" "0 \<le> r_max_completion r" "0 \<le> mr_most route" "0 \<le> mr_window route"
  shows "\<exists>l. 0 \<le> l \<and> (0 < wanted_limit r \<longrightarrow> 0 < l \<and> l \<le> wanted_limit r)
    \<and> (0 < l \<longrightarrow> (0 < mr_most route \<longrightarrow> l \<le> mr_most route) \<and> (0 < mr_window route \<longrightarrow> l \<le> mr_window route))
    \<and> jget (build_routed_body r ident route) ''max_tokens'' = (if 0 < l then Some (jint l) else None)
    \<and> jget (build_routed_body r ident route) ''user_message_context'' =
        (if 0 < mr_window route
         then Some (JObj [(''model_info'', JObj [(''prompt_max_tokens'', jint (mr_window route - l))])])
         else None)
    \<and> (0 < mr_window route \<longrightarrow> 0 \<le> mr_window route - l)"
  using assms
  by (intro exI [of _ "routed_limit r route"])
    (auto simp: body_fields routed_limit_def wanted_limit_def Let_def)

definition sample_route :: model_route where
  "sample_route = \<lparr>mr_function = ''chat_v3'', mr_name = ''alpha__max'', mr_base = ''alpha'',
     mr_most = 80, mr_window = 900\<rparr>"

theorem routed_limits_witness:
  "\<exists>l. jget (build_routed_body (sample_validated\<lparr>r_max_tokens := 1000\<rparr>) ''s'' sample_route) ''max_tokens''
     = Some (jint l) \<and> 0 < l \<and> l \<le> 80"
proof -
  have "0 < wanted_limit (sample_validated\<lparr>r_max_tokens := 1000\<rparr>)"
    by (simp add: wanted_limit_def sample_validated_def sample_request_def)
  with routed_limits [of "sample_validated\<lparr>r_max_tokens := 1000\<rparr>" sample_route "''s''"] show ?thesis
    by (auto simp: sample_validated_def sample_request_def sample_route_def)
qed

section \<open>Messages\<close>

lemma fold_call_names:
  assumes "distinct (map tc_id cs)" "c \<in> set cs"
  shows "map_of (foldl (\<lambda>names c. mput (tc_id c) (fn_name (tc_fn c)) names) names cs) (tc_id c)
    = Some (fn_name (tc_fn c))"
  using assms
proof (induction cs rule: rev_induct)
  case (snoc d cs)
  then show ?case by (cases "c = d") (auto simp: image_iff)
qed simp

text \<open>The call identifiers of an accepted history are distinct.\<close>

lemma answered_ids:
  assumes "answered used ms" "\<forall>m \<in> set ms. m_role m = ''tool'' \<longrightarrow> m_calls m = []"
  shows "distinct (map tc_id (concat (map m_calls ms)))
    \<and> set (map tc_id (concat (map m_calls ms))) \<inter> used = {}"
  using assms
proof (induction rule: answered.induct)
  case (answered_turn m ids used results rest)
  let ?later = "map tc_id (concat (map m_calls rest))"
  have "concat (map m_calls results) = []" using answered_turn(5) answered_turn.prems by auto
  then have eq: "map tc_id (concat (map m_calls (m # results @ rest))) = ids @ ?later"
    using answered_turn(2) by (simp only: list.map map_append concat.simps concat_append append_Nil)
  have "distinct ?later \<and> set ?later \<inter> (used \<union> set ids) = {}"
    using answered_turn by simp
  with answered_turn(3,4) show ?case unfolding eq distinct_append set_append by blast
qed simp

text \<open>Only an assistant message makes calls.\<close>

lemma caller_role: "message_ok m \<Longrightarrow> c \<in> set (m_calls m) \<Longrightarrow> m_role m = ''assistant''"
  by (simp add: message_ok_def call_ok_def)

lemma tool_message_calls: "message_ok m \<Longrightarrow> m_role m = ''tool'' \<Longrightarrow> m_calls m = []"
  using caller_role [of m "hd (m_calls m)"] by (cases "m_calls m") auto

lemma history_ids:
  assumes "validate_tool_history ms = None" "\<forall>m \<in> set ms. message_ok m"
  shows "distinct (map tc_id (concat (map m_calls ms)))"
proof -
  have "\<forall>m \<in> set ms. m_role m = ''tool'' \<longrightarrow> m_calls m = []"
    using assms(2) tool_message_calls by blast
  with answered_ids tool_history_complete assms(1) show ?thesis
    unfolding validate_tool_history_def by blast
qed

lemma mwf_routed_message: "mwf (routed_message names m)"
  unfolding routed_message_def Let_def by (simp add: mwf_def [of "[_, _]"])

lemma routed_message_fields:
  "jget (routed_message names m) ''role'' = Some (JStr (routed_role (m_role m)))"
  "jget (routed_message names m) ''content'' =
     Some (if m_calls m \<noteq> [] \<and> m_content m = [] then JNull else text_blocks (m_content m))"
  "jget (routed_message names m) ''tool_calls'' =
     (if m_calls m \<noteq> [] then Some (JArr (map routed_call (m_calls m))) else None)"
  "jget (routed_message names m) ''tool_call_id'' =
     (if m_call_id m \<noteq> [] then Some (JStr (m_call_id m)) else None)"
  "jget (routed_message names m) ''name'' =
     (if m_call_id m \<noteq> [] \<and> result_name names m \<noteq> [] then Some (JStr (result_name names m)) else None)"
  unfolding jget_mwf [OF mwf_routed_message] unfolding routed_message_def Let_def by auto

text \<open>
  C15. The tool protocol survives the translation: for an accepted request and history the
  upstream gets the caller's messages in order, after the notice when tools are offered, each
  with its text and its calls; and a tool result without a name of its own carries the
  identifier and the function name of the call it answers.
\<close>

theorem routed_tool_results:
  assumes "request_ok r" "validate_tool_history (r_messages r) = None"
    and "m \<in> set (r_messages r)" "c \<in> set (m_calls m)"
    and "t \<in> set (r_messages r)" "m_role t = ''tool''" "m_call_id t = tc_id c" "m_name t = []"
  shows "\<exists>notice items. jget (build_routed_body r ident route) ''messages'' = Some (JArr (notice @ map JObj items))
    \<and> length items = length (r_messages r) \<and> (notice = [] \<longleftrightarrow> r_tools r = [])
    \<and> (\<forall>i < length items. r_messages r ! i = t \<longrightarrow>
          jget (items ! i) ''role'' = Some (JStr ''tool'')
          \<and> jget (items ! i) ''content'' = Some (text_blocks (m_content t))
          \<and> jget (items ! i) ''tool_call_id'' = Some (JStr (tc_id c))
          \<and> jget (items ! i) ''name'' = Some (JStr (fn_name (tc_fn c))))
    \<and> (\<forall>i < length items. r_messages r ! i = m \<longrightarrow>
          jget (items ! i) ''tool_calls'' = Some (JArr (map routed_call (m_calls m))))"
proof -
  let ?names = "call_names (r_messages r)"
  have ok: "\<forall>m \<in> set (r_messages r). message_ok m" using assms(1) by (simp add: request_ok_def)
  have c: "call_ok (m_role m) c" using ok assms(3,4) by (auto simp: message_ok_def)
  have tc: "m_calls t = []"
    using ok assms(5,6) tool_message_calls by blast
  have "map_of ?names (tc_id c) = Some (fn_name (tc_fn c))"
    unfolding call_names_def
    by (rule fold_call_names [OF history_ids [OF assms(2) ok]]) (use assms(3,4) in auto)
  with c assms(7,8) have name: "result_name ?names t = fn_name (tc_fn c)" "fn_name (tc_fn c) \<noteq> []"
    "m_call_id t \<noteq> []" by (auto simp: result_name_def call_ok_def)
  let ?notice = "if r_tools r \<noteq> [] then [JObj [(''role'', JStr ''system''), (''content'', text_blocks tools_notice)]] else []"
  let ?items = "map (routed_message ?names) (r_messages r)"
  show ?thesis
  proof (intro exI [of _ ?notice] exI [of _ ?items] conjI)
    show "jget (build_routed_body r ident route) ''messages'' = Some (JArr (?notice @ map JObj ?items))"
      by (simp add: body_fields routed_messages_def comp_def)
  qed (use name tc assms(4,6,7) in \<open>auto simp: routed_message_fields routed_role_def\<close>)
qed

definition sample_dialogue :: chat_request where
  "sample_dialogue = sample_validated\<lparr>r_messages := [
     empty_message\<lparr>m_role := ''user'', m_content := ''hi''\<rparr>,
     empty_message\<lparr>m_role := ''assistant'', m_calls := [\<lparr>tc_id = ''c1'', tc_type = ''function'',
        tc_fn = \<lparr>fn_name = ''f'', fn_args = ''{}''\<rparr>\<rparr>]\<rparr>,
     empty_message\<lparr>m_role := ''tool'', m_content := ''42'', m_call_id := ''c1''\<rparr>]\<rparr>"

lemma sample_dialogue_ok:
  "validate_request sample_dialogue = (sample_dialogue, None)"
  "validate_tool_history (r_messages sample_dialogue) = None"
  by (code_simp, code_simp)

theorem routed_tool_results_witness:
  "\<exists>notice items. jget (build_routed_body sample_dialogue ''s'' sample_route) ''messages''
      = Some (JArr (notice @ map JObj items))
    \<and> length items = 3 \<and> jget (items ! 2) ''name'' = Some (JStr ''f'')"
proof -
  have "request_ok sample_dialogue"
    using validate_request_guards [OF sample_dialogue_ok(1)] sample_dialogue_ok(1)
    by (metis validate_request_accepts)
  moreover have "hd (m_calls (r_messages sample_dialogue ! 1)) \<in> set (m_calls (r_messages sample_dialogue ! 1))"
    "r_messages sample_dialogue ! 1 \<in> set (r_messages sample_dialogue)"
    "r_messages sample_dialogue ! 2 \<in> set (r_messages sample_dialogue)"
    by (simp_all add: sample_dialogue_def empty_message_def)
  moreover have "m_role (r_messages sample_dialogue ! 2) = ''tool''" "m_name (r_messages sample_dialogue ! 2) = []"
    "m_call_id (r_messages sample_dialogue ! 2) = tc_id (hd (m_calls (r_messages sample_dialogue ! 1)))"
    by (simp_all add: sample_dialogue_def empty_message_def)
  ultimately obtain notice items where *: "length items = length (r_messages sample_dialogue)"
    "jget (build_routed_body sample_dialogue ''s'' sample_route) ''messages'' = Some (JArr (notice @ map JObj items))"
    "\<forall>i < length items. r_messages sample_dialogue ! i = r_messages sample_dialogue ! 2 \<longrightarrow>
       jget (items ! i) ''name'' = Some (JStr (fn_name (tc_fn (hd (m_calls (r_messages sample_dialogue ! 1))))))"
    using routed_tool_results [of sample_dialogue "r_messages sample_dialogue ! 1"
        "hd (m_calls (r_messages sample_dialogue ! 1))" "r_messages sample_dialogue ! 2" "''s''" sample_route]
      sample_dialogue_ok(2) by blast
  have "length (r_messages sample_dialogue) = 3"
    "fn_name (tc_fn (hd (m_calls (r_messages sample_dialogue ! 1)))) = ''f''"
    by (simp_all add: sample_dialogue_def empty_message_def)
  with * show ?thesis by (intro exI [of _ notice] exI [of _ items]) simp
qed

section \<open>Routing\<close>

lemma cached_route_ok:
  assumes "client_ok env t" "cached_route (cl_cache t) g model = Some route"
  shows "route_ok model route"
proof -
  from assms(1) obtain now where inv: "cache_inv (now, cl_cache t)" by (auto simp: client_ok_def)
  from assms(2) obtain e where e: "map_of (cl_cache t) g = Some e" "map_of (ca_routes e) model = Some route"
    by (auto simp: cached_route_def split: option.splits)
  have "entry_ok now e" using map_of_SomeD [OF e(1)] inv by (auto simp: cache_inv_def)
  with e(2) show ?thesis by (simp add: entry_ok_def)
qed

lemma client_ok_tick: "client_ok env t \<Longrightarrow> clock_ok env \<Longrightarrow> client_ok env (t\<lparr>cl_ticks := Suc (cl_ticks t)\<rparr>)"
  by (auto simp: client_ok_def clock_ok_def intro: order_trans)

lemma resolve_route_facts:
  assumes "client_ok env t" "clock_ok env" "order_ok ro" "resolve_route ro env c g model t = (t', res)"
  shows "client_ok env t' \<and> logged c 5 t t'
    \<and> (case res of Inr route \<Rightarrow> route_ok model route | Inl e \<Rightarrow> \<not> errors_is e CredentialRejected)"
proof -
  let ?t1 = "t\<lparr>cl_ticks := Suc (cl_ticks t)\<rparr>"
  let ?cached = "if ae_now env (cl_ticks t) - cached_at (cl_cache t) g < 5 * minute
    then cached_route (cl_cache t) g model else None"
  have t1: "client_ok env ?t1" using client_ok_tick assms(1,2) .
  show ?thesis
  proof (cases ?cached)
    case (Some route)
    then have "cached_route (cl_cache t) g model = Some route" by (simp split: if_splits)
    moreover have "t' = ?t1" "res = Inr route"
      using assms(4) Some by (auto simp: resolve_route_def read_clock_def split: if_splits)
    ultimately show ?thesis using t1 cached_route_ok [OF assms(1)] by simp
  next
    case None
    obtain t2 r where mn: "model_names ro env c g ?t1 = (t2, r)" by fastforce
    have ok: "client_ok env t2" "logged c 5 t t2"
      "\<And>e. r = Inl e \<Longrightarrow> \<not> errors_is e CredentialRejected"
      using model_names_ok [OF t1 assms(2,3) mn] by (auto simp: logged_def upstream_base_def)
    have "t' = t2" and "res = (case r of Inl e \<Rightarrow> Inl e
        | Inr names \<Rightarrow> (case cached_route (cl_cache t2) g model of Some route \<Rightarrow> Inr route
            | None \<Rightarrow> Inl (bad_request ''model is not available for this account'')))"
      using assms(4) None mn by (auto simp: resolve_route_def read_clock_def split: sum.splits if_splits)
    with ok show ?thesis
      using cached_route_ok [OF ok(1)] by (auto simp: bad_request_def split: sum.splits option.splits)
  qed
qed

text \<open>
  A route that is resolved is a route of the model asked for: it is for the base model
  of that name, or for the long-context variant of the base the \<open>-max\<close> name is made of,
  it names a chat function of the client and its limits are small natural numbers. Resolving
  sends at most five requests, keeps the cache's invariant, and a rejected credential shows
  as the error that asks for a login.
\<close>

theorem resolve_route_ok:
  assumes "client_ok env t" "clock_ok env" "order_ok ro" "resolve_route ro env c g model t = (t', res)"
  shows "client_ok env t' \<and> length (cl_log t') \<le> length (cl_log t) + 5
    \<and> (case res of Inr route \<Rightarrow> route_ok model route | Inl e \<Rightarrow> \<not> errors_is e CredentialRejected)"
  using resolve_route_facts [OF assms] logged_length by blast

theorem resolve_route_ok_witness:
  "\<exists>t' res. resolve_route sample_order sample_env sample_credential 7 ''a'' sample_client = (t', res)
     \<and> length (cl_log t') \<le> 5"
proof -
  obtain t' res where run:
    "resolve_route sample_order sample_env sample_credential 7 ''a'' sample_client = (t', res)"
    by fastforce
  have "client_ok sample_env sample_client"
    by (auto simp: client_ok_def sample_env_def sample_client_def cache_inv_def intro: exI [of _ 1])
  moreover have "clock_ok sample_env" by (simp add: clock_ok_def sample_env_def)
  moreover have "order_ok sample_order"
    by (simp add: order_ok_def sample_order_def permutes_entries_def permutes_cache_def)
  ultimately show ?thesis
    using resolve_route_ok [OF _ _ _ run] run by (auto simp: sample_client_def)
qed

section \<open>The turn\<close>

lemma post_result:
  assumes "post env c url extra body t = (t', Inr out)"
  shows "\<exists>req. cl_log t' = cl_log t @ [req] \<and> hq_method req = ''POST'' \<and> hq_url req = url
    \<and> hq_header req = set_header (fst extra) (snd extra) (headers c (ae_rand env (length (cl_log t))))
    \<and> hq_body req = body \<and> out = ae_do env (cl_log t) req"
  using assms by (auto simp: post_def Let_def split: option.splits)

lemma canonical_referer: "canonical_key ''Referer'' = ''Referer''"
  by code_simp

lemma sends_client_ok: "sends c n t t' \<Longrightarrow> client_ok env t \<Longrightarrow> client_ok env t'"
  unfolding client_ok_def using sends_fields [of c n t t'] by simp

lemma prompt_reply_plain:
  assumes "prompt_reply senv rerr early r out = ((result, deltas), e)"
  shows "plain_deltas senv deltas"
proof (cases out)
  case (NoReply x)
  then show ?thesis using assms by (auto simp: prompt_reply_def no_answer_def split: option.splits)
next
  case (Reply st body)
  obtain a e' where rd: "read_ide_stream senv \<lparr>si_bytes = body, si_err = rerr, si_early = early\<rparr> r = (a, e')"
    by fastforce
  then have "plain_deltas senv (a_sent a)" by (rule read_stream_deltas)
  then show ?thesis
    using assms rd Reply by (auto simp: prompt_reply_def no_answer_def split: if_splits)
qed

text \<open>What a turn does: its requests, its deltas, and the answer when it has one.\<close>

lemma prompt_facts:
  assumes "client_ok (te_api env) t" "clock_ok (te_api env)" "order_ok (te_order env)"
    and "prompt env c g r ident t = (t', ((result, deltas), e))"
  shows "plain_deltas (te_stream env) deltas \<and> client_ok (te_api env) t' \<and> logged c 6 t t'
    \<and> (case e of
         Some x \<Rightarrow> \<not> errors_is x CredentialRejected
       | None \<Rightarrow> (\<exists>before req route body a.
            cl_log t' = before @ [req] \<and> hq_method req = ''POST''
            \<and> hq_url req = trim_slash (cf_base_url (cl_cfg t')) @ chat_path
            \<and> map_of (hq_header req) ''Authorization'' = Some (''Cloud-IDE-JWT '' @ ak_token c)
            \<and> route_ok (r_model r) route \<and> hq_body req = JObj (build_routed_body r ident route)
            \<and> ae_do (te_api env) before req = Reply 200 body
            \<and> read_ide_stream (te_stream env)
                 \<lparr>si_bytes = body, si_err = te_read_err env, si_early = te_early env\<rparr> r = (a, None)
            \<and> result = a_result a \<and> deltas = a_sent a))"
proof -
  obtain e0 where pa: "prompt_attempt env c g r ident t = (t', ((result, deltas), e0))"
    and e: "e = map_option (\<lambda>x. if errors_is x CredentialRejected then LoginRequired else x) e0"
    using assms(4) by (auto simp: prompt_def split: prod.splits option.splits)
  obtain t1 res where rr: "resolve_route (te_order env) (te_api env) c g (r_model r) t = (t1, res)"
    by fastforce
  note t1 = resolve_route_facts [OF assms(1-3) rr]
  have err: "case e of Some x \<Rightarrow> \<not> errors_is x CredentialRejected | None \<Rightarrow> True"
    by (simp add: e split: option.split)
  show ?thesis
  proof (cases res)
    case (Inl x)
    then have "t' = t1" "e0 = Some x" using pa rr by (auto simp: prompt_attempt_def no_answer_def)
    moreover have "deltas = []" using pa rr Inl by (simp add: prompt_attempt_def no_answer_def)
    moreover have "logged c 6 t t1" using t1 logged_mono [of c 5 t t1 6] by simp
    ultimately show ?thesis using t1 err e by simp
  next
    case (Inr route)
    let ?url = "trim_slash (cf_base_url (cl_cfg t1)) @ chat_path"
    obtain t2 out where ps: "post (te_api env) c ?url (''Referer'', ?url)
        (JObj (build_routed_body r ident route)) t1 = (t2, out)" by fastforce
    have sent: "sends c 1 t1 t2"
      using post_sends [of "(''Referer'', ?url)" ?url t1 c] ps
      by (simp add: canonical_referer upstream_base_def) (metis fst_conv)
    have t': "t' = t2" using pa rr Inr ps by (auto simp: prompt_attempt_def Let_def split: sum.splits)
    have "client_ok (te_api env) t'" "logged c 6 t t'"
      using t1 sends_client_ok [OF sent] logged_trans [OF _ sends_logged [OF sent], of 5 t] unfolding t' by auto
    moreover have "plain_deltas (te_stream env) deltas"
    proof (cases out)
      case (Inl x)
      then show ?thesis using pa rr Inr ps by (auto simp: prompt_attempt_def Let_def no_answer_def)
    next
      case (Inr o')
      then have "prompt_reply (te_stream env) (te_read_err env) (te_early env) r o' = ((result, deltas), e0)"
        using pa rr \<open>res = Inr route\<close> ps by (auto simp: prompt_attempt_def Let_def)
      then show ?thesis by (rule prompt_reply_plain)
    qed
    moreover have "\<exists>before req route body a.
            cl_log t' = before @ [req] \<and> hq_method req = ''POST''
            \<and> hq_url req = trim_slash (cf_base_url (cl_cfg t')) @ chat_path
            \<and> map_of (hq_header req) ''Authorization'' = Some (''Cloud-IDE-JWT '' @ ak_token c)
            \<and> route_ok (r_model r) route \<and> hq_body req = JObj (build_routed_body r ident route)
            \<and> ae_do (te_api env) before req = Reply 200 body
            \<and> read_ide_stream (te_stream env)
                 \<lparr>si_bytes = body, si_err = te_read_err env, si_early = te_early env\<rparr> r = (a, None)
            \<and> result = a_result a \<and> deltas = a_sent a" if none: "e = None"
    proof -
      have e0: "e0 = None" using none e by simp
      obtain o' where out: "out = Inr o'"
        using pa rr Inr ps e0 by (cases out) (auto simp: prompt_attempt_def Let_def no_answer_def)
      have pr: "prompt_reply (te_stream env) (te_read_err env) (te_early env) r o' = ((result, deltas), None)"
        using pa rr Inr ps out e0 by (auto simp: prompt_attempt_def Let_def)
      then obtain body where body: "o' = Reply 200 body"
        by (auto simp: prompt_reply_def no_answer_def split: http_outcome.splits option.splits if_splits)
      obtain a where a: "read_ide_stream (te_stream env)
          \<lparr>si_bytes = body, si_err = te_read_err env, si_early = te_early env\<rparr> r = (a, None)"
        "result = a_result a" "deltas = a_sent a"
        using pr unfolding body prompt_reply_def by (auto split: prod.splits)
      from post_result [OF ps [unfolded out]] obtain req where
        req: "cl_log t2 = cl_log t1 @ [req]" "hq_method req = ''POST''" "hq_url req = ?url"
          "hq_header req = set_header ''Referer'' ?url (headers c (ae_rand (te_api env) (length (cl_log t1))))"
          "hq_body req = JObj (build_routed_body r ident route)" "o' = ae_do (te_api env) (cl_log t1) req"
        by auto
      have "map_of (hq_header req) ''Authorization'' = Some (''Cloud-IDE-JWT '' @ ak_token c)"
        unfolding req(4) by (simp add: canonical_referer headers_eq)
      moreover have cfg: "cl_cfg t' = cl_cfg t1" using sends_fields [OF sent] t' by simp
      moreover have "route_ok (r_model r) route" using t1 Inr by simp
      ultimately show ?thesis
        using req(1-3,5,6) a body unfolding cfg unfolding t' by metis
    qed
    ultimately show ?thesis using err by (cases e) auto
  qed
qed

text \<open>
  A chat turn: it sends at most six requests; a turn that ends without an error sent as
  its last request a POST of the translated request, over a route of the requested model, and
  its answer is what the stream reader made of the body of a response with status 200; an
  error never is the internal rejection of the credential.
\<close>

theorem prompt_turn:
  assumes "client_ok (te_api env) t" "clock_ok (te_api env)" "order_ok (te_order env)"
    and "prompt env c g r ident t = (t', ((result, deltas), e))"
  shows "client_ok (te_api env) t' \<and> length (cl_log t') \<le> length (cl_log t) + 6
    \<and> (case e of
         Some x \<Rightarrow> \<not> errors_is x CredentialRejected
       | None \<Rightarrow> (\<exists>before req route body a.
            cl_log t' = before @ [req] \<and> hq_method req = ''POST''
            \<and> hq_url req = trim_slash (cf_base_url (cl_cfg t')) @ chat_path
            \<and> map_of (hq_header req) ''Authorization'' = Some (''Cloud-IDE-JWT '' @ ak_token c)
            \<and> route_ok (r_model r) route \<and> hq_body req = JObj (build_routed_body r ident route)
            \<and> ae_do (te_api env) before req = Reply 200 body
            \<and> read_ide_stream (te_stream env)
                 \<lparr>si_bytes = body, si_err = te_read_err env, si_early = te_early env\<rparr> r = (a, None)
            \<and> result = a_result a \<and> deltas = a_sent a))"
  using prompt_facts [OF assms] logged_length by blast

text \<open>A client that has just listed the models of the sample credential.\<close>

definition warm_client :: client where
  "warm_client = sample_client\<lparr>cl_cache := [(7, \<lparr>ca_models = [''a''], ca_at = 1, ca_routes = [(''a'',
     \<lparr>mr_function = ''chat_v3'', mr_name = [], mr_base = ''a'', mr_most = 0, mr_window = 0\<rparr>)]\<rparr>)]\<rparr>"

definition sample_turn_env :: turn_env where
  "sample_turn_env = \<lparr>te_order = sample_order,
     te_api = sample_env\<lparr>ae_do := (\<lambda>log req. Reply 200 (dq ''data: {`text`:`hi`}'' @ [CHR 0x0A, CHR 0x0A]
        @ ''data: [DONE]'' @ [CHR 0x0A, CHR 0x0A]))\<rparr>,
     te_stream = \<lparr>se_emit = None, se_rand = (\<lambda>_. ''r'')\<rparr>, te_read_err = None, te_early = False\<rparr>"

lemma warm_client_ok: "client_ok (te_api sample_turn_env) warm_client"
proof -
  have "entry_ok 1 \<lparr>ca_models = [''a''], ca_at = 1, ca_routes = [(''a'',
     \<lparr>mr_function = ''chat_v3'', mr_name = [], mr_base = ''a'', mr_most = 0, mr_window = 0\<rparr>)]\<rparr>"
    by (auto simp: entry_ok_def route_ok_def chat_functions_def split: if_splits)
  then show ?thesis
    by (auto simp: client_ok_def sample_turn_env_def sample_env_def warm_client_def sample_client_def cache_inv_def
        mwf_def cache_capacity_def intro: exI [of _ 1])
qed

lemma sample_turn_env_ok: "clock_ok (te_api sample_turn_env)" "order_ok (te_order sample_turn_env)"
  by (simp_all add: clock_ok_def sample_turn_env_def sample_env_def order_ok_def sample_order_def
      permutes_entries_def permutes_cache_def)

definition sample_turn :: "client \<times> turn" where
  "sample_turn = prompt sample_turn_env sample_credential 7 (sample_dialogue\<lparr>r_model := ''a''\<rparr>)
     ''s'' warm_client"

lemma sample_turn_ok: "snd (snd sample_turn) = None"
  by code_simp

theorem prompt_turn_witness:
  "\<exists>before req. cl_log (fst sample_turn) = before @ [req] \<and> hq_method req = ''POST'' \<and> length before \<le> 5"
proof -
  obtain t' result deltas e where run: "prompt sample_turn_env sample_credential 7
      (sample_dialogue\<lparr>r_model := ''a''\<rparr>) ''s'' warm_client = (t', ((result, deltas), e))"
    by (metis surj_pair)
  have e: "e = None" using sample_turn_ok run by (simp add: sample_turn_def)
  obtain before req where *: "cl_log t' = before @ [req]" "hq_method req = ''POST''"
      "length (cl_log t') \<le> length (cl_log warm_client) + 6"
    using prompt_turn [OF warm_client_ok sample_turn_env_ok run] by (auto simp: e)
  have "cl_log warm_client = []" "fst sample_turn = t'"
    using run by (simp_all add: warm_client_def sample_client_def sample_turn_def)
  with * show ?thesis by auto
qed

end
