(* ===== verification/GatewayCorrect.thy ===== *)
theory GatewayCorrect
  imports Gateway UpstreamCorrect CredQuarantine
begin

text \<open>
  What one request through the gateway promises: nothing is sent upstream and nothing is
  streamed before every check has passed, what is sent carries the stored credential, and an
  answer is the reading of the upstream's reply to the validated request.
\<close>

section \<open>The turn\<close>

lemma choose_model_facts:
  assumes "client_ok (te_api te) t" "clock_ok (te_api te)" "order_ok (te_order te)"
    and "choose_model te c g m t = (t', res)"
  shows "client_ok (te_api te) t' \<and> logged c 5 t t'
    \<and> (\<forall>model. res = Inr model \<longrightarrow>
         (if m = [] \<or> m = ''auto'' then \<exists>names. listed g names t' \<and> model = hd names else model = m))"
proof (cases "m = [] \<or> m = ''auto''")
  case True
  obtain r where mn: "model_names (te_order te) (te_api te) c g t = (t', r)"
    and res: "res = (case r of Inl e \<Rightarrow> Inl e | Inr names \<Rightarrow> Inr (hd names))"
    using assms(4) True by (auto simp: choose_model_def split: prod.splits sum.splits)
  from model_names_ok [OF assms(1-3) mn] res True show ?thesis by (auto split: sum.splits)
next
  case False
  with assms show ?thesis by (auto simp: choose_model_def)
qed

text \<open>
  The last request of the log is the translated chat request, and the answer and the deltas
  after the start are what the stream reader made of its reply.
\<close>

definition upstream_answer ::
  "exec_env \<Rightarrow> emitter \<Rightarrow> chat_request \<Rightarrow> client \<Rightarrow> completion \<Rightarrow> delta list \<Rightarrow> bool" where
  "upstream_answer ee emit r t result deltas \<longleftrightarrow>
     (let sent = fst (emit_start emit (r_model r)); te = with_emit (after_start sent emit) (ee_turn ee) in
      \<exists>before req route body a. cl_log t = before @ [req]
        \<and> hq_url req = upstream_base t @ chat_path
        \<and> route_ok (r_model r) route \<and> hq_body req = JObj (build_routed_body r (ee_request ee) route)
        \<and> ae_do (te_api te) before req = Reply 200 body
        \<and> read_ide_stream (te_stream te)
             \<lparr>si_bytes = body, si_err = te_read_err te, si_early = te_early te\<rparr> r = (a, None)
        \<and> result = a_result a \<and> deltas = sent @ a_sent a)"

definition started_stream :: "emitter \<Rightarrow> string \<Rightarrow> delta list \<Rightarrow> bool" where
  "started_stream emit model deltas \<longleftrightarrow> deltas = []
     \<or> emit \<noteq> None \<and> (\<exists>rest. deltas = start_delta model # rest \<and> list_all (\<lambda>d. \<not> d_start d) rest)"

lemma with_emit_simps [simp]:
  "te_api (with_emit f te) = te_api te" "te_order (with_emit f te) = te_order te"
  "te_read_err (with_emit f te) = te_read_err te" "te_early (with_emit f te) = te_early te"
  by (simp_all add: with_emit_def)

lemma run_turn_facts:
  assumes ok: "client_ok (te_api (ee_turn ee)) t" "clock_ok (te_api (ee_turn ee))" "order_ok (te_order (ee_turn ee))"
    and run: "run_turn ee emit c r t = (t', r', ((result, deltas), e))"
  shows "client_ok (te_api (ee_turn ee)) t' \<and> logged c 16 t t'
    \<and> r' = r\<lparr>r_model := r_model r'\<rparr> \<and> started_stream emit (r_model r') deltas
    \<and> (r_model r \<notin> {[], ''auto''} \<longrightarrow> r_model r' = r_model r)
    \<and> (e = None \<longrightarrow> upstream_answer ee emit r' t' result deltas)"
proof -
  let ?te = "ee_turn ee" and ?g = "ee_identity ee c"
  obtain t1 m where cm: "choose_model ?te c ?g (r_model r) t = (t1, m)" by fastforce
  from choose_model_facts [OF ok cm] have c1: "client_ok (te_api ?te) t1" "logged c 5 t t1"
    "\<And>model. m = Inr model \<Longrightarrow> r_model r \<notin> {[], ''auto''} \<Longrightarrow> model = r_model r"
    by auto
  show ?thesis
  proof (cases m)
    case (Inl x)
    with run cm have "t' = t1" "r' = r" "deltas = []" "e = Some x"
      by (auto simp: run_turn_def no_answer_def)
    with c1 show ?thesis using logged_mono [of c 5 t t1 16] by (simp add: started_stream_def)
  next
    case (Inr model)
    let ?r = "r\<lparr>r_model := model\<rparr>"
    obtain t2 rt where rr: "resolve_route (te_order ?te) (te_api ?te) c ?g model t1 = (t2, rt)" by fastforce
    from resolve_route_facts [OF c1(1) ok(2,3) rr] have c2: "client_ok (te_api ?te) t2" "logged c 10 t t2"
      using logged_trans [OF c1(2), of 5 t2] by auto
    have m: "r_model r \<notin> {[], ''auto''} \<longrightarrow> model = r_model r" using c1(3) Inr by blast
    show ?thesis
    proof (cases rt)
      case (Inl x)
      with run cm Inr rr have "t' = t2" "r' = ?r" "deltas = []" "e = Some x"
        by (auto simp: run_turn_def no_answer_def)
      with c2 m show ?thesis using logged_mono [of c 10 t t2 16] by (simp add: started_stream_def)
    next
      case (Inr route)
      obtain sent se where es: "emit_start emit model = (sent, se)" by fastforce
      have start: "started_stream emit model sent" "sent \<noteq> [] \<Longrightarrow> sent = [start_delta model] \<and> emit \<noteq> None"
        using es by (auto simp: emit_start_def started_stream_def split: option.splits)
      show ?thesis
      proof (cases se)
        case (Some x)
        with run cm \<open>m = Inr model\<close> rr Inr es have "t' = t2" "r' = ?r" "deltas = sent" "e = Some x"
          by (auto simp: run_turn_def)
        with c2 m start show ?thesis using logged_mono [of c 10 t t2 16] by simp
      next
        case None
        let ?te' = "with_emit (after_start sent emit) ?te"
        obtain t3 res ds e3 where pr: "prompt ?te' c ?g ?r (ee_request ee) t2 = (t3, ((res, ds), e3))"
          by (metis surj_pair)
        with run cm \<open>m = Inr model\<close> rr Inr es None have
          u: "t' = t3" "r' = ?r" "deltas = sent @ ds" "e = e3" "result = res"
          by (auto simp: run_turn_def)
        note p = prompt_facts [OF _ _ _ pr, simplified with_emit_simps, OF c2(1) ok(2,3)]
        then have c3: "client_ok (te_api ?te) t3" "logged c 16 t t3" "plain_deltas (te_stream ?te') ds"
          using logged_trans [OF c2(2), of 6 t3] by auto
        have "e3 = None \<longrightarrow> upstream_answer ee emit ?r t3 res (sent @ ds)"
          using p es by (auto simp: upstream_answer_def Let_def upstream_base_def) blast
        moreover have "started_stream emit model (sent @ ds)"
          using c3(3) start es
          by (cases emit) (auto simp: plain_deltas_def with_emit_def after_start_def emit_start_def started_stream_def)
        ultimately show ?thesis using c3 m u by simp
      qed
    qed
  qed
qed

text \<open>
  The model was chosen and a route of it found before the start of the stream. A failure of
  either ends the turn with that error, and nothing has been handed out.
\<close>

definition model_routed :: "exec_env \<Rightarrow> api_credential \<Rightarrow> chat_request \<Rightarrow> string \<Rightarrow> client \<Rightarrow> bool" where
  "model_routed ee c r model t \<longleftrightarrow> (\<exists>t1 t2 route.
     choose_model (ee_turn ee) c (ee_identity ee c) (r_model r) t = (t1, Inr model)
     \<and> resolve_route (te_order (ee_turn ee)) (te_api (ee_turn ee)) c (ee_identity ee c) model t1 = (t2, Inr route)
     \<and> route_ok model route)"

lemma run_turn_routed:
  assumes ok: "client_ok (te_api (ee_turn ee)) t" "clock_ok (te_api (ee_turn ee))" "order_ok (te_order (ee_turn ee))"
    and run: "run_turn ee emit c r t = (t', r', ((result, deltas), e))" "deltas \<noteq> [] \<or> e = None"
  shows "model_routed ee c r (r_model r') t"
proof -
  let ?te = "ee_turn ee" and ?g = "ee_identity ee c"
  obtain t1 m where cm: "choose_model ?te c ?g (r_model r) t = (t1, m)" by fastforce
  obtain model where m: "m = Inr model" using run cm by (cases m) (auto simp: run_turn_def no_answer_def)
  obtain t2 rt where rr: "resolve_route (te_order ?te) (te_api ?te) c ?g model t1 = (t2, rt)" by fastforce
  obtain route where route: "rt = Inr route" using run cm m rr by (cases rt) (auto simp: run_turn_def no_answer_def)
  have t1: "client_ok (te_api ?te) t1" using choose_model_facts [OF ok cm] by auto
  have "route_ok model route" using resolve_route_facts [OF t1 ok(2,3) rr] route by simp
  moreover have "r_model r' = model"
    using run(1) by (auto simp: run_turn_def cm m rr route Let_def split: prod.splits option.splits)
  ultimately show ?thesis using cm m rr route by (auto simp: model_routed_def)
qed

section \<open>One request\<close>

text \<open>What has passed when the turn of a request runs.\<close>

definition admitted :: "exec_env \<Rightarrow> chat_request \<Rightarrow> chat_request \<Rightarrow> disk \<Rightarrow> api_credential \<Rightarrow> bool" where
  "admitted ee r r1 d c \<longleftrightarrow> validate_request r = (r1, None) \<and> validate_tool_history (r_messages r1) = None
     \<and> ee_ctx ee = None \<and> ee_queue_ctx ee = None \<and> ee_gate ee = GateSlot
     \<and> snd (read_api_credential (ee_os ee) (ee_codec ee) (ee_config_dir ee) (ee_now ee) d) = Inr c"

lemma quiet_api: "ds_files (fst (read_api_credential os co dir now d)) = ds_files d"
proof -
  have "ds_files d' = ds_files d" if "read_credential_file os p d = (d', x)" for p d' x
    by (rule quiet_files [OF quiet_read that])
  then show ?thesis by (auto simp: read_api_credential_def split: sum.split prod.split)
qed

lemma execute_cases:
  assumes "execute ee emit r t d = (t', d', r', out)"
  shows "ds_files d' = ds_files d
    \<and> ((t' = t \<and> (\<exists>e. out = no_answer e))
       \<or> (\<exists>r1 c. admitted ee r r1 d c \<and> run_turn ee emit c r1 t = (t', r', out)))"
proof -
  obtain r1 ve where v: "validate_request r = (r1, ve)" by fastforce
  obtain d1 k where k: "read_api_credential (ee_os ee) (ee_codec ee) (ee_config_dir ee) (ee_now ee) d = (d1, k)"
    by fastforce
  have "ds_files d1 = ds_files d" using quiet_api k by (metis fst_conv)
  moreover have "acquire_gate (ee_queue_ctx ee) (ee_gate ee) = None \<longleftrightarrow> ee_queue_ctx ee = None \<and> ee_gate ee = GateSlot"
    by (auto simp: acquire_gate_def split: option.splits gate_event.splits)
  ultimately show ?thesis
    using assms unfolding execute_def v k
    by (auto simp: admitted_def v k split: option.splits sum.splits prod.splits)
qed

text \<open>A gateway whose credential file holds the sample credential.\<close>

definition sample_api_disk :: disk where
  "sample_api_disk = sample_disk\<lparr>ds_files :=
     [''/h/trae-api'' \<mapsto> Directory mode_dir, ''/h/trae-api/auth.json'' \<mapsto> snapshot sample_bytes]\<rparr>"

definition sample_exec :: exec_env where
  "sample_exec = \<lparr>ee_ctx = None, ee_queue_ctx = None, ee_gate = GateSlot, ee_os = sample_os,
     ee_codec = sample_codec, ee_config_dir = Inr ''/h'', ee_now = 1, ee_identity = (\<lambda>_. 7),
     ee_request = ''request_0'', ee_turn = sample_turn_env\<rparr>"

definition accept_all :: emitter where
  "accept_all = Some (\<lambda>_ _. None)"

definition chat_a :: chat_request where
  "chat_a = sample_request\<lparr>r_model := ''a''\<rparr>"

definition sample_run :: "emitter \<Rightarrow> client \<times> chat_request \<times> turn" where
  "sample_run emit = run_turn sample_exec emit (api_view 1 CredentialCorrect.sample_credential)
     (sample_validated\<lparr>r_model := ''a''\<rparr>) warm_client"

definition chat_a_run :: "client \<times> chat_request \<times> turn" where
  "chat_a_run = sample_run accept_all"

lemma sample_api_read:
  "snd (read_api_credential sample_os sample_codec (Inr ''/h'') 1 sample_api_disk)
   = Inr (api_view 1 CredentialCorrect.sample_credential)"
proof -
  have p: "path_dir ''/h/trae-api/auth.json'' = ''/h/trae-api''" by code_simp
  obtain d' where "read_credential_file sample_os ''/h/trae-api/auth.json'' sample_api_disk = (d', Inr sample_bytes)"
    using read_file_ok [OF sample_no_faults, of sample_api_disk "''/h/trae-api/auth.json''" sample_bytes] sample_size
    by (auto simp: sample_api_disk_def p)
  moreover have "api_bytes sample_codec 1 sample_bytes = Inr (api_view 1 CredentialCorrect.sample_credential)"
    using api_bytes_loaded [OF save_load_bytes [OF sample_codec_ok sample_saves], of 1]
    by (simp add: CredentialCorrect.sample_credential_def credential_version_def)
  ultimately show ?thesis by (simp add: read_api_credential_def credential_path_def)
qed

lemma sample_executes:
  "\<exists>d'. execute sample_exec emit chat_a warm_client sample_api_disk
     = (fst (sample_run emit), d', snd (sample_run emit))"
proof -
  have v: "validate_request chat_a = (sample_validated\<lparr>r_model := ''a''\<rparr>, None)" by code_simp
  have h: "validate_tool_history (r_messages sample_validated) = None" by code_simp
  obtain d' where k: "read_api_credential sample_os sample_codec (Inr ''/h'') 1 sample_api_disk
      = (d', Inr (api_view 1 CredentialCorrect.sample_credential))"
    using sample_api_read by (metis prod.collapse)
  have e: "ee_ctx sample_exec = None" "ee_queue_ctx sample_exec = None" "ee_gate sample_exec = GateSlot"
    "ee_os sample_exec = sample_os" "ee_codec sample_exec = sample_codec" "ee_config_dir sample_exec = Inr ''/h''"
    "ee_now sample_exec = 1"
    by (simp_all add: sample_exec_def)
  show ?thesis
    unfolding execute_def e v k
    by (intro exI [of _ d']) (simp add: acquire_gate_def h sample_run_def split: prod.split)
qed

lemma chat_a_executes:
  "\<exists>d'. execute sample_exec accept_all chat_a warm_client sample_api_disk
     = (fst chat_a_run, d', fst (snd chat_a_run), snd (snd chat_a_run))"
  using sample_executes [of accept_all] by (simp add: chat_a_run_def)

lemma chat_a_answered:
  "snd (snd (snd chat_a_run)) = None \<and> m_content (c_message (fst (fst (snd (snd chat_a_run))))) = ''hi''"
  by code_simp

lemma sample_exec_ok:
  "client_ok (te_api (ee_turn sample_exec)) warm_client" "clock_ok (te_api (ee_turn sample_exec))"
  "order_ok (te_order (ee_turn sample_exec))"
  using warm_client_ok sample_turn_env_ok by (simp_all add: sample_exec_def)

text \<open>
  C7. Nothing happens before every check has passed: if a request made the gateway send
  anything upstream, hand anything to its callback, or answer without an error, then the
  request was valid with an answered tool history, its context was live, it had its slot and
  the credential file held an unexpired credential; at most 16 requests were sent, each a POST
  to the configured upstream with exactly that credential; and what was streamed began with
  the start of the model that was routed, and had no other start. Nothing at all is streamed, and
  no answer given, unless the model had been chosen and a route of it found: an unknown model
  never commits the status of the response. The file is never changed.
\<close>

theorem execute_guards:
  assumes "client_ok (te_api (ee_turn ee)) t" "clock_ok (te_api (ee_turn ee))" "order_ok (te_order (ee_turn ee))"
    and "execute ee emit r t d = (t', d', r', ((result, deltas), e))"
    and "cl_log t' \<noteq> cl_log t \<or> deltas \<noteq> [] \<or> e = None"
  shows "ds_files d' = ds_files d \<and> started_stream emit (r_model r') deltas
    \<and> (\<exists>r1 c. request_ok r \<and> answered {} (r_messages r) \<and> admitted ee r r1 d c \<and> logged c 16 t t'
         \<and> (deltas \<noteq> [] \<or> e = None \<longrightarrow> model_routed ee c r1 (r_model r') t))"
proof -
  from execute_cases [OF assms(4)] assms(5) obtain r1 c where
    a: "ds_files d' = ds_files d" "admitted ee r r1 d c" and
    run: "run_turn ee emit c r1 t = (t', r', ((result, deltas), e))"
    by (auto simp: no_answer_def)
  have "request_ok r" "r_messages r1 = r_messages r"
    using a(2) by (auto simp: admitted_def validate_request_accepts)
  moreover have "answered {} (r_messages r1)"
    using a(2) tool_history_complete by (auto simp: admitted_def validate_tool_history_def)
  ultimately show ?thesis
    using a run_turn_facts [OF assms(1-3) run] run_turn_routed [OF assms(1-3) run] by metis
qed

theorem execute_guards_witness:
  "logged (api_view 1 CredentialCorrect.sample_credential) 16 warm_client (fst chat_a_run)
   \<and> answered {} (r_messages chat_a)"
proof -
  obtain d' where x: "execute sample_exec accept_all chat_a warm_client sample_api_disk
     = (fst chat_a_run, d', fst (snd chat_a_run), snd (snd chat_a_run))" using chat_a_executes by blast
  obtain result deltas e where r: "snd (snd chat_a_run) = ((result, deltas), e)" by (metis surj_pair)
  have e: "e = None" using chat_a_answered r by simp
  from execute_guards [OF sample_exec_ok x [unfolded r], of] e obtain r1 c where
    "admitted sample_exec chat_a r1 sample_api_disk c" "logged c 16 warm_client (fst chat_a_run)"
    "answered {} (r_messages chat_a)" by auto
  moreover from this(1) have "c = api_view 1 CredentialCorrect.sample_credential"
    using sample_api_read by (simp add: admitted_def sample_exec_def)
  ultimately show ?thesis by simp
qed

text \<open>
  C8. An answer without an error is the answer of the upstream to the validated request: the
  request asked for is the one that was sent, up to the defaults of the validation and the
  model, which changes only if the caller left it open; its last request was the translation of
  it over a route of that model; the reply had status 200 and the answer is what the stream
  reader made of it. With a callback the text and the reasoning of the answer are those of the
  deltas.
\<close>

theorem execute_result:
  assumes "client_ok (te_api (ee_turn ee)) t" "clock_ok (te_api (ee_turn ee))" "order_ok (te_order (ee_turn ee))"
    and "execute ee emit r t d = (t', d', r', ((result, deltas), None))"
  shows "\<exists>r1. validate_request r = (r1, None) \<and> r' = r1\<lparr>r_model := r_model r'\<rparr>
    \<and> (r_model r \<notin> {[], ''auto''} \<longrightarrow> r_model r' = r_model r)
    \<and> upstream_answer ee emit r' t' result deltas
    \<and> (emit \<noteq> None \<longrightarrow> deltas \<noteq> [] \<and> m_content (c_message result) = concat (map d_text deltas)
         \<and> c_reasoning result = concat (map d_reasoning deltas))"
proof -
  from execute_cases [OF assms(4)] obtain r1 c where a: "admitted ee r r1 d c" and
    run: "run_turn ee emit c r1 t = (t', r', ((result, deltas), None))"
    by (auto simp: no_answer_def)
  note f = run_turn_facts [OF assms(1-3) run]
  have v: "validate_request r = (r1, None)" using a by (simp add: admitted_def)
  then have "r_model r1 = r_model r" by (auto simp: validate_request_accepts)
  moreover have "deltas \<noteq> [] \<and> m_content (c_message result) = concat (map d_text deltas)
      \<and> c_reasoning result = concat (map d_reasoning deltas)" if em: "emit = Some g" for g
  proof -
    from f obtain route body a where rd: "read_ide_stream
          (te_stream (with_emit (after_start [start_delta (r_model r')] emit) (ee_turn ee)))
          \<lparr>si_bytes = body, si_err = te_read_err (ee_turn ee), si_early = te_early (ee_turn ee)\<rparr> r' = (a, None)"
      and u: "result = a_result a" "deltas = start_delta (r_model r') # a_sent a"
      by (auto simp: upstream_answer_def Let_def em emit_start_def)
    have "text_inv a"
      using read_stream_text [of "te_stream (with_emit (after_start [start_delta (r_model r')] emit) (ee_turn ee))"] rd
      by (simp add: em with_emit_def after_start_def) (metis fst_conv)
    then show ?thesis by (simp add: u text_inv_def start_delta_def content_def reasoning_def)
  qed
  ultimately show ?thesis using f v by (cases emit) auto
qed

theorem execute_result_witness:
  "upstream_answer sample_exec accept_all (fst (snd chat_a_run)) (fst chat_a_run)
     (fst (fst (snd (snd chat_a_run)))) (snd (fst (snd (snd chat_a_run))))
   \<and> concat (map d_text (snd (fst (snd (snd chat_a_run))))) = ''hi''"
proof -
  obtain d' where x: "execute sample_exec accept_all chat_a warm_client sample_api_disk
     = (fst chat_a_run, d', fst (snd chat_a_run), snd (snd chat_a_run))" using chat_a_executes by blast
  obtain result deltas e where r: "snd (snd chat_a_run) = ((result, deltas), e)" by (metis surj_pair)
  have e: "e = None" using chat_a_answered r by simp
  note chat_a_answered [THEN conjunct2]
  with execute_result [OF sample_exec_ok x [unfolded r e]] show ?thesis
    by (auto simp: r accept_all_def)
qed

end
