(* ===== verification/HttpCorrect.thy ===== *)
theory HttpCorrect
  imports HttpApi HttpStreamCorrect GatewayCorrect
begin

text \<open>
  The HTTP interface: who is served, and what a streamed chat request receives.
\<close>

section \<open>Access\<close>

text \<open>An address literal has no letter beyond the hexadecimal digits.\<close>

definition address_char :: "char \<Rightarrow> bool" where
  "address_char c \<longleftrightarrow> is_hex c \<or> c = CHR ''.'' \<or> c = CHR '':''"

lemma split_at_all: "list_all (list_all P) (split_at c s) \<Longrightarrow> P c \<Longrightarrow> list_all P s"
  by (induction s) (auto split: if_splits list.splits)

lemma digit_hex: "is_digit c \<Longrightarrow> is_hex c"
  by (auto simp: is_digit_def is_hex_def digit_val_def hex_val_def Let_def split: if_splits)

lemma parse_v4_chars: "parse_v4 s = Some g \<Longrightarrow> list_all address_char s"
proof -
  assume "parse_v4 s = Some g"
  then have "None \<notin> set (map v4_field (split_at (CHR ''.'') s))"
    by (auto simp: parse_v4_def simp del: set_map split: list.splits option.splits)
  then have "list_all (\<lambda>p. v4_field p \<noteq> None) (split_at (CHR ''.'') s)"
    by (auto simp: list_all_iff image_iff) (metis option.exhaust)
  then have "list_all (list_all address_char) (split_at (CHR ''.'') s)"
    by (rule list.pred_mono_strong) (auto simp: v4_field_def address_char_def digit_hex list_all_iff split: if_splits)
  then show ?thesis by (rule split_at_all) (simp add: address_char_def)
qed

lemma v6_groups_chars: "v6_groups n acc el s = Some x \<Longrightarrow> list_all address_char s"
proof (induction n acc el s rule: v6_groups.induct)
  case (2 n acc el s)
  let ?h = "takeWhile is_hex s" and ?r = "dropWhile is_hex s"
  have h: "list_all address_char ?h" by (auto simp: list_all_iff address_char_def dest: set_takeWhileD)
  have "list_all address_char ?r"
  proof -
    consider "?r = []" | "take 1 ?r = ''.''" | "take 1 ?r = '':''" "take 1 ?r \<noteq> ''.''"
      using 2(3) by (auto simp: Let_def split: if_splits)
    then show ?thesis
    proof cases
      case 1
      show ?thesis unfolding 1 by simp
    next
      case 2
      then obtain g where "parse_v4 s = Some g"
        using \<open>v6_groups (Suc n) acc el s = Some x\<close> by (auto simp: Let_def split: if_splits option.splits list.splits)
      then show ?thesis using parse_v4_chars set_dropWhileD by (fastforce simp: list_all_iff)
    next
      case 3
      then obtain r where r: "?r = CHR '':'' # r" by (cases ?r) auto
      have "list_all address_char (drop 2 ?r) \<and> take 2 ?r = ''::'' \<or> list_all address_char (drop 1 ?r)"
        using 2 3 r by (auto simp: Let_def dropWhile_eq_Nil_conv [symmetric] simp del: dropWhile_eq_Nil_conv split: if_splits)
      then show ?thesis by (cases r) (auto simp: r address_char_def)
    qed
  qed
  with h show ?case by (metis list_all_append takeWhile_dropWhile_id)
qed simp

lemma parse_ip_chars: "parse_ip s = Some i \<Longrightarrow> list_all address_char s"
proof -
  assume ip: "parse_ip s = Some i"
  have v6: "list_all address_char s" if "parse_v6 s = Some g" for g
  proof (cases "take 2 s = ''::''")
    case True
    then have s: "s = ''::'' @ drop 2 s" by (metis append_take_drop_id)
    have "drop 2 s = [] \<or> (\<exists>n acc el x. v6_groups n acc el (drop 2 s) = Some x)"
      using that True by (auto simp: parse_v6_def split: if_splits option.splits)
    then have "list_all address_char (drop 2 s)" using v6_groups_chars by auto
    then show ?thesis by (subst s) (simp add: address_char_def)
  next
    case False
    then show ?thesis using that v6_groups_chars by (auto simp: parse_v6_def split: if_splits option.splits)
  qed
  from ip show ?thesis
    by (auto simp: parse_ip_def split: list.splits if_splits option.splits intro: parse_v4_chars v6)
qed

text \<open>The hosts that are served without a token.\<close>

definition own_host :: "string \<Rightarrow> bool" where
  "own_host h \<longleftrightarrow> equal_fold h ''localhost'' \<or> loopback_literal h \<and> list_all address_char h"

lemma local_host_own: "local_management_host host \<Longrightarrow> own_host (hostname host)"
  using parse_ip_chars
  by (auto simp: local_management_host_def own_host_def loopback_literal_def split: option.splits if_splits)

lemma refusal_none:
  "refusal sdk token q = None \<longleftrightarrow>
     (if token = [] then local_management_host (wq_host q) \<and> same_origin q
      else get_header q ''Authorization'' = ''Bearer '' @ token)"
  by (auto simp: refusal_def)

lemma refusal_status: "refusal sdk token q = Some r \<Longrightarrow> rp_status r \<in> {401, 403}"
  by (auto simp: refusal_def write_error_def write_json_def split: if_splits)

lemma valid_config_loopback:
  "validate_api_config c = None \<Longrightarrow> cf_api_token c = [] \<Longrightarrow> is_loopback_addr (cf_addr c)"
  by (auto simp: validate_api_config_def split: option.splits prod.splits if_splits)

text \<open>
  C9. Who is served: with a configuration that the gateway accepts to listen with, a request
  that changes anything or is answered with another status than the two of a refusal had the
  access token, if there is one; if there is none, the gateway listens on a loopback address
  only, the request names it by \<open>localhost\<close> or an address literal of the loopback network,
  never by another name that could be resolved to it, and its origin is the gateway itself.
\<close>

theorem api_access:
  assumes "validate_api_config (se_cfg se) = None"
    and "api_serve se q t d = (t', d', resp)"
    and "t' \<noteq> t \<or> d' \<noteq> d \<or> rp_status resp \<notin> {401, 403}"
  shows "if cf_api_token (se_cfg se) = []
    then is_loopback_addr (cf_addr (se_cfg se)) \<and> own_host (hostname (wq_host q)) \<and> same_origin q
    else get_header q ''Authorization'' = ''Bearer '' @ cf_api_token (se_cfg se)"
proof -
  have "refusal (ce_sdk (se_chat se)) (cf_api_token (se_cfg se)) q = None"
    using assms(2,3) refusal_status by (cases "refusal (ce_sdk (se_chat se)) (cf_api_token (se_cfg se)) q")
      (auto simp: api_serve_def)
  then show ?thesis
    using valid_config_loopback [OF assms(1)] local_host_own by (auto simp: refusal_none split: if_splits)
qed

section \<open>A gateway for the examples\<close>

text \<open>Encoders that write one line whatever they are given.\<close>

definition sample_sdk :: sdk_env where
  "sample_sdk = \<lparr>sn_chunk = (\<lambda>c. Inr (quote_str (case ck_choice c of Some (k, fin) \<Rightarrow> kd_role k @ kd_content k @ fin | None \<Rightarrow> ''usage''))),
     sn_completion = (\<lambda>c. Inr (quote_str (co_content c))), sn_set = (\<lambda>d path r. Inr (d @ quote_str r)),
     sn_error = (\<lambda>m t. Inr [(''message'', quote_str m), (''type'', quote_str t)]),
     sn_models = (\<lambda>names. Inr (list_json (map quote_str names)))\<rparr>"

definition sample_chat :: chat_env where
  "sample_chat = \<lparr>ce_sdk = sample_sdk, ce_sink = quick_sink, ce_id = ''chatcmpl-0'', ce_created = 5\<rparr>"

definition sample_params :: sdk_params where
  "sample_params = \<lparr>sd_model = ''a'', sd_parallel = None, sd_max_tokens = 0, sd_max_completion = 0,
     sd_temperature = Some (Number False 15 (- 1)), sd_top_p = None, sd_include_usage = False,
     sd_roles = [Some ''user''], sd_tools = [Some \<lparr>sd_name = ''f'', sd_desc = [], sd_strict = None\<rparr>]\<rparr>"

definition sample_server :: server_env where
  "sample_server = \<lparr>se_cfg = default_config, se_chat = sample_chat, se_exec = sample_exec,
     se_decode = (\<lambda>_. Inr sample_params), se_broken = (\<lambda>_. False),
     se_chars = \<lparr>cc_han = (\<lambda>r. 19968 \<le> r \<and> r \<le> 40959), cc_punct = (\<lambda>r. r = 44 \<or> r = 46)\<rparr>\<rparr>"

definition sample_text :: string where
  "sample_text = dq ''{`stream`:true,`messages`:[{`role`:`user`,`content`:`hi`}],`tools`:[{`type`:`function`}]}''"

definition sample_post :: web_request where
  "sample_post = \<lparr>wq_method = ''POST'', wq_path = ''/v1/chat/completions'', wq_host = ''LocalHost:8723'',
     wq_header = [], wq_body = sample_text\<rparr>"

theorem api_access_witness:
  "is_loopback_addr ''127.0.0.1:8723'' \<and> own_host (hostname ''LocalHost:8723'')"
proof -
  have x: "mux_segments ''/x'' = [''x'']" by code_simp
  have v: "validate_api_config (se_cfg sample_server) = None" by code_simp
  have r: "refusal sample_sdk [] (sample_post\<lparr>wq_path := ''/x''\<rparr>) = None" by code_simp
  have "api_serve sample_server (sample_post\<lparr>wq_path := ''/x''\<rparr>) warm_client sample_api_disk
      = (warm_client, sample_api_disk, plain_text 404 ''404 page not found'')"
    using r by (simp add: x api_serve_def sample_server_def sample_chat_def default_config_def api_route_def sample_post_def)
  from api_access [OF v this] show ?thesis
    by (simp add: plain_text_def sample_server_def default_config_def sample_post_def)
qed

section \<open>A streamed chat request\<close>

lemma execute_started:
  assumes "client_ok (te_api (ee_turn ee)) t" "clock_ok (te_api (ee_turn ee))" "order_ok (te_order (ee_turn ee))"
    and "execute ee emit r t d = (t', d', r', ((result, deltas), e))"
  shows "started_stream emit (r_model r') deltas \<and> (e = None \<and> emit \<noteq> None \<longrightarrow> deltas \<noteq> [])"
proof -
  consider (early) x where "((result, deltas), e) = no_answer x"
    | (ran) r1 c where "run_turn ee emit c r1 t = (t', r', ((result, deltas), e))"
    using execute_cases [OF assms(4)] by blast
  then show ?thesis
  proof cases
    case early
    then show ?thesis by (simp add: no_answer_def started_stream_def)
  next
    case ran
    from run_turn_facts [OF assms(1-3) ran] show ?thesis
      by (auto simp: upstream_answer_def emit_start_def Let_def split: option.splits)
  qed
qed

lemma stream_reply_error:
  assumes "r_stream req"
  shows "chat_reply se req (r', ((result, []), Some x))
    = write_error (ce_sdk (se_chat se)) [] (status_for_error x) (error_text x)"
  using assms by (simp add: chat_reply_def replay_def new_sink_def write_execution_error_def Let_def)

lemma stream_reply_events:
  assumes "healthy (ce_sink (se_chat se))" "encodes (ce_sdk (se_chat se))" "r_stream req"
    and "list_all (\<lambda>d. \<not> d_start d) rest"
  shows "rp_status (chat_reply se req (r', ((result, start_delta model # rest), e))) = 200
    \<and> client_events (rp_body (chat_reply se req (r', ((result, start_delta model # rest), e))))
      = chunk_text (se_chat se) (start_chunk (se_chat se) model) # delta_texts (se_chat se) model rest
        @ (case e of
             None \<Rightarrow> answer_tail (se_chat se) (r_include_usage req) (r_model r') (with_usage (se_chars se) r' result)
           | Some x \<Rightarrow> error_tail (se_chat se) x)"
proof -
  let ?s = "sm_sink (replay (se_chat se) (r_model req) (start_delta model # rest))"
  note d = delivered_replay [OF assms(1,2,4), of model "r_model req"]
  then have st: "sk_started ?s" by (simp add: delivered_def)
  show ?thesis
  proof (cases e)
    case None
    then show ?thesis
      using delivered_body [OF delivered_answer [OF assms(1,2) d]] assms(3)
      by (simp add: chat_reply_def stream_response_def Let_def)
  next
    case (Some x)
    then show ?thesis
      using delivered_body [OF delivered_error [OF assms(1,2) d]] assms(3) st
      by (simp add: chat_reply_def write_execution_error_def stream_response_def Let_def)
  qed
qed

text \<open>
  C10. A streamed chat request over a connection that holds: if nothing was streamed, the
  client gets an ordinary error with the error's status; otherwise it gets status 200 and
  reads, event by event, the role under the routed model, a chunk for every delta of the
  upstream in order, and then either the finish reason, the usage if it asked for it, and the
  end mark, or the error and the end mark, which is missing exactly when a new login is needed.
\<close>

theorem chat_stream_events:
  assumes "client_ok (te_api (ee_turn (se_exec se))) t" "clock_ok (te_api (ee_turn (se_exec se)))"
    "order_ok (te_order (ee_turn (se_exec se)))"
    and "healthy (ce_sink (se_chat se))" "encodes (ce_sdk (se_chat se))"
    and "decode_body (se_broken se) (wq_body q) = Inr (body, raw)"
    and "decode_chat_request (se_decode se) body raw = Inr req" "r_stream req"
    and "execute (se_exec se) (chat_emitter (se_chat se) (r_model req)) req t d = (t', d', r', ((result, deltas), e))"
  shows "\<exists>resp. chat_handler se q t d = (t', d', resp)
    \<and> (case deltas of
         [] \<Rightarrow> \<exists>x. e = Some x \<and> resp = write_error (ce_sdk (se_chat se)) [] (status_for_error x) (error_text x)
       | start # rest \<Rightarrow> rp_status resp = 200 \<and> client_events (rp_body resp)
           = chunk_text (se_chat se) (start_chunk (se_chat se) (r_model r')) # delta_texts (se_chat se) (r_model r') rest
             @ (case e of
                  None \<Rightarrow> answer_tail (se_chat se) (r_include_usage req) (r_model r') (with_usage (se_chars se) r' result)
                | Some x \<Rightarrow> error_tail (se_chat se) x))"
proof -
  have h: "chat_handler se q t d = (t', d', chat_reply se req (r', ((result, deltas), e)))"
    using assms(6-9) by (simp add: chat_handler_def Let_def)
  have st: "started_stream (chat_emitter (se_chat se) (r_model req)) (r_model r') deltas"
    "e = None \<longrightarrow> deltas \<noteq> []"
    using execute_started [OF assms(1-3,9)] by (auto simp: chat_emitter_def)
  show ?thesis
  proof (cases deltas)
    case Nil
    then obtain x where "e = Some x" using st(2) by (cases e) auto
    then show ?thesis using h Nil stream_reply_error [OF assms(8)] by simp
  next
    case (Cons start rest)
    then have *: "start = start_delta (r_model r')" "list_all (\<lambda>d. \<not> d_start d) rest"
      using st(1) by (auto simp: started_stream_def)
    with stream_reply_events [OF assms(4,5,8) *(2), of r' result "r_model r'" e] show ?thesis
      using h Cons by simp
  qed
qed

lemma sample_encodes: "encodes sample_sdk"
proof -
  have "line_safe (quote_str s @ quote_str r)" for s r
    using line_safe_quote [of s] line_safe_quote [of r] by (simp add: line_safe_def)
  then show ?thesis
    using line_safe_quote by (auto simp: encodes_def sample_sdk_def)
qed

definition chat_a_stream :: "client \<times> chat_request \<times> turn" where
  "chat_a_stream = sample_run (chat_emitter sample_chat ''a'')"

theorem chat_stream_events_witness:
  "client_events (rp_body (snd (snd (chat_handler sample_server sample_post warm_client sample_api_disk))))
   = [quote_str ''assistant'', quote_str ''hi'', quote_str ''stop'', ''[DONE]'']"
proof -
  obtain d' where x: "execute sample_exec (chat_emitter sample_chat ''a'') chat_a warm_client sample_api_disk
     = (fst chat_a_stream, d', snd chat_a_stream)"
    using sample_executes by (auto simp: chat_a_stream_def)
  obtain r' result deltas e where r: "snd chat_a_stream = (r', ((result, deltas), e))" by (metis surj_pair)
  have "case decode_body (\<lambda>_. False) sample_text of
      Inr (b, raw) \<Rightarrow> decode_chat_request (\<lambda>_. Inr sample_params) b raw = Inr chat_a | Inl _ \<Rightarrow> False"
    by code_simp
  then obtain b raw where dec: "decode_body (\<lambda>_. False) sample_text = Inr (b, raw)"
    "decode_chat_request (\<lambda>_. Inr sample_params) b raw = Inr chat_a" by (auto split: sum.splits)
  have "case snd chat_a_stream of (r', ((result, deltas), e)) \<Rightarrow> e = None \<and> deltas \<noteq> []
      \<and> chunk_text sample_chat (start_chunk sample_chat (r_model r')) # delta_texts sample_chat (r_model r') (tl deltas)
        @ answer_tail sample_chat False (r_model r') (with_usage (se_chars sample_server) r' result)
        = [quote_str ''assistant'', quote_str ''hi'', quote_str ''stop'', ''[DONE]'']"
    by code_simp
  then have e: "e = None" and ne: "deltas \<noteq> []" and
    ev: "chunk_text sample_chat (start_chunk sample_chat (r_model r')) # delta_texts sample_chat (r_model r') (tl deltas)
        @ answer_tail sample_chat False (r_model r') (with_usage (se_chars sample_server) r' result)
        = [quote_str ''assistant'', quote_str ''hi'', quote_str ''stop'', ''[DONE]'']"
    by (simp_all add: r)
  obtain start rest where ds: "deltas = start # rest" using ne by (cases deltas) auto
  have s: "se_chat sample_server = sample_chat" "se_exec sample_server = sample_exec"
    "se_broken sample_server = (\<lambda>_. False)" "se_decode sample_server = (\<lambda>_. Inr sample_params)"
    "wq_body sample_post = sample_text" "ce_sink sample_chat = quick_sink" "ce_sdk sample_chat = sample_sdk"
    "r_stream chat_a" "r_include_usage chat_a = False" "r_model chat_a = ''a''"
    by (simp_all add: sample_server_def sample_post_def sample_chat_def chat_a_def sample_request_def)
  have "healthy quick_sink" by (simp add: healthy_def quick_sink_def)
  from chat_stream_events [of sample_server warm_client sample_post b raw chat_a sample_api_disk
      "fst chat_a_stream" d' r' result deltas e, unfolded s, OF sample_exec_ok this sample_encodes dec s(8)]
  obtain resp where "chat_handler sample_server sample_post warm_client sample_api_disk = (fst chat_a_stream, d', resp)"
    "client_events (rp_body resp) = [quote_str ''assistant'', quote_str ''hi'', quote_str ''stop'', ''[DONE]'']"
    using x r e ev unfolding ds by auto
  then show ?thesis by simp
qed

end
