(* ===== verification/LoginLink.thy ===== *)
theory LoginLink
  imports GoURL AuthManager
begin

text \<open>
  The authorization link of a login: the query that \<open>beginLogin\<close> of \<open>auth.go\<close> adds to the
  configured address, and the check of \<open>login_cli.go\<close> before a browser is opened. The link of
  the default address passes the check and carries every value as it was given.
\<close>

section \<open>Printing a URL\<close>

text \<open>
  \<open>u.String()\<close> of a URL with a host and without user information and fragment, as the
  authorization address is one. A path is escaped the usual way; an unusual escape that the
  library would keep from the parsed text is not.
\<close>

definition path_char :: "char \<Rightarrow> bool" where
  "path_char c \<longleftrightarrow> unreserved c \<or> c \<in> set ''$&+,/:;=@''"

definition escape_path :: "string \<Rightarrow> string" where
  "escape_path s = concat (map (\<lambda>c. if path_char c then [c]
     else [CHR ''%'', upper_hex (of_char c div 16), upper_hex (of_char c mod 16)]) s)"

definition url_string :: "url \<Rightarrow> string" where
  "url_string u =
     (if u_scheme u = [] then [] else u_scheme u @ '':'') @ ''//'' @ u_host u
       @ (if u_path u \<noteq> [] \<and> hd (u_path u) \<noteq> CHR ''/'' then ''/'' else []) @ escape_path (u_path u)
       @ (if u_query u = [] then [] else ''?'' @ u_query u)"

text \<open>\<open>u.Query()\<close>, \<open>q.Set\<close> and \<open>q.Encode()\<close>: a key that is set loses its other values.\<close>

definition query_pairs :: "string \<Rightarrow> (string \<times> string) list" where
  "query_pairs q = List.map_filter parse_pair (split_at (CHR ''&'') q)"

definition set_values :: "(string \<times> string) list \<Rightarrow> (string \<times> string) list \<Rightarrow> string" where
  "set_values values old =
     query_encode (sort_key fst (filter (\<lambda>p. fst p \<notin> fst ` set values) old @ values))"

section \<open>The link of a login\<close>

definition login_values :: "config \<Rightarrow> string \<Rightarrow> string \<Rightarrow> login_attempt \<Rightarrow> (string \<times> string) list" where
  "login_values cf back state p =
     [(''login_version'', ''1''),
      (''auth_from'', ''solo''),
      (''login_channel'', ''native_ide''),
      (''plugin_version'', ''2.3.24254''),
      (''auth_type'', ''local''),
      (''client_id'', cf_client_id cf),
      (''redirect'', ''0''),
      (''login_trace_id'', state),
      (''auth_callback_url'', back),
      (''machine_id'', la_machine p),
      (''device_id'', la_device p),
      (''x_device_id'', la_device p),
      (''x_machine_id'', la_machine p),
      (''x_device_brand'', ''ASUS TUF Gaming A15 FA507RM_FA507RM''),
      (''x_device_type'', ''windows''),
      (''x_os_version'', ''Windows 10 Pro''),
      (''x_env'', []),
      (''x_app_version'', cf_ide_version cf),
      (''x_app_type'', ''stable''),
      (''hide_saas_login'', ''true'')]"

text \<open>\<open>None\<close> is the panic on an address that does not parse.\<close>

definition login_link :: "config \<Rightarrow> string \<Rightarrow> string \<Rightarrow> login_attempt \<Rightarrow> string option" where
  "login_link cf back state p =
     (case url_parse (cf_auth_url cf) of
        None \<Rightarrow> None
      | Some u \<Rightarrow> Some (url_string (u\<lparr>u_query :=
          set_values (login_values cf back state p) (query_pairs (u_query u))\<rparr>)))"

text \<open>The check of \<open>runLogin\<close>; the configured address is a constant that parses.\<close>

definition official_link :: "config \<Rightarrow> string \<Rightarrow> string \<Rightarrow> bool" where
  "official_link cf link ident \<longleftrightarrow>
     (case (url_parse link, url_parse (cf_auth_url cf)) of
        (Some u, Some official) \<Rightarrow>
          u_scheme u = u_scheme official \<and> u_host u = u_host official \<and> u_path u = u_path official
          \<and> \<not> u_user u \<and> u_fragment u = [] \<and> query_get (u_query u) ''login_trace_id'' = ident
      | _ \<Rightarrow> False)"

section \<open>The link is read back\<close>

lemma map_of_sort_key: "map_of (sort_key fst ps) = map_of (ps :: ('k::linorder \<times> 'v) list)"
proof
  fix k
  have first: "map_of qs k = map_of (filter (\<lambda>p. fst p = k) qs) k" for qs :: "('k \<times> 'v) list"
    by (induction qs) auto
  have "filter (\<lambda>p. fst p = k) (sort_key fst ps) = filter (\<lambda>p. fst p = k) ps"
    using sort_key_stable [of fst k ps] by simp
  then show "map_of (sort_key fst ps) k = map_of ps k"
    using first [of "sort_key fst ps"] first [of ps] by simp
qed

lemma set_values_get:
  assumes "values \<noteq> []" "map_of values k = Some v"
  shows "query_get (set_values values []) k = v"
proof -
  have "sort_key fst values \<noteq> []" using assms(1) by (metis length_sort length_0_conv)
  then show ?thesis using assms(2) by (simp add: set_values_def query_get_encode map_of_sort_key)
qed

lemma cut_at_none: "c \<notin> set s \<Longrightarrow> cut_at c s = (s, [])"
  by (induction s) (auto simp: cut_at_def)

lemma printed_char: "unreserved c \<or> c = CHR ''+'' \<or> c = CHR ''%'' \<or> c = CHR ''&'' \<or> c = CHR ''='' \<Longrightarrow> \<not> ctl_byte c"
  by (auto simp: unreserved_def ctl_byte_def Let_def)

lemma query_pair_printed: "c \<in> set (query_pair p) \<Longrightarrow> \<not> ctl_byte c"
  using escaped_char by (intro printed_char) (fastforce simp: query_pair_def query_escape_def)

lemma query_encode_printed: "c \<in> set (query_encode ps) \<Longrightarrow> \<not> ctl_byte c"
proof (induction ps rule: query_encode.induct)
  case (3 p q ps)
  then have "c \<in> set (query_pair p) \<or> c = CHR ''&'' \<or> c \<in> set (query_encode (q # ps))" by auto
  then show ?case using 3 query_pair_printed [of c p] printed_char [of c] by blast
qed (simp_all add: query_pair_printed)

definition auth_page :: "string \<Rightarrow> url" where
  "auth_page q = \<lparr>u_scheme = ''https'', u_user = False, u_host = ''www.trae.cn'', u_path = ''/authorization'',
     u_query = q, u_fragment = []\<rparr>"

lemma parse_auth_url: "url_parse (cf_auth_url default_config) = Some (auth_page [])"
  unfolding auth_page_def by code_simp

lemma url_string_auth_page: "q \<noteq> [] \<Longrightarrow> url_string (auth_page q) = ''https://www.trae.cn/authorization?'' @ q"
proof -
  have "escape_path ''/authorization'' = ''/authorization''" by code_simp
  then show "q \<noteq> [] \<Longrightarrow> ?thesis" by (simp add: url_string_def auth_page_def)
qed

lemma auth_page_parses:
  assumes "\<forall>c \<in> set q. c \<noteq> CHR ''#'' \<and> \<not> ctl_byte c"
  shows "url_parse (''https://www.trae.cn/authorization?'' @ q) = Some (auth_page q)"
proof -
  define pre where "pre = ''https://www.trae.cn/authorization?''"
  have pre: "CHR ''#'' \<notin> set pre" "\<not> list_ex ctl_byte pre" unfolding pre_def by code_simp+
  have no: "CHR ''#'' \<notin> set (pre @ q)" "\<not> list_ex ctl_byte (pre @ q)"
    using assms pre by (auto simp: list_ex_iff)
  have cut: "cut_at (CHR ''#'') (pre @ q) = (pre @ q, [])"
    by (rule cut_at_none [OF no(1)])
  define rest where "rest = ''//www.trae.cn/authorization?'' @ q"
  have scheme: "get_scheme (pre @ q) = Some (''https'', rest)"
    by (simp add: get_scheme_def rest_def pre_def scheme_char_def is_letter_def ascii_lower_def is_digit_def digit_val_def Let_def)
  have query: "cut_at (CHR ''?'') rest = (''//www.trae.cn/authorization'', q)"
    by (simp add: cut_at_def rest_def)
  have parts: "parse_authority ''www.trae.cn'' = Some (False, ''www.trae.cn'')"
    "unescape False ''/authorization'' = Some ''/authorization''" by code_simp+
  show ?thesis
    unfolding url_parse_def pre_def [symmetric] cut prod.case scheme
    using no(2) by (simp add: query parts auth_page_def)
qed

text \<open>The link a login of the default configuration opens.\<close>

lemma login_link_parses:
  assumes "cf_auth_url cf = cf_auth_url default_config" "login_link cf back state p = Some link"
  shows "url_parse link = Some (auth_page (set_values (login_values cf back state p) []))"
proof -
  define q where "q = set_values (login_values cf back state p) []"
  have pairs: "query_pairs [] = []" by (simp add: query_pairs_def parse_pair_def map_filter_simps)
  have ne: "q \<noteq> []"
  proof
    assume "q = []"
    moreover have "query_get q ''login_version'' = ''1''"
      unfolding q_def by (rule set_values_get) (simp_all add: login_values_def)
    ultimately show False by (simp add: query_get_def parse_pair_def map_filter_simps)
  qed
  have "c \<noteq> CHR ''#'' \<and> \<not> ctl_byte c" if "c \<in> set q" for c
    using that query_encode_chars query_encode_printed unfolding q_def set_values_def by blast
  then have parses: "url_parse (''https://www.trae.cn/authorization?'' @ q) = Some (auth_page q)"
    by (intro auth_page_parses) blast
  have "link = url_string (auth_page q)"
    using assms(2) unfolding login_link_def assms(1) parse_auth_url
    by (simp add: q_def) (simp add: auth_page_def pairs)
  then show ?thesis using parses url_string_auth_page [OF ne] by (simp add: q_def)
qed

lemma login_link_some: "cf_auth_url cf = cf_auth_url default_config \<Longrightarrow> \<exists>link. login_link cf back state p = Some link"
  by (simp add: login_link_def parse_auth_url)

lemma login_link_get:
  assumes "cf_auth_url cf = cf_auth_url default_config" "login_link cf back state p = Some link"
    "map_of (login_values cf back state p) k = Some v"
  shows "\<exists>u. url_parse link = Some u \<and> query_get (u_query u) k = v"
proof -
  have "login_values cf back state p \<noteq> []" by (simp add: login_values_def)
  from set_values_get [OF this assms(3)] show ?thesis
    using login_link_parses [OF assms(1,2)] by (simp add: auth_page_def)
qed

lemma login_link_official:
  assumes "cf_auth_url cf = cf_auth_url default_config" "cf_auth_url cli = cf_auth_url default_config"
    "login_link cf back state p = Some link"
  shows "official_link cli link state"
proof -
  have "map_of (login_values cf back state p) ''login_trace_id'' = Some state" by (simp add: login_values_def)
  from login_link_get [OF assms(1,3) this] login_link_parses [OF assms(1,3)]
  show ?thesis by (simp add: official_link_def assms(2) parse_auth_url auth_page_def)
qed

end
