(* ===== verification/AuthService.thy ===== *)
theory AuthService
  imports LoginLink HttpApi
begin

text \<open>
  The auth service of \<open>auth_service.go\<close>: how it opens, listens, runs and shuts down, and its
  HTTP interface over the sections of the auth manager. A handler is given as it runs when no
  other section comes between its own; the machine of the auth manager interleaves the sections.
\<close>

section \<open>Opening and listening\<close>

text \<open>
  \<open>sv_listener\<close> and \<open>sv_http\<close>: the listener and the server are set. \<open>sv_stopped\<close>: the
  shutdown has run, once, with the error \<open>sv_stop_err\<close>. The store is the one the manager has.
\<close>

record auth_service =
  sv_addr :: string
  sv_manager :: auth_manager
  sv_store :: store
  sv_listener :: bool
  sv_http :: bool
  sv_stopped :: bool
  sv_stop_err :: "gerror option"

definition auth_address :: "string \<Rightarrow> string" where
  "auth_address addr = (if addr = [] then ''127.0.0.1:8765'' else addr)"

definition auth_addr_ok :: "string \<Rightarrow> bool" where
  "auth_addr_ok addr \<longleftrightarrow>
     (case split_host_port addr of
        None \<Rightarrow> False
      | Some (host, port) \<Rightarrow> host \<noteq> [] \<and> (host = ''localhost'' \<or> loopback_literal host))"

text \<open>A manager that opens has the store it opened with.\<close>

definition new_auth_service ::
  "auth_ctx \<Rightarrow> string \<Rightarrow> gerror + string \<Rightarrow> nat \<Rightarrow> disk \<Rightarrow> disk \<times> auth_service res" where
  "new_auth_service ax addr config_dir pid d =
     (if \<not> auth_addr_ok (auth_address addr)
      then (d, Inl (ErrMsg ''Auth address must be a loopback host:port''))
      else
        (case open_manager ax config_dir pid d of
           (d', Inl e) \<Rightarrow> (d', Inl e)
         | (d', Inr a) \<Rightarrow>
             (d', case am_store a of
                None \<Rightarrow> Inl ErrNotExist
              | Some st \<Rightarrow> Inr \<lparr>sv_addr = auth_address addr, sv_manager = a, sv_store = st, sv_listener = False,
                  sv_http = False, sv_stopped = False, sv_stop_err = None\<rparr>)))"

text \<open>\<open>net.JoinHostPort\<close>.\<close>

definition join_host_port :: "string \<Rightarrow> string \<Rightarrow> string" where
  "join_host_port h p = (if CHR '':'' \<in> set h then ''['' @ h @ '']:'' @ p else h @ '':'' @ p)"

text \<open>
  The outcome of \<open>net.Listen\<close>: an error, or the address bound, for a TCP address the text of
  its IP and its port.
\<close>

datatype bound = ListenFails gerror | BoundTo "(string \<times> int) option"

definition callback_of :: "string \<Rightarrow> int \<Rightarrow> string" where
  "callback_of ip port = ''http://'' @ join_host_port ip (show_int port) @ ''/authorize''"

definition auth_listen :: "bound \<Rightarrow> auth_service \<Rightarrow> auth_service \<times> gerror option" where
  "auth_listen b sv =
     (if sv_listener sv then (sv, Some (ErrMsg ''Auth listener already active''))
      else
        (case b of
           ListenFails e \<Rightarrow> (sv, Some e)
         | BoundTo None \<Rightarrow> (sv, Some (ErrMsg ''Auth listener must bind loopback TCP''))
         | BoundTo (Some (ip, port)) \<Rightarrow>
             if \<not> loopback_literal ip then (sv, Some (ErrMsg ''Auth listener must bind loopback TCP''))
             else (sv\<lparr>sv_manager := (sv_manager sv)\<lparr>am_callback_url := callback_of ip port\<rparr>,
                      sv_listener := True\<rparr>, None)))"

section \<open>Running and shutting down\<close>

text \<open>\<open>shutdown\<close>; \<open>close_err\<close> is what closing the server or the listener reports.\<close>

definition auth_shutdown :: "os_env \<Rightarrow> gerror option \<Rightarrow> auth_service \<Rightarrow> disk \<Rightarrow> auth_service \<times> disk \<times> gerror option" where
  "auth_shutdown os close_err sv d =
     (if sv_stopped sv then (sv, d, sv_stop_err sv)
      else
        (case close_store os (sv_store sv) d of
           (st, d', e) \<Rightarrow>
             (let e1 = (if sv_http sv \<or> sv_listener sv then join_errors [sv_stop_err sv, close_err] else sv_stop_err sv);
                  e2 = (case e of None \<Rightarrow> e1
                        | Some x \<Rightarrow> join_errors [e1, Some (Wrap ''close Auth credential store: '' x)])
              in (sv\<lparr>sv_manager := (sv_manager sv)\<lparr>am_callback_url := [], am_store := Some st\<rparr>, sv_store := st,
                     sv_stopped := True, sv_stop_err := e2\<rparr>, d', e2))))"

text \<open>
  \<open>Run\<close>: \<open>serve\<close> is what the requests and the refresh loop make of the manager and the disk
  until the end \<open>ev\<close>, and \<open>force_err\<close> what the forced close after a failed shutdown reports.
\<close>

definition auth_run ::
  "os_env \<Rightarrow> bound \<Rightarrow> (auth_manager \<Rightarrow> disk \<Rightarrow> auth_manager \<times> disk) \<Rightarrow> gerror option \<Rightarrow> wait_event
    \<Rightarrow> gerror option \<Rightarrow> gerror option \<Rightarrow> auth_service \<Rightarrow> disk \<Rightarrow> auth_service \<times> disk \<times> gerror option" where
  "auth_run os b serve ctx_err ev force_err close_err sv d =
     (case auth_listen b sv of
        (sv1, Some e) \<Rightarrow>
          (case auth_shutdown os close_err sv1 d of (sv', d', e') \<Rightarrow> (sv', d', join_errors [Some e, e']))
      | (sv1, None) \<Rightarrow>
          (case serve (sv_manager sv1) d of
             (a, d1) \<Rightarrow>
               (case auth_shutdown os close_err (sv1\<lparr>sv_manager := a, sv_http := True\<rparr>) d1 of
                  (sv', d', e') \<Rightarrow> (sv', d', join_errors [auth_run_end ctx_err ev force_err, e']))))"

section \<open>Requests\<close>

text \<open>A request with \<open>r.RemoteAddr\<close>, the raw query and the readings of \<open>r.Context().Err()\<close>.\<close>

record auth_request =
  aq_web :: web_request
  aq_remote :: string
  aq_query :: string
  aq_ctx :: ctx_errs

text \<open>An answer: a response, a page of the browser, or none when the handler panics.\<close>

datatype auth_answer = Answer response | BrowserPage "(string \<times> string) list" reply | Dropped

record auth_server =
  av_ctx :: auth_ctx
  av_sdk :: sdk_env
  av_broken :: "string \<Rightarrow> bool"
  av_now :: clock
  av_login :: login_env

text \<open>\<open>json.Marshal\<close> of a \<open>map[string]string\<close>.\<close>

definition map_json :: "(string \<times> string) list \<Rightarrow> string" where
  "map_json ms = raw_obj (map (\<lambda>(k, v). (k, quote_str v)) (sort_key fst ms))"

definition no_store :: "(string \<times> string) list" where
  "no_store = [(''Cache-Control'', ''no-store'')]"

definition status_answer :: "string \<Rightarrow> response" where
  "status_answer s = write_json no_store 200 (Inr (map_json [(''status'', s)]))"

section \<open>The guard of the routes\<close>

text \<open>
  The host is the one of the callback address, and the peer is this computer. The guard tests the
  escaped path, the multiplexer behind it the unescaped one.
\<close>

definition auth_local :: "string \<Rightarrow> auth_request \<Rightarrow> bool" where
  "auth_local back q \<longleftrightarrow>
     (let host = wq_host (aq_web q) in
      (case url_parse back of None \<Rightarrow> False | Some u \<Rightarrow> u_host u \<noteq> [] \<and> host = u_host u)
      \<and> local_management_host host
      \<and> (case split_host_port (aq_remote q) of None \<Rightarrow> False | Some (peer, port) \<Rightarrow> loopback_literal peer)
      \<and> \<not> (wq_path (aq_web q) = ''/authorize'' \<and> wq_method (aq_web q) \<noteq> ''GET''))"

definition auth_refusal :: "sdk_env \<Rightarrow> string \<Rightarrow> auth_request \<Rightarrow> response option" where
  "auth_refusal sdk back q =
     (if \<not> auth_local back q then Some (write_error sdk [] 403 ''non-local Auth request denied'')
      else if wq_path (aq_web q) \<noteq> ''/authorize'' \<and> \<not> same_origin (aq_web q)
      then Some (write_error sdk [] 403 ''cross-origin management request denied'')
      else None)"

section \<open>The handlers\<close>

definition auth_health :: "int \<Rightarrow> auth_manager \<Rightarrow> response" where
  "auth_health now a = (let c = fst (manager_snapshot a) in
     write_json [] 200 (Inr (health_json (cr_token c \<noteq> [] \<and> unexpired now c))))"

definition logged_in :: "int \<Rightarrow> auth_manager \<Rightarrow> bool" where
  "logged_in now a \<longleftrightarrow> cr_token (am_cred a) \<noteq> [] \<and> am_refresh_err a = None \<and> \<not> am_uncertain a
     \<and> unexpired now (am_cred a)"

text \<open>\<open>startLogin\<close>: the attempt's identifier is read back from the link.\<close>

definition start_answer :: "string \<Rightarrow> auth_answer" where
  "start_answer link =
     (case url_parse link of
        None \<Rightarrow> Dropped
      | Some u \<Rightarrow> Answer (write_json no_store 200 (Inr (map_json [(''status'', ''pending''), (''url'', link),
          (''attempt_id'', query_get (u_query u) ''login_trace_id'')]))))"

definition start_login :: "auth_server \<Rightarrow> auth_manager \<Rightarrow> auth_manager \<times> auth_answer" where
  "start_login av a =
     (if logged_in (av_now av 0) a then (a, Answer (status_answer ''already_logged_in''))
      else
        (case begin_login (av_login av) a of
           (a', Inl e) \<Rightarrow> (a', Answer (write_error (av_sdk av) no_store 503
             ''authorization callback listener is unavailable''))
         | (a', Inr p) \<Rightarrow>
             (a', case login_link (ax_config (av_ctx av)) (am_callback_url a') (le_state (av_login av)) p of
                    None \<Rightarrow> Dropped
                  | Some link \<Rightarrow> start_answer link)))"

definition attempt_request :: "auth_server \<Rightarrow> string \<Rightarrow> response + string" where
  "attempt_request av body =
     (case decode_body (av_broken av) body of
        Inl e \<Rightarrow> Inl (write_error (av_sdk av) no_store 400 ''invalid login attempt request'')
      | Inr (value, raw) \<Rightarrow>
          (let ident = first_string (or_empty (object_value (JStr value))) [''attempt_id''] in
           if ident = [] then Inl (write_error (av_sdk av) no_store 400 ''missing attempt_id'') else Inr ident))"

definition attempt_answer :: "auth_server \<Rightarrow> string option \<Rightarrow> response" where
  "attempt_answer av r = (case r of
     None \<Rightarrow> write_error (av_sdk av) no_store 404 ''login attempt not found''
   | Some s \<Rightarrow> status_answer s)"

definition login_status :: "auth_server \<Rightarrow> string \<Rightarrow> auth_manager \<Rightarrow> auth_manager \<times> response" where
  "login_status av body a =
     (case attempt_request av body of
        Inl r \<Rightarrow> (a, r)
      | Inr ident \<Rightarrow> (case status_section (av_now av 0) ident a of (a', s) \<Rightarrow> (a', attempt_answer av s)))"

definition cancel_login :: "auth_server \<Rightarrow> string \<Rightarrow> auth_manager \<Rightarrow> auth_manager \<times> response" where
  "cancel_login av body a =
     (case attempt_request av body of
        Inl r \<Rightarrow> (a, r)
      | Inr ident \<Rightarrow> (case cancel_section ident a of (a', s) \<Rightarrow> (a', attempt_answer av s)))"

definition page_headers :: "(string \<times> string) list" where
  "page_headers = [(''Cache-Control'', ''no-store''), (''Referrer-Policy'', ''no-referrer''),
     (''Content-Type'', ''text/html; charset=utf-8'')]"

definition browser_request :: "auth_request \<Rightarrow> callback_request" where
  "browser_request q = \<lparr>cb_get = query_get (aq_query q), cb_raw_length = length (aq_query q), cb_ctx = aq_ctx q\<rparr>"

section \<open>The routes\<close>

datatype auth_route = AuthHealth | StartLogin | LoginStatus | CancelLogin | Authorize | AuthWrongMethod | AuthNotFound

definition auth_route :: "web_request \<Rightarrow> auth_route" where
  "auth_route q =
     (let get = (wq_method q = ''GET'' \<or> wq_method q = ''HEAD''); post = (wq_method q = ''POST'');
          path = mux_segments (wq_path q) in
      if path = [''healthz''] then (if get then AuthHealth else AuthWrongMethod)
      else if path = [''api'', ''auth'', ''login''] then (if post then StartLogin else AuthWrongMethod)
      else if path = [''api'', ''auth'', ''login'', ''status''] then (if post then LoginStatus else AuthWrongMethod)
      else if path = [''api'', ''auth'', ''login'', ''cancel''] then (if post then CancelLogin else AuthWrongMethod)
      else if path = [''authorize''] then (if get then Authorize else AuthWrongMethod)
      else AuthNotFound)"

type_synonym auth_world = "auth_manager \<times> disk \<times> http_request list"

definition auth_serve :: "auth_server \<Rightarrow> auth_request \<Rightarrow> auth_world \<Rightarrow> auth_world \<times> auth_answer" where
  "auth_serve av q w =
     (case w of (a, d, log) \<Rightarrow>
      case auth_refusal (av_sdk av) (am_callback_url a) q of
        Some r \<Rightarrow> (w, Answer r)
      | None \<Rightarrow>
          (case auth_route (aq_web q) of
             AuthHealth \<Rightarrow> (w, Answer (auth_health (av_now av 0) a))
           | StartLogin \<Rightarrow> (case start_login av a of (a', r) \<Rightarrow> ((a', d, log), r))
           | LoginStatus \<Rightarrow> (case login_status av (wq_body (aq_web q)) a of (a', r) \<Rightarrow> ((a', d, log), Answer r))
           | CancelLogin \<Rightarrow> (case cancel_login av (wq_body (aq_web q)) a of (a', r) \<Rightarrow> ((a', d, log), Answer r))
           | Authorize \<Rightarrow>
               (case callback (av_ctx av) (av_now av) (browser_request q) a d log of
                  (a', d', log', r) \<Rightarrow> ((a', d', log'), BrowserPage page_headers r))
           | AuthWrongMethod \<Rightarrow> (w, Answer (plain_text 405 ''Method Not Allowed''))
           | AuthNotFound \<Rightarrow> (w, Answer (plain_text 404 ''404 page not found''))))"

end
