(* ===== verification/LoginCli.thy ===== *)
theory LoginCli
  imports AuthService
begin

text \<open>
  The login command, \<open>login_cli.go\<close>: the calls to the auth service, the loop that waits for the
  browser, and the messages. The loop may wait for ever, so it is a partial function over the
  sequence of what the select statement receives.
\<close>

section \<open>One call\<close>

definition login_address :: "config \<Rightarrow> string" where
  "login_address cf = ''http://'' @ (case split_host_port (cf_auth_addr cf) of
     None \<Rightarrow> join_host_port [] [] | Some (h, p) \<Rightarrow> join_host_port h p)"

text \<open>Decoding a body into a \<open>map[string]string\<close>: at most 128 KiB, the first value.\<close>

definition response_limit :: nat where
  "response_limit = 131072"

fun string_members :: "(string \<times> json) list \<Rightarrow> (string \<times> string) list option" where
  "string_members [] = Some []"
| "string_members ((k, v) # ms) =
     (case (v, string_members ms) of
        (JStr s, Some r) \<Rightarrow> Some ((k, s) # r)
      | (JNull, Some r) \<Rightarrow> Some ((k, []) # r)
      | _ \<Rightarrow> None)"

definition decode_strings :: "string \<Rightarrow> (string \<Rightarrow> string) option" where
  "decode_strings body =
     (let s = skip_ws (take response_limit body) in
      case pvalue (fuel_for s) s of
        Some (JObj ms, r) \<Rightarrow>
          map_option (\<lambda>kv k. case map_of (rev kv) k of Some v \<Rightarrow> v | None \<Rightarrow> []) (string_members ms)
      | Some (JNull, r) \<Rightarrow> Some (\<lambda>k. [])
      | _ \<Rightarrow> None)"

definition call_result :: "http_outcome \<Rightarrow> (string \<Rightarrow> string) res" where
  "call_result out =
     (case out of
        NoReply (Some e) \<Rightarrow> Inl e
      | NoReply None \<Rightarrow> Inl (ErrMsg ''Auth service is not running or unavailable; start trae-api auth first'')
      | Reply status body \<Rightarrow>
          if status = 401 \<or> status = 403
          then Inl (ErrMsg ''Auth service rejected the login request; check the local Auth address'')
          else if status \<noteq> 200 then Inl (ErrMsg (''login request failed (HTTP '' @ show_int status @ '')''))
          else (case decode_strings body of
                  None \<Rightarrow> Inl (ErrMsg ''invalid login response'') | Some m \<Rightarrow> Inr m))"

text \<open>A call: what is sent, an address and a body, and the result.\<close>

type_synonym sent = "(string \<times> string) list"

definition login_call :: "config \<Rightarrow> string \<Rightarrow> (string \<times> string) list \<Rightarrow> http_outcome \<Rightarrow> sent \<times> (string \<Rightarrow> string) res" where
  "login_call cf path body out =
     (case url_parse (login_address cf @ path) of
        None \<Rightarrow> ([], Inl (ErrMsg ''invalid service address''))
      | Some u \<Rightarrow> ([(login_address cf @ path, map_json body)], call_result out))"

definition local_login_target :: "config \<Rightarrow> bool" where
  "local_login_target cf \<longleftrightarrow>
     (case split_host_port (cf_auth_addr cf) of
        None \<Rightarrow> False
      | Some (host, port) \<Rightarrow> host = ''localhost'' \<or> loopback_literal host)"

definition login_error :: "gerror \<Rightarrow> gerror" where
  "login_error e =
     (if errors_is e Canceled then ErrMsg ''login cancelled''
      else if errors_is e DeadlineExceeded then ErrMsg ''login timed out; run trae-api login again''
      else e)"

section \<open>Waiting for the browser\<close>

text \<open>What the select statement receives: the end of the context, or a tick and the call's outcome.\<close>

datatype poll_event = PollDone gerror | PollTick http_outcome

text \<open>A status that ends the loop, with what is printed and the error.\<close>

type_synonym ending = "string list \<times> gerror option"

definition status_end :: "string \<Rightarrow> ending option" where
  "status_end s =
     (if s = ''completed'' then
        Some ([''Login successful. Auth saved credentials in the user config directory.''], None)
      else if s = ''durability_uncertain'' then
        Some ([], Some (ErrMsg (''credential is usable now, but disk durability is unconfirmed; ''
          @ ''repeat login before restarting Auth'')))
      else if s = ''pending'' then None
      else if s = ''cancelled'' then Some ([], Some (ErrMsg ''login cancelled''))
      else if s = ''expired'' then Some ([], Some (ErrMsg ''login timed out; run trae-api login again''))
      else if s = ''superseded'' then Some ([], Some (ErrMsg ''login replaced by another attempt''))
      else if s = ''failed'' then Some ([], Some (ErrMsg ''browser authorization failed; run trae-api login again''))
      else Some ([], Some (ErrMsg ''invalid login status'')))"

text \<open>One round: the calls made, and how it ends if it does.\<close>

definition poll_round :: "config \<Rightarrow> string \<Rightarrow> poll_event \<Rightarrow> sent \<times> ending option" where
  "poll_round cf ident ev =
     (case ev of
        PollDone e \<Rightarrow> ([], Some ([], Some (login_error e)))
      | PollTick out \<Rightarrow>
          (case login_call cf ''/api/auth/login/status'' [(''attempt_id'', ident)] out of
             (cs, Inl e) \<Rightarrow> (cs, Some ([], Some (login_error e)))
           | (cs, Inr m) \<Rightarrow> (cs, status_end (m ''status''))))"

text \<open>The loop from event \<open>k\<close> on; \<open>sent\<close> are the calls made before.\<close>

partial_function (option) poll_loop ::
  "config \<Rightarrow> string \<Rightarrow> (nat \<Rightarrow> poll_event) \<Rightarrow> nat \<Rightarrow> sent \<Rightarrow> (sent \<times> ending) option" where
  "poll_loop cf ident evs k sent =
     (case poll_round cf ident (evs k) of
        (cs, Some r) \<Rightarrow> Some (sent @ cs, r)
      | (cs, None) \<Rightarrow> poll_loop cf ident evs (Suc k) (sent @ cs))"

section \<open>The command\<close>

text \<open>
  What the command meets: the answer to the first call, the error of the browser and
  \<open>ctx.Err()\<close> after it, the events of the loop, and the outcome of the last call.
\<close>

record login_world =
  lw_start :: http_outcome
  lw_open :: "gerror option"
  lw_open_ctx :: "gerror option"
  lw_events :: "nat \<Rightarrow> poll_event"
  lw_cleanup :: http_outcome

record login_run =
  ln_sent :: sent
  ln_opened :: "string option"
  ln_printed :: "string list"
  ln_err :: "gerror option"

definition run_end :: "sent \<Rightarrow> string option \<Rightarrow> string list \<Rightarrow> gerror option \<Rightarrow> login_run" where
  "run_end sent opened printed e = \<lparr>ln_sent = sent, ln_opened = opened, ln_printed = printed, ln_err = e\<rparr>"

definition opened_text :: "gerror option \<Rightarrow> string \<Rightarrow> string list" where
  "opened_text open_err link =
     (if open_err \<noteq> None
      then [''Could not open the browser. Open this official authorization link:'', link]
      else [''Browser authorization opened. Waiting for login; Ctrl+C cancels.''])"

text \<open>After the attempt is known, without the deferred call; \<open>None\<close> is that it does not return.\<close>

definition follow_attempt :: "config \<Rightarrow> login_world \<Rightarrow> string \<Rightarrow> string \<Rightarrow> sent \<Rightarrow> login_run option" where
  "follow_attempt cf lw ident link sent =
     (if \<not> official_link cf link ident
      then Some (run_end sent None [] (Some (ErrMsg ''invalid official authorization link'')))
      else
        (case (lw_open lw, lw_open_ctx lw) of
           (Some _, Some ce) \<Rightarrow> Some (run_end sent (Some link) [] (Some (login_error ce)))
         | (open_err, _) \<Rightarrow>
             (case poll_loop cf ident (lw_events lw) 0 sent of
                None \<Rightarrow> None
              | Some (sent', printed, e) \<Rightarrow>
                  Some (run_end sent' (Some link) (opened_text open_err link @ printed) e))))"

text \<open>The deferred call.\<close>

definition cancel_after :: "config \<Rightarrow> string \<Rightarrow> http_outcome \<Rightarrow> login_run \<Rightarrow> login_run" where
  "cancel_after cf ident out r = r\<lparr>ln_sent := ln_sent r
     @ fst (login_call cf ''/api/auth/login/cancel'' [(''attempt_id'', ident)] out)\<rparr>"

definition run_login :: "config \<Rightarrow> login_world \<Rightarrow> login_run option" where
  "run_login cf lw =
     (if \<not> local_login_target cf
      then Some (run_end [] None [] (Some (ErrMsg ''login can only connect to a service on this computer'')))
      else
        (case login_call cf ''/api/auth/login'' [] (lw_start lw) of
           (sent, Inl e) \<Rightarrow> Some (run_end sent None [] (Some (login_error e)))
         | (sent, Inr m) \<Rightarrow>
             if m ''status'' = ''already_logged_in'' then Some (run_end sent None [''Already logged in.''] None)
             else if m ''status'' \<noteq> ''pending'' \<or> length (m ''attempt_id'') \<noteq> 32
             then Some (run_end sent None [] (Some (ErrMsg ''invalid login attempt'')))
             else map_option (cancel_after cf (m ''attempt_id'') (lw_cleanup lw))
               (follow_attempt cf lw (m ''attempt_id'') (m ''url'') sent)))"

end
