(* ===== verification/LoginCliCorrect.thy ===== *)
theory LoginCliCorrect
  imports LoginCli
begin

text \<open>
  The login command against the auth service: what each writes the other reads, the command
  returns and cancels its attempt once, and a login that the browser completes is reported so.
\<close>

section \<open>Objects of strings\<close>

lemma pvalue_obj:
  assumes "list_all2 (\<lambda>p q. fst q = fst p \<and> value_text (snd p) (snd q)) ms vs" "ms \<noteq> []"
  shows "pvalue (fuel_for (raw_obj ms @ rest)) (raw_obj ms @ rest) = Some (JObj vs, rest)"
proof -
  define body where "body = commas (map raw_item ms) @ ''}'' @ rest"
  have obj: "raw_obj ms @ rest = CHR ''{'' # body" by (simp add: raw_obj_def body_def)
  have "length ms \<le> length body"
    using length_commas_ge [of "map raw_item ms"] by (simp add: body_def)
  then have len: "length ms < Suc (2 * length (raw_obj ms @ rest))" by (simp add: obj)
  obtain k r ps where ms: "ms = (k, r) # ps" using assms(2) by (cases ms) auto
  have "\<exists>t. body = CHR 0x22 # t"
    by (cases "ps = []") (simp_all add: body_def ms commas_Cons raw_item_cons)
  then obtain t where hd: "body = CHR 0x22 # t" by blast
  have "pmembers (Suc (2 * length (raw_obj ms @ rest))) body = Some (vs, rest)"
    unfolding body_def by (rule pmembers_items [OF assms len])
  moreover have "fuel_for (raw_obj ms @ rest) = Suc (Suc (2 * length (raw_obj ms @ rest)))" by (simp add: fuel_for_def)
  ultimately show ?thesis by (simp only: pvalue.simps(2) obj skip_ws_lits) (simp add: hd)
qed

definition str_members :: "(string \<times> string) list \<Rightarrow> (string \<times> json) list" where
  "str_members ms = map (\<lambda>(k, v). (k, JStr v)) (sort_key fst ms)"

lemma map_json_items:
  "list_all2 (\<lambda>p q. fst q = fst p \<and> value_text (snd p) (snd q))
     (map (\<lambda>(k, v). (k, quote_str v)) (sort_key fst ms)) (str_members ms)"
  unfolding str_members_def by (induction "sort_key fst ms") (auto simp: value_text_string list_all2_map1 list_all2_map2 list.rel_refl case_prod_unfold)

lemma sort_key_Nil_iff: "sort_key f xs = [] \<longleftrightarrow> xs = []"
  by (metis length_sort length_0_conv)

lemma string_members_strs: "string_members (map (\<lambda>(k, v). (k, JStr v)) ms) = Some ms"
  by (induction ms) auto

lemma map_of_rev: "distinct (map fst ms) \<Longrightarrow> map_of (rev ms) = map_of ms"
proof (induction ms)
  case (Cons p ms)
  then have "map_of (rev ms) = map_of ms" "map_of ms (fst p) = None" by (auto simp: map_of_eq_None_iff)
  then show ?case by (auto simp: fun_eq_iff map_add_def split: option.split)
qed simp

lemma raw_obj_head: "skip_ws (raw_obj ms @ t) = raw_obj ms @ t"
  by (simp add: raw_obj_def)

text \<open>What one side writes, the other decodes.\<close>

lemma decode_map_json:
  assumes "distinct (map fst ms)" "ms \<noteq> []" "length (map_json ms) < response_limit"
  shows "decode_strings (map_json ms @ lf) = Some (\<lambda>k. case map_of ms k of Some v \<Rightarrow> v | None \<Rightarrow> [])"
proof -
  have ne: "map (\<lambda>(k, v). (k, quote_str v)) (sort_key fst ms) \<noteq> []" using assms(2) by (simp add: sort_key_Nil_iff)
  have d: "distinct (map fst (sort_key fst ms))"
    using assms(1) mset_eq_imp_distinct_iff [of "map fst (sort_key fst ms)" "map fst ms"] by (simp add: mset_map)
  have "take response_limit (map_json ms @ lf) = map_json ms @ lf"
    using assms(3) by (intro take_all) (simp add: lf_def)
  then have tk: "skip_ws (take response_limit (map_json ms @ lf)) = map_json ms @ lf"
    by (simp add: map_json_def raw_obj_head)
  have pv: "pvalue (fuel_for (map_json ms @ lf)) (map_json ms @ lf) = Some (JObj (str_members ms), lf)"
    unfolding map_json_def by (rule pvalue_obj [OF map_json_items ne])
  show ?thesis
    unfolding decode_strings_def tk Let_def pv
    by (simp add: str_members_def string_members_strs map_of_rev d map_of_sort_key)
qed

section \<open>The addresses of the calls\<close>

lemma unescape_append:
  "unescape q x = Some y \<Longrightarrow> CHR ''%'' \<notin> set t \<Longrightarrow> \<exists>z. unescape q (x @ t) = Some z"
proof (induction q x arbitrary: y rule: unescape.induct)
  case (1 q)
  have "CHR ''%'' \<notin> set t \<Longrightarrow> \<exists>z. unescape q t = Some z" by (induction t) auto
  then show ?case using 1 by simp
next
  case (2 q c cs)
  then show ?case by (auto split: if_splits list.splits option.splits)
qed

lemma cut_at_plus:
  "c \<notin> set t \<Longrightarrow> cut_at c (s @ t) =
     (if c \<in> set s then (fst (cut_at c s), snd (cut_at c s) @ t) else (s @ t, []))"
  by (induction s) (auto simp: cut_at_none, auto simp: cut_at_def)

definition plain_path :: "string \<Rightarrow> bool" where
  "plain_path t \<longleftrightarrow> list_all (\<lambda>c. c \<noteq> CHR ''#'' \<and> c \<noteq> CHR ''?'' \<and> c \<noteq> CHR ''%'' \<and> \<not> ctl_byte c) t"

lemma scheme_http: "get_scheme (''http://'' @ x) = Some (''http'', ''//'' @ x)"
  by (simp add: get_scheme_def scheme_char_def is_letter_def ascii_lower_def is_digit_def digit_val_def Let_def)

lemma takeWhile_append_in: "\<exists>x \<in> set xs. \<not> P x \<Longrightarrow> takeWhile P (xs @ ys) = takeWhile P xs \<and> dropWhile P (xs @ ys) = dropWhile P xs @ ys"
  by (induction xs) auto

text \<open>A plain text after the path of an address does not stop it from parsing.\<close>

lemma url_parse_append:
  assumes "url_parse (''http://'' @ a) \<noteq> None" "CHR ''/'' \<in> set a" "plain_path t"
  shows "url_parse (''http://'' @ a @ t) \<noteq> None"
proof -
  define s r where "s = ''http://'' @ a" and "r = ''//'' @ a"
  have s: "''http://'' @ a @ t = s @ t" "url_parse s \<noteq> None" using assms(1) by (simp_all add: s_def)
  have g: "get_scheme s = Some (''http'', r)" "get_scheme (s @ t) = Some (''http'', r @ t)"
    using scheme_http [of a] scheme_http [of "a @ t"] by (simp_all add: s_def r_def)
  have r: "take 2 (r @ x) = ''//''" "drop 2 (r @ x) = a @ x" "take 2 r = ''//''" "drop 2 r = a" "2 \<le> length r" for x
    by (simp_all add: r_def)
  have t: "CHR ''#'' \<notin> set t" "CHR ''?'' \<notin> set t" "CHR ''%'' \<notin> set t" "\<not> list_ex ctl_byte t"
    using assms(3) by (auto simp: plain_path_def list_all_iff list_ex_iff)
  have ctl: "list_ex ctl_byte (s @ t) = list_ex ctl_byte s" using t(4) by simp
  show ?thesis
  proof (cases "CHR ''#'' \<in> set s")
    case True
    obtain body frag where c: "cut_at (CHR ''#'') s = (body, frag)" by fastforce
    then have c': "cut_at (CHR ''#'') (s @ t) = (body, frag @ t)"
      using True cut_at_plus [OF t(1), of s] by simp
    obtain f where f: "unescape False frag = Some f"
      using s(2) unfolding url_parse_def c by (cases "unescape False frag") (auto split: if_splits option.splits)
    obtain f' where f': "unescape False (frag @ t) = Some f'" using unescape_append [OF f t(3)] by blast
    show ?thesis
      using s(2) unfolding s(1) url_parse_def c c' ctl prod.case f f' by (auto split: if_splits option.splits prod.splits)
  next
    case False
    then have c: "cut_at (CHR ''#'') s = (s, [])" "cut_at (CHR ''#'') (s @ t) = (s @ t, [])"
      using cut_at_plus [OF t(1), of s] by (simp_all add: cut_at_none)
    show ?thesis
    proof (cases "CHR ''?'' \<in> set r")
      case True
      obtain rest query where q: "cut_at (CHR ''?'') r = (rest, query)" by fastforce
      then have q': "cut_at (CHR ''?'') (r @ t) = (rest, query @ t)"
        using True cut_at_plus [OF t(2), of r] by simp
      show ?thesis
        using s(2) unfolding s(1) url_parse_def c ctl prod.case g
        by (auto simp: q q' split: if_splits option.splits prod.splits)
    next
      case False
      then have q: "cut_at (CHR ''?'') r = (r, [])" "cut_at (CHR ''?'') (r @ t) = (r @ t, [])"
        using cut_at_plus [OF t(2), of r] by (simp_all add: cut_at_none)
      have w: "takeWhile (\<lambda>c. c \<noteq> CHR ''/'') (a @ t) = takeWhile (\<lambda>c. c \<noteq> CHR ''/'') a"
        "dropWhile (\<lambda>c. c \<noteq> CHR ''/'') (a @ t) = dropWhile (\<lambda>c. c \<noteq> CHR ''/'') a @ t"
        using takeWhile_append_in [of a "\<lambda>c. c \<noteq> CHR ''/''" t] assms(2) by auto
      define path where "path = dropWhile (\<lambda>c. c \<noteq> CHR ''/'') a"
      obtain p where p: "unescape False path = Some p"
        using s(2) unfolding url_parse_def c prod.case g q path_def
        by (auto simp: Let_def r q split: if_splits option.splits prod.splits)
      obtain p' where p': "unescape False (path @ t) = Some p'" using unescape_append [OF p t(3)] by blast
      have ne: "parse_authority (takeWhile (\<lambda>c. c \<noteq> CHR ''/'') a) \<noteq> None" "\<not> list_ex ctl_byte s"
        using s(2) unfolding url_parse_def c prod.case g q
        by (auto simp: Let_def r q split: if_splits option.splits prod.splits)
      then show ?thesis
        unfolding s(1) url_parse_def c prod.case g q ctl
        by (auto simp: r q w path_def [symmetric] p p')
    qed
  qed
qed

text \<open>A call that can be made: the address and the body.\<close>

definition service_call :: "config \<Rightarrow> string \<Rightarrow> (string \<times> string) list \<Rightarrow> string \<times> string" where
  "service_call cf path body = (login_address cf @ path, map_json body)"

definition reachable_address :: "config \<Rightarrow> bool" where
  "reachable_address cf \<longleftrightarrow> url_parse (login_address cf @ ''/api/auth/login'') \<noteq> None"

lemma login_call_made:
  assumes "reachable_address cf" "path \<in> {''/api/auth/login'', ''/api/auth/login/status'', ''/api/auth/login/cancel''}"
  shows "login_call cf path body out = ([service_call cf path body], call_result out)"
proof -
  obtain x where x: "login_address cf = ''http://'' @ x" by (simp add: login_address_def)
  have "url_parse (''http://'' @ (x @ ''/api/auth/login'') @ t) \<noteq> None" if "plain_path t" for t
    using assms(1) that url_parse_append [of "x @ ''/api/auth/login''" t] by (simp add: reachable_address_def x)
  moreover have "plain_path ''/status''" "plain_path ''/cancel''" "plain_path []" by code_simp+
  ultimately have "url_parse (login_address cf @ path) \<noteq> None"
    using assms unfolding reachable_address_def by (fastforce simp: x)
  then show ?thesis by (auto simp: login_call_def service_call_def)
qed

lemma login_call_ok: "login_call cf ''/api/auth/login'' body out = (sent, Inr m) \<Longrightarrow> reachable_address cf"
  by (auto simp: login_call_def reachable_address_def split: option.splits)

section \<open>The loop\<close>

lemma poll_loop_stops:
  assumes "\<forall>i < n. snd (poll_round cf ident (evs (k + i))) = None" "snd (poll_round cf ident (evs (k + n))) = Some r"
  shows "poll_loop cf ident evs k sent
    = Some (sent @ concat (map (\<lambda>i. fst (poll_round cf ident (evs i))) [k..<Suc (k + n)]), r)"
  using assms
proof (induction n arbitrary: k sent)
  case 0
  then show ?case by (subst poll_loop.simps) (cases "poll_round cf ident (evs k)", simp)
next
  case (Suc n)
  obtain cs where cs: "poll_round cf ident (evs k) = (cs, None)" using Suc.prems(1) by (metis add_0_right prod.collapse zero_less_Suc)
  have "snd (poll_round cf ident (evs (Suc k + i))) = None" if "i < n" for i
    using Suc.prems(1) that by (metis Suc_less_eq add_Suc add_Suc_right)
  then have "poll_loop cf ident evs (Suc k) (sent @ cs)
      = Some ((sent @ cs) @ concat (map (\<lambda>i. fst (poll_round cf ident (evs i))) [Suc k..<Suc (Suc k + n)]), r)"
    using Suc.prems(2) by (intro Suc.IH) simp_all
  moreover have "[k..<Suc (k + Suc n)] = k # [Suc k..<Suc (Suc k + n)]" by (simp add: upt_rec)
  ultimately show ?case by (subst poll_loop.simps) (simp add: cs)
qed

lemma poll_loop_ends:
  assumes "poll_loop cf ident evs k sent = Some res"
  shows "\<exists>n. (\<forall>i < n. snd (poll_round cf ident (evs (k + i))) = None)
    \<and> snd (poll_round cf ident (evs (k + n))) = Some (snd res)"
proof (rule poll_loop.raw_induct [where P = "\<lambda>cf ident evs k sent res.
    \<exists>n. (\<forall>i < n. snd (poll_round cf ident (evs (k + i))) = None)
      \<and> snd (poll_round cf ident (evs (k + n))) = Some (snd res)", OF _ assms])
  fix loop cf ident evs k sent and res :: "sent \<times> ending"
  assume IH: "\<And>cf ident evs k sent res. loop cf ident evs k sent = Some res \<Longrightarrow>
      \<exists>n. (\<forall>i < n. snd (poll_round cf ident (evs (k + i))) = None)
        \<and> snd (poll_round cf ident (evs (k + n))) = Some (snd res)"
    and step: "(case poll_round cf ident (evs k) of (cs, Some r) \<Rightarrow> Some (sent @ cs, r)
      | (cs, None) \<Rightarrow> loop cf ident evs (Suc k) (sent @ cs)) = Some res"
  obtain cs e where r: "poll_round cf ident (evs k) = (cs, e)" by fastforce
  show "\<exists>n. (\<forall>i < n. snd (poll_round cf ident (evs (k + i))) = None)
      \<and> snd (poll_round cf ident (evs (k + n))) = Some (snd res)"
  proof (cases e)
    case (Some x)
    then show ?thesis using step r by (intro exI [of _ 0]) auto
  next
    case None
    then have "loop cf ident evs (Suc k) (sent @ cs) = Some res" using step r by simp
    from IH [OF this] obtain n where n: "\<forall>i < n. snd (poll_round cf ident (evs (Suc k + i))) = None"
      "snd (poll_round cf ident (evs (Suc k + n))) = Some (snd res)" by blast
    have "snd (poll_round cf ident (evs (k + i))) = None" if "i < Suc n" for i
      using n(1) r None that by (cases i) auto
    then show ?thesis using n(2) by (intro exI [of _ "Suc n"]) simp
  qed
qed

lemma poll_loop_iff:
  "poll_loop cf ident evs k sent = Some (sent', r) \<longleftrightarrow>
    (\<exists>n. (\<forall>i < n. snd (poll_round cf ident (evs (k + i))) = None)
      \<and> snd (poll_round cf ident (evs (k + n))) = Some r
      \<and> sent' = sent @ concat (map (\<lambda>i. fst (poll_round cf ident (evs i))) [k..<Suc (k + n)]))"
  (is "?l \<longleftrightarrow> (\<exists>n. ?P n)")
proof
  assume l: ?l
  from poll_loop_ends [OF this] obtain n where n: "\<forall>i < n. snd (poll_round cf ident (evs (k + i))) = None"
    "snd (poll_round cf ident (evs (k + n))) = Some r" by auto
  have "sent' = sent @ concat (map (\<lambda>i. fst (poll_round cf ident (evs i))) [k..<Suc (k + n)])"
    using l unfolding poll_loop_stops [OF n] by simp
  then show "\<exists>n. ?P n" using n by blast
next
  assume "\<exists>n. ?P n"
  then show ?l using poll_loop_stops by blast
qed

text \<open>One round of the loop, once the service has answered.\<close>

lemma poll_round_tick:
  assumes "reachable_address cf"
  shows "poll_round cf ident (PollTick out) =
    ([service_call cf ''/api/auth/login/status'' [(''attempt_id'', ident)]],
     case call_result out of Inl e \<Rightarrow> Some ([], Some (login_error e)) | Inr m \<Rightarrow> status_end (m ''status''))"
  using login_call_made [OF assms, of "''/api/auth/login/status''" "[(''attempt_id'', ident)]" out]
  by (simp add: poll_round_def split: sum.split)

lemma status_end_err: "s \<noteq> ''completed'' \<Longrightarrow> status_end s \<noteq> Some (printed, None)"
  unfolding status_end_def by (simp only: if_False split: if_split) simp

lemma status_end_ok: "(\<exists>printed. status_end s = Some (printed, None)) \<longleftrightarrow> s = ''completed''"
  using status_end_err by (auto simp: status_end_def)

lemma status_end_pending: "status_end s = None \<longleftrightarrow> s = ''pending''"
  by (auto simp: status_end_def)

text \<open>The status that the service reports in an event.\<close>

definition reports :: "poll_event \<Rightarrow> string \<Rightarrow> bool" where
  "reports ev s \<longleftrightarrow> (\<exists>out m. ev = PollTick out \<and> call_result out = Inr m \<and> m ''status'' = s)"

lemma round_pending:
  assumes "reachable_address cf"
  shows "snd (poll_round cf ident ev) = None \<longleftrightarrow> reports ev ''pending''"
proof (cases ev)
  case (PollTick out)
  then show ?thesis using poll_round_tick [OF assms, of ident out]
    by (auto simp: reports_def status_end_pending split: sum.split)
qed (simp add: poll_round_def reports_def)

lemma round_success:
  assumes "reachable_address cf"
  shows "(\<exists>printed. snd (poll_round cf ident ev) = Some (printed, None)) \<longleftrightarrow> reports ev ''completed''"
proof (cases ev)
  case (PollTick out)
  then show ?thesis using poll_round_tick [OF assms, of ident out]
    by (auto simp: reports_def status_end_ok split: sum.split)
qed (simp add: poll_round_def reports_def)

lemma rounds_sent:
  assumes "reachable_address cf" "\<forall>i < n. snd (poll_round cf ident (evs i)) = None"
  shows "\<exists>k \<le> Suc n. concat (map (\<lambda>i. fst (poll_round cf ident (evs i))) [0..<Suc n])
    = replicate k (service_call cf ''/api/auth/login/status'' [(''attempt_id'', ident)])"
  using assms(2)
proof (induction n)
  case 0
  show ?case
  proof (cases "evs 0")
    case (PollTick out)
    then show ?thesis using poll_round_tick [OF assms(1)] by (intro exI [of _ 1]) simp
  next
    case (PollDone e)
    then show ?thesis by (intro exI [of _ 0]) (simp add: poll_round_def)
  qed
next
  case (Suc n)
  let ?c = "service_call cf ''/api/auth/login/status'' [(''attempt_id'', ident)]"
  have "\<exists>k \<le> Suc n. concat (map (\<lambda>i. fst (poll_round cf ident (evs i))) [0..<Suc n]) = replicate k ?c"
    using Suc.prems by (intro Suc.IH) simp
  then obtain k where k: "k \<le> Suc n"
    "concat (map (\<lambda>i. fst (poll_round cf ident (evs i))) [0..<Suc n]) = replicate k ?c" by blast
  have "fst (poll_round cf ident (evs (Suc n))) = [] \<or> fst (poll_round cf ident (evs (Suc n))) = [?c]"
    using poll_round_tick [OF assms(1)] by (cases "evs (Suc n)") (simp_all add: poll_round_def)
  moreover have "concat (map (\<lambda>i. fst (poll_round cf ident (evs i))) [0..<Suc (Suc n)])
      = replicate k ?c @ fst (poll_round cf ident (evs (Suc n)))"
    using k(2) by simp
  moreover have "replicate k ?c @ [?c] = replicate (Suc k) ?c" by (simp add: replicate_append_same)
  ultimately have "concat (map (\<lambda>i. fst (poll_round cf ident (evs i))) [0..<Suc (Suc n)]) = replicate k ?c
      \<or> concat (map (\<lambda>i. fst (poll_round cf ident (evs i))) [0..<Suc (Suc n)]) = replicate (Suc k) ?c"
    by (elim disjE) (simp_all only: append_Nil2 simp_thms)
  moreover have "k \<le> Suc (Suc n)" "Suc k \<le> Suc (Suc n)" using k(1) by simp_all
  ultimately show ?case by blast
qed

section \<open>The command\<close>

text \<open>The attempt the service has opened for the command, and its link.\<close>

definition known_attempt :: "config \<Rightarrow> login_world \<Rightarrow> (string \<times> string) option" where
  "known_attempt cf lw =
     (case snd (login_call cf ''/api/auth/login'' [] (lw_start lw)) of
        Inl e \<Rightarrow> None
      | Inr m \<Rightarrow>
          if local_login_target cf \<and> m ''status'' = ''pending'' \<and> length (m ''attempt_id'') = 32
          then Some (m ''attempt_id'', m ''url'') else None)"

definition already_in :: "config \<Rightarrow> login_world \<Rightarrow> bool" where
  "already_in cf lw \<longleftrightarrow> local_login_target cf
     \<and> (\<exists>m. snd (login_call cf ''/api/auth/login'' [] (lw_start lw)) = Inr m \<and> m ''status'' = ''already_logged_in'')"

lemma first_call_sent:
  "login_call cf ''/api/auth/login'' [] out = (sent, res) \<Longrightarrow> set sent \<subseteq> {service_call cf ''/api/auth/login'' []}"
  by (auto simp: login_call_def service_call_def split: option.splits)

lemma run_unknown:
  assumes "known_attempt cf lw = None"
  shows "\<exists>r. run_login cf lw = Some r \<and> ln_opened r = None
    \<and> set (ln_sent r) \<subseteq> {service_call cf ''/api/auth/login'' []} \<and> length (ln_sent r) \<le> 1
    \<and> (ln_err r = None \<longleftrightarrow> already_in cf lw)"
proof -
  obtain sent res where c: "login_call cf ''/api/auth/login'' [] (lw_start lw) = (sent, res)" by fastforce
  have len: "length sent \<le> 1" using c by (auto simp: login_call_def split: option.splits)
  show ?thesis
  proof (cases "local_login_target cf")
    case False
    then show ?thesis by (simp add: run_login_def run_end_def already_in_def)
  next
    case local: True
    show ?thesis
    proof (cases res)
      case (Inl e)
      then show ?thesis using local c len first_call_sent [OF c] by (simp add: run_login_def run_end_def already_in_def)
    next
      case (Inr m)
      then show ?thesis using assms local c len first_call_sent [OF c]
        by (auto simp: run_login_def run_end_def already_in_def known_attempt_def split: if_splits)
    qed
  qed
qed

lemma run_known:
  assumes "known_attempt cf lw = Some (ident, link)"
  shows "reachable_address cf" "\<not> already_in cf lw"
    "run_login cf lw = map_option (cancel_after cf ident (lw_cleanup lw))
      (follow_attempt cf lw ident link [service_call cf ''/api/auth/login'' []])"
proof -
  obtain sent m where c: "login_call cf ''/api/auth/login'' [] (lw_start lw) = (sent, Inr m)"
    "local_login_target cf" "m ''status'' = ''pending''" "length (m ''attempt_id'') = 32"
    "ident = m ''attempt_id''" "link = m ''url''"
    using assms by (cases "login_call cf ''/api/auth/login'' [] (lw_start lw)")
      (auto simp: known_attempt_def split: sum.splits if_splits)
  show r: "reachable_address cf" by (rule login_call_ok [OF c(1)])
  show "\<not> already_in cf lw" using c by (simp add: already_in_def)
  have "sent = [service_call cf ''/api/auth/login'' []]"
    using c(1) login_call_made [OF r, of "''/api/auth/login''" "[]" "lw_start lw"] by simp
  then show "run_login cf lw = map_option (cancel_after cf ident (lw_cleanup lw))
      (follow_attempt cf lw ident link [service_call cf ''/api/auth/login'' []])"
    using c by (simp add: run_login_def)
qed

text \<open>How the command follows an attempt.\<close>

definition browser_goes :: "config \<Rightarrow> login_world \<Rightarrow> string \<Rightarrow> string \<Rightarrow> bool" where
  "browser_goes cf lw ident link \<longleftrightarrow> official_link cf link ident \<and> (lw_open lw = None \<or> lw_open_ctx lw = None)"

lemma follow_stopped:
  assumes "\<not> browser_goes cf lw ident link"
  shows "\<exists>r. follow_attempt cf lw ident link sent = Some r \<and> ln_sent r = sent \<and> ln_err r \<noteq> None
    \<and> (ln_opened r = None \<or> ln_opened r = Some link \<and> official_link cf link ident)"
  using assms by (auto simp: follow_attempt_def browser_goes_def run_end_def)

lemma follow_loop:
  assumes "browser_goes cf lw ident link"
  shows "follow_attempt cf lw ident link sent =
    (case poll_loop cf ident (lw_events lw) 0 sent of
       None \<Rightarrow> None
     | Some (sent', printed, e) \<Rightarrow> Some (run_end sent' (Some link) (opened_text (lw_open lw) link @ printed) e))"
  using assms by (auto simp: follow_attempt_def browser_goes_def split: option.split)

lemma follow_returns:
  assumes "reachable_address cf" "lw_events lw n = PollDone e"
  shows "\<exists>r. follow_attempt cf lw ident link sent = Some r \<and> length (ln_sent r) \<le> length sent + n"
proof (cases "browser_goes cf lw ident link")
  case False
  from follow_stopped [OF this] show ?thesis by force
next
  case True
  let ?ends = "\<lambda>i. snd (poll_round cf ident (lw_events lw i)) \<noteq> None"
  have n: "?ends n" using assms(2) by (simp add: poll_round_def)
  obtain m where m: "?ends m" "m \<le> n" "\<And>i. i < m \<Longrightarrow> \<not> ?ends i"
    using LeastI [of ?ends, OF n] Least_le [of ?ends, OF n] not_less_Least [of _ ?ends] by blast
  have before: "\<forall>i < m. snd (poll_round cf ident (lw_events lw i)) = None" using m(3) by blast
  obtain printed e' where r: "snd (poll_round cf ident (lw_events lw m)) = Some (printed, e')"
    using m(1) by fastforce
  define calls where "calls = concat (map (\<lambda>i. fst (poll_round cf ident (lw_events lw i))) [0..<Suc m])"
  have loop: "poll_loop cf ident (lw_events lw) 0 sent = Some (sent @ calls, printed, e')"
    unfolding calls_def using poll_loop_stops [where k = 0, unfolded add_0, OF before r] .
  have "length calls \<le> n"
  proof (cases "m = n")
    case True
    then have "fst (poll_round cf ident (lw_events lw m)) = []" using assms(2) by (simp add: poll_round_def)
    moreover have "length (concat (map (\<lambda>i. fst (poll_round cf ident (lw_events lw i))) [0..<j])) \<le> j" for j
    proof (induction j)
      case (Suc j)
      have "length (fst (poll_round cf ident (lw_events lw j))) \<le> 1"
        using poll_round_tick [OF assms(1)] by (cases "lw_events lw j") (simp_all add: poll_round_def)
      then show ?case using Suc by simp
    qed simp
    ultimately show ?thesis using True by (simp add: calls_def)
  next
    case False
    obtain k where "k \<le> Suc m" "length calls = k"
      using rounds_sent [OF assms(1) before] unfolding calls_def by (metis length_replicate)
    then show ?thesis using False m(2) by linarith
  qed
  then show ?thesis using follow_loop [OF True, of sent] loop by (simp add: run_end_def)
qed

text \<open>
  C32. The login command returns: when its context ends at some point, which its timeout makes
  sure of, it returns, whatever the service and the browser do, and it has made at most two
  calls more than it has received events.
\<close>

theorem login_returns:
  assumes "lw_events lw n = PollDone e"
  shows "\<exists>r. run_login cf lw = Some r \<and> length (ln_sent r) \<le> n + 2"
proof (cases "known_attempt cf lw")
  case None
  from run_unknown [OF this] show ?thesis by fastforce
next
  case (Some p)
  obtain ident link where k: "known_attempt cf lw = Some (ident, link)" using Some by (cases p) simp
  note run = run_known [OF k]
  obtain r where r: "follow_attempt cf lw ident link [service_call cf ''/api/auth/login'' []] = Some r"
    "length (ln_sent r) \<le> Suc n"
    using follow_returns [OF run(1) assms, of ident link "[service_call cf ''/api/auth/login'' []]"] by auto
  show ?thesis using r run(3) login_call_made [OF run(1), of "''/api/auth/login/cancel''"]
    by (simp add: cancel_after_def)
qed

text \<open>
  C33. What the login command asks of the auth service. Without an attempt of its own it asks at
  most once and opens no browser. With one it asks once for the attempt, then only for the
  attempt's status, and at the very end, however it returns, cancels the attempt exactly once;
  and the browser is only opened on the official page, for this attempt.
\<close>

theorem login_calls:
  assumes "run_login cf lw = Some r"
  shows "case known_attempt cf lw of
      None \<Rightarrow> ln_opened r = None \<and> length (ln_sent r) \<le> 1
        \<and> set (ln_sent r) \<subseteq> {service_call cf ''/api/auth/login'' []}
    | Some (ident, link) \<Rightarrow>
        (\<exists>k. ln_sent r = [service_call cf ''/api/auth/login'' []]
           @ replicate k (service_call cf ''/api/auth/login/status'' [(''attempt_id'', ident)])
           @ [service_call cf ''/api/auth/login/cancel'' [(''attempt_id'', ident)]])
        \<and> (ln_opened r = None \<or> ln_opened r = Some link \<and> official_link cf link ident)"
proof (cases "known_attempt cf lw")
  case None
  then show ?thesis using run_unknown [OF None] assms by auto
next
  case (Some p)
  obtain ident link where p: "p = (ident, link)" by fastforce
  note k = Some [unfolded p]
  note run = run_known [OF k]
  let ?start = "[service_call cf ''/api/auth/login'' []]"
  let ?status = "service_call cf ''/api/auth/login/status'' [(''attempt_id'', ident)]"
  obtain q where q: "follow_attempt cf lw ident link ?start = Some q" "r = cancel_after cf ident (lw_cleanup lw) q"
    using assms run(3) by auto
  have "(\<exists>k. ln_sent q = ?start @ replicate k ?status)
      \<and> (ln_opened q = None \<or> ln_opened q = Some link \<and> official_link cf link ident)"
  proof (cases "browser_goes cf lw ident link")
    case False
    then show ?thesis using follow_stopped [OF False, of ?start] q(1) by (auto intro: exI [of _ 0])
  next
    case True
    then obtain sent printed e where l: "poll_loop cf ident (lw_events lw) 0 ?start = Some (sent, printed, e)"
      "q = run_end sent (Some link) (opened_text (lw_open lw) link @ printed) e"
      using q(1) follow_loop [OF True, of ?start] by (auto split: option.splits)
    from l(1) [unfolded poll_loop_iff] obtain n where
      "\<forall>i < n. snd (poll_round cf ident (lw_events lw i)) = None"
      "sent = ?start @ concat (map (\<lambda>i. fst (poll_round cf ident (lw_events lw i))) [0..<Suc n])" by auto
    then show ?thesis using rounds_sent [OF run(1), of n ident "lw_events lw"] l(2) True
      by (auto simp: run_end_def browser_goes_def)
  qed
  then show ?thesis using q(2) login_call_made [OF run(1), of "''/api/auth/login/cancel''"]
    by (auto simp: k cancel_after_def)
qed

text \<open>
  C34. The login command succeeds exactly when the service says that the user is logged in
  already, or its attempt has the official link, the browser or the user could open it, and the
  service reports the attempt completed after having reported it pending in every earlier round.
\<close>

theorem login_success_iff:
  "(\<exists>r. run_login cf lw = Some r \<and> ln_err r = None) \<longleftrightarrow>
     already_in cf lw \<or>
     (\<exists>ident link n. known_attempt cf lw = Some (ident, link) \<and> official_link cf link ident
        \<and> (lw_open lw = None \<or> lw_open_ctx lw = None)
        \<and> reports (lw_events lw n) ''completed'' \<and> (\<forall>i < n. reports (lw_events lw i) ''pending''))"
proof (cases "known_attempt cf lw")
  case None
  then show ?thesis using run_unknown [OF None] by auto
next
  case (Some p)
  obtain ident link where p: "p = (ident, link)" by fastforce
  note k = Some [unfolded p]
  note run = run_known [OF k]
  let ?start = "[service_call cf ''/api/auth/login'' []]"
  show ?thesis
  proof (cases "browser_goes cf lw ident link")
    case False
    then show ?thesis using follow_stopped [OF False, of ?start] run(2,3) k
      by (auto simp: browser_goes_def cancel_after_def)
  next
    case True
    have "(\<exists>r. run_login cf lw = Some r \<and> ln_err r = None)
        \<longleftrightarrow> (\<exists>sent printed. poll_loop cf ident (lw_events lw) 0 ?start = Some (sent, printed, None))"
      using run(3) follow_loop [OF True, of ?start]
      by (auto simp: run_end_def cancel_after_def split: option.splits)
    also have "\<dots> \<longleftrightarrow> (\<exists>n. (\<forall>i < n. snd (poll_round cf ident (lw_events lw i)) = None)
        \<and> (\<exists>printed. snd (poll_round cf ident (lw_events lw n)) = Some (printed, None)))"
      unfolding poll_loop_iff by auto
    finally show ?thesis
      using True run(2) k unfolding round_pending [OF run(1)] round_success [OF run(1)]
      by (auto simp: browser_goes_def)
  qed
qed

section \<open>An example\<close>

text \<open>A service that opens an attempt and reports it pending, until the user interrupts.\<close>

definition waiting_ident :: string where
  "waiting_ident = replicate 32 (CHR ''b'')"

definition waiting_link :: string where
  "waiting_link = ''https://www.trae.cn/authorization?login_trace_id='' @ waiting_ident"

definition waiting_world :: login_world where
  "waiting_world = \<lparr>lw_start = Reply 200 (map_json [(''status'', ''pending''), (''url'', waiting_link),
       (''attempt_id'', waiting_ident)]), lw_open = None, lw_open_ctx = None,
     lw_events = (\<lambda>i. if i < 2 then PollTick (Reply 200 (dq ''{`status`:`pending`}'')) else PollDone Canceled),
     lw_cleanup = NoReply None\<rparr>"

lemma waiting_known: "known_attempt default_config waiting_world = Some (waiting_ident, waiting_link)"
  by code_simp

theorem login_returns_witness: "\<exists>r. run_login default_config waiting_world = Some r \<and> length (ln_sent r) \<le> 4"
proof -
  have "lw_events waiting_world 2 = PollDone Canceled" by (simp add: waiting_world_def)
  from login_returns [OF this, of default_config] show ?thesis by simp
qed

theorem login_calls_witness:
  "\<exists>r k. run_login default_config waiting_world = Some r
    \<and> ln_sent r = [service_call default_config ''/api/auth/login'' []]
        @ replicate k (service_call default_config ''/api/auth/login/status'' [(''attempt_id'', waiting_ident)])
        @ [service_call default_config ''/api/auth/login/cancel'' [(''attempt_id'', waiting_ident)]]"
proof -
  have e: "lw_events waiting_world 2 = PollDone Canceled" by (simp add: waiting_world_def)
  from follow_returns [of default_config waiting_world, OF _ e] run_known [OF waiting_known]
  obtain r where r: "run_login default_config waiting_world = Some r" by force
  show ?thesis using r login_calls [OF r] by (simp add: waiting_known)
qed

text \<open>The same service when the user finishes in the browser.\<close>

definition finished_world :: login_world where
  "finished_world = waiting_world\<lparr>lw_events := (\<lambda>i. PollTick (Reply 200
     (if i < 2 then dq ''{`status`:`pending`}'' else dq ''{`status`:`completed`}'')))\<rparr>"

lemma reports_tick:
  "(case call_result out of Inl e \<Rightarrow> False | Inr m \<Rightarrow> m ''status'' = s) \<Longrightarrow> reports (PollTick out) s"
  by (auto simp: reports_def split: sum.splits)

theorem login_success_iff_witness: "\<exists>r. run_login default_config finished_world = Some r \<and> ln_err r = None"
proof -
  have known: "known_attempt default_config finished_world = Some (waiting_ident, waiting_link)"
    "official_link default_config waiting_link waiting_ident" by code_simp+
  have "case call_result (Reply 200 (dq ''{`status`:`pending`}'')) of Inl e \<Rightarrow> False | Inr m \<Rightarrow> m ''status'' = ''pending''"
    "case call_result (Reply 200 (dq ''{`status`:`completed`}'')) of Inl e \<Rightarrow> False | Inr m \<Rightarrow> m ''status'' = ''completed''"
    by code_simp+
  note answers = reports_tick [OF this(1)] reports_tick [OF this(2)]
  then have "reports (lw_events finished_world 2) ''completed''" "\<forall>i < 2. reports (lw_events finished_world i) ''pending''"
    by (simp_all add: finished_world_def)
  moreover have "lw_open finished_world = None" by (simp add: finished_world_def waiting_world_def)
  ultimately show ?thesis using login_success_iff [of default_config finished_world] known by blast
qed

end
