(* ===== verification/LoginFlow.thy ===== *)
theory LoginFlow
  imports LoginCliCorrect AuthManagerCorrect
begin

text \<open>
  A whole login: the command, the auth service and the browser's callback together. The
  requests of the command pass the guard of the routes, the identifier they carry is the one
  the service reads, and the command reports the login that the callback has completed.
\<close>

section \<open>The requests of the command\<close>

definition cli_request :: "string \<Rightarrow> string \<Rightarrow> string \<Rightarrow> (string \<times> string) list \<Rightarrow> auth_request" where
  "cli_request host remote path body =
     \<lparr>aq_web = \<lparr>wq_method = ''POST'', wq_path = path, wq_host = host,
        wq_header = [(''Content-Type'', ''application/json'')], wq_body = map_json body\<rparr>,
      aq_remote = remote, aq_query = [], aq_ctx = (\<lambda>k. None)\<rparr>"

definition cli_allowed :: "string \<Rightarrow> string \<Rightarrow> string \<Rightarrow> bool" where
  "cli_allowed back host remote \<longleftrightarrow> auth_local back (cli_request host remote [] [])"

lemma cli_not_refused:
  assumes "cli_allowed back host remote" "path \<noteq> ''/authorize''"
  shows "auth_refusal sdk back (cli_request host remote path body) = None"
proof -
  have "auth_local back (cli_request host remote path body)"
    using assms by (simp add: cli_allowed_def auth_local_def cli_request_def Let_def)
  moreover have "same_origin (aq_web (cli_request host remote path body))"
  proof -
    have "canonical_key ''Origin'' \<noteq> ''Content-Type''" "canonical_key ''Sec-Fetch-Site'' \<noteq> ''Content-Type''" by code_simp+
    then show ?thesis by (simp add: same_origin_def get_header_def cli_request_def Let_def)
  qed
  ultimately show ?thesis by (simp add: auth_refusal_def)
qed

lemma serve_start:
  "cli_allowed (am_callback_url a) host remote \<Longrightarrow>
   auth_serve av (cli_request host remote ''/api/auth/login'' body) (a, d, log)
     = (case start_login av a of (a', r) \<Rightarrow> ((a', d, log), r))"
  using cli_not_refused [of "am_callback_url a" host remote "''/api/auth/login''"]
  by (simp add: auth_serve_def auth_route_def cli_request_def)

lemma serve_status:
  "cli_allowed (am_callback_url a) host remote \<Longrightarrow>
   auth_serve av (cli_request host remote ''/api/auth/login/status'' body) (a, d, log)
     = (case login_status av (map_json body) a of (a', r) \<Rightarrow> ((a', d, log), Answer r))"
  using cli_not_refused [of "am_callback_url a" host remote "''/api/auth/login/status''"]
  by (simp add: auth_serve_def auth_route_def cli_request_def)

lemma serve_cancel:
  "cli_allowed (am_callback_url a) host remote \<Longrightarrow>
   auth_serve av (cli_request host remote ''/api/auth/login/cancel'' body) (a, d, log)
     = (case cancel_login av (map_json body) a of (a', r) \<Rightarrow> ((a', d, log), Answer r))"
  using cli_not_refused [of "am_callback_url a" host remote "''/api/auth/login/cancel''"]
  by (simp add: auth_serve_def auth_route_def cli_request_def)

section \<open>The identifier\<close>

lemma length_quote_str: "length (quote_str s) \<le> 6 * length s + 2"
proof -
  have "length (escape_char c) \<le> 6" for c by (auto simp: escape_char_def Let_def)
  then have "length (concat (map escape_char s)) \<le> 6 * length s"
    by (induction s) (auto simp: add_mono)
  then show ?thesis by (simp add: quote_str_def)
qed

lemma map_json_single: "map_json [(k, v)] = raw_obj [(k, quote_str v)]"
  by (simp add: map_json_def)

lemma length_attempt_body: "length (map_json [(''attempt_id'', ident)]) \<le> 6 * length ident + 17"
proof -
  have "length (quote_str ''attempt_id'') = 12" by code_simp
  then show ?thesis using length_quote_str [of ident] by (simp add: map_json_single raw_obj_def raw_item_def)
qed

text \<open>What the command writes as its attempt is what the service reads.\<close>

lemma attempt_request_reads:
  assumes "ident \<noteq> []" "length ident \<le> 600000"
  shows "attempt_request av (map_json [(''attempt_id'', ident)]) = Inr ident"
proof -
  let ?ms = "[(''attempt_id'', quote_str ident)]" and ?vs = "[(''attempt_id'', JStr ident)]"
  let ?body = "map_json [(''attempt_id'', ident)]"
  have two: "list_all2 (\<lambda>p q. fst q = fst p \<and> value_text (snd p) (snd q)) ?ms ?vs" by (simp add: value_text_string)
  have round: "pvalue (fuel_for ?body) ?body = Some (JObj ?vs, [])" "parse_json ?body = Some (JObj ?vs)"
    "raw_members ?body = Some (Some ?ms)"
    using raw_obj_roundtrip [OF two] by (simp_all add: map_json_single)
  have len: "length ?body \<le> max_request_body"
    using length_attempt_body [of ident] assms(2) by (simp add: max_request_body_def)
  then have tk: "take max_request_body ?body = ?body" by (rule take_all)
  have ws: "skip_ws ?body = ?body" by (simp add: map_json_single raw_obj_def)
  have "first_value (av_broken av) ?body = Inr (JObj ?vs, ?body, [])"
    using len by (simp add: first_value_def tk ws round(1) Let_def)
  moreover have "check_members (map_of (rev ?ms)) = None"
    by (simp add: check_members_def unsupported_keys_def)
  ultimately have "\<exists>raw. decode_body (av_broken av) ?body = Inr (?body, raw)"
    using len by (simp add: decode_body_def round(3) skip_ws_def)
  then obtain raw where "decode_body (av_broken av) ?body = Inr (?body, raw)" ..
  moreover have "first_string (or_empty (object_value (JStr ?body))) [''attempt_id''] = ident"
    using assms(1) by (simp add: object_value_def unmarshal_map_def unmarshal_any_def round(2) or_empty_def jfield_def jget_def)
  ultimately show ?thesis using assms(1) by (simp add: attempt_request_def)
qed

section \<open>What the command makes of an answer\<close>

text \<open>A short status comes back as it is.\<close>

lemma call_status_answer:
  assumes "length s \<le> 600"
  shows "\<exists>m. call_result (Reply (rp_status (status_answer s)) (rp_body (status_answer s))) = Inr m \<and> m ''status'' = s"
proof -
  have "length (quote_str ''status'') = 8" by code_simp
  then have "length (map_json [(''status'', s)]) < response_limit"
    using length_quote_str [of s] assms by (simp add: map_json_single raw_obj_def raw_item_def response_limit_def)
  then have "decode_strings (map_json [(''status'', s)] @ lf) = Some (\<lambda>k. case map_of [(''status'', s)] k of Some v \<Rightarrow> v | None \<Rightarrow> [])"
    by (intro decode_map_json) simp_all
  then show ?thesis by (simp add: call_result_def status_answer_def write_json_def)
qed

definition reply_of :: "response \<Rightarrow> http_outcome" where
  "reply_of r = Reply (rp_status r) (rp_body r)"

lemma reports_status: "length s \<le> 600 \<Longrightarrow> reports (PollTick (reply_of (status_answer s))) s"
  using call_status_answer [of s] by (simp add: reports_def reply_of_def)

section \<open>Starting\<close>

text \<open>The answer to the first call, and what the command reads in it.\<close>

lemma start_login_pending:
  assumes "cf_auth_url (ax_config (av_ctx av)) = cf_auth_url default_config" "\<not> logged_in (av_now av 0) a"
    "begin_login (av_login av) a = (a1, Inr p)" "start_login av a = (a', ans)"
  obtains link where "a' = a1" "login_link (ax_config (av_ctx av)) (am_callback_url a1) (le_state (av_login av)) p = Some link"
    "ans = Answer (write_json no_store 200 (Inr (map_json [(''status'', ''pending''), (''url'', link),
       (''attempt_id'', le_state (av_login av))])))"
proof -
  obtain link where l: "login_link (ax_config (av_ctx av)) (am_callback_url a1) (le_state (av_login av)) p = Some link"
    using login_link_some [OF assms(1)] by blast
  have "map_of (login_values (ax_config (av_ctx av)) (am_callback_url a1) (le_state (av_login av)) p) ''login_trace_id''
      = Some (le_state (av_login av))" by (simp add: login_values_def)
  from login_link_get [OF assms(1) l this] obtain u where
    u: "url_parse link = Some u" "query_get (u_query u) ''login_trace_id'' = le_state (av_login av)" by blast
  have "(a', ans) = (a1, start_answer link)"
    using assms(4) unfolding start_login_def assms(3) by (simp only: assms(2) if_False prod.case sum.case l option.case)
  then show thesis using that [of link] l u by (simp add: start_answer_def)
qed

lemma call_start_answer:
  assumes "r = write_json h 200 (Inr (map_json [(''status'', ''pending''), (''url'', link), (''attempt_id'', ident)]))"
    "length (rp_body r) \<le> response_limit"
  shows "\<exists>m. call_result (reply_of r) = Inr m \<and> m ''status'' = ''pending'' \<and> m ''url'' = link \<and> m ''attempt_id'' = ident"
proof -
  let ?ms = "[(''status'', ''pending''), (''url'', link), (''attempt_id'', ident)]"
  have "length (map_json ?ms) < response_limit" using assms by (simp add: write_json_def lf_def)
  then have "decode_strings (map_json ?ms @ lf) = Some (\<lambda>k. case map_of ?ms k of Some v \<Rightarrow> v | None \<Rightarrow> [])"
    by (intro decode_map_json) simp_all
  then show ?thesis by (simp add: assms(1) call_result_def reply_of_def write_json_def)
qed

section \<open>The browser's callback\<close>

lemma callback_work_fails: "callback_work ax now r p log = (log', Inl f) \<Longrightarrow> fst f = 400"
  by (auto simp: callback_work_def callback_credential_def callback_account_def Let_def split: sum.splits if_splits prod.splits)

text \<open>After the page of success the attempt is completed, and asking or cancelling changes nothing.\<close>

lemma callback_completes:
  assumes "callback ax now q a d log = (a', d', log', (200, LoginDone))"
  shows "\<exists>r. map_of (am_results a') (callback_state q) = Some r \<and> lr_status r = ''completed''"
    "am_callback_url a' = am_callback_url a"
proof -
  let ?s = "callback_state q"
  obtain a1 p where c: "callback_claim (now 0) ?s a = (a1, Some p)"
    using assms by (cases "callback_claim (now 0) ?s a") (auto simp: callback_def Let_def split: if_splits option.splits)
  obtain log1 w where w: "callback_work ax (now 2) q p log = (log1, w)" by fastforce
  obtain cr where w': "w = Inr cr"
    using assms c w callback_work_fails [of ax "now 2" q p log]
    by (cases w) (auto simp: callback_def Let_def split: if_splits)
  obtain a2 d2 f where m: "commit_login ax (now 3) (cb_ctx q 1) ?s p cr a1 d = (a2, d2, f)" by (metis prod_cases3)
  have r: "a' = finish_login ?s a2" "f = (200, LoginDone)"
    using assms c w w' m by (auto simp: callback_def Let_def split: if_splits)
  have a2: "\<exists>b. a2 = set_status ?s ''completed'' b \<and> am_callback_url b = am_callback_url a1"
    using m r(2) by (auto simp: commit_login_def split: if_splits prod.splits)
  then have st: "lr_status (result_at a2 ?s) = ''completed''"
    by (auto simp: result_at_def set_status_def)
  then have a': "a' = a2" by (simp add: r(1) finish_login_def)
  show "\<exists>r. map_of (am_results a') ?s = Some r \<and> lr_status r = ''completed''"
    using st a2 by (auto simp: a' result_at_def set_status_def)
  have "am_callback_url a1 = am_callback_url a" using c by (auto simp: callback_claim_def split: option.splits if_splits)
  then show "am_callback_url a' = am_callback_url a" using a2 by (auto simp: a' set_status_def)
qed

lemma begin_login_keeps: "begin_login le a = (a', r) \<Longrightarrow> am_callback_url a' = am_callback_url a"
  by (auto simp: begin_login_def Let_def split: if_splits sum.splits)

lemma completed_sections:
  assumes "map_of (am_results a) s = Some r" "lr_status r = ''completed''"
  shows "status_section now s a = (a, Some ''completed'')" "cancel_section s a = (a, Some ''completed'')"
  using assms by (simp_all add: status_section_def cancel_section_def)

section \<open>A whole login\<close>

lemma serve_page:
  assumes "auth_serve av q (a, d, log) = (w, BrowserPage hs rep)"
  shows "\<exists>a' d' log'. w = (a', d', log')
    \<and> callback (av_ctx av) (av_now av) (browser_request q) a d log = (a', d', log', rep)"
  using assms
  by (auto simp: auth_serve_def start_login_def start_answer_def
      split: option.splits auth_route.splits prod.splits sum.splits if_splits)

lemma login_known:
  assumes "local_login_target cf" "reachable_address cf" "lw_start lw = out" "call_result out = Inr m"
    "m ''status'' = ''pending''" "length (m ''attempt_id'') = 32"
  shows "known_attempt cf lw = Some (m ''attempt_id'', m ''url'')"
  using assms login_call_made [OF assms(2), of "''/api/auth/login''" "[]" out] by (simp add: known_attempt_def)

lemma run_completed:
  assumes "known_attempt cf lw = Some (ident, link)" "official_link cf link ident" "lw_open lw = None"
    "\<forall>i < n. reports (lw_events lw i) ''pending''" "reports (lw_events lw n) ''completed''"
  shows "\<exists>r. run_login cf lw = Some r \<and> ln_err r = None \<and> ln_opened r = Some link"
proof -
  note run = run_known [OF assms(1)]
  let ?start = "[service_call cf ''/api/auth/login'' []]"
  have b: "browser_goes cf lw ident link" using assms(2,3) by (simp add: browser_goes_def)
  have pend: "\<forall>i < n. snd (poll_round cf ident (lw_events lw i)) = None"
    using assms(4) round_pending [OF run(1)] by blast
  obtain printed where e: "snd (poll_round cf ident (lw_events lw n)) = Some (printed, None)"
    using assms(5) round_success [OF run(1)] by blast
  from poll_loop_stops [where k = 0, unfolded add_0, OF pend e, of ?start] obtain sent where
    "poll_loop cf ident (lw_events lw) 0 ?start = Some (sent, printed, None)" by blast
  then show ?thesis using run(3) follow_loop [OF b, of ?start] by (simp add: run_end_def cancel_after_def)
qed

text \<open>
  C31. A login goes through: when the command's first request has opened an attempt and the
  browser's callback for this attempt ends on the page of success, then the status request
  answers that it is completed, and the command, which has opened the link made for this
  attempt and has waited through any number of pending rounds, returns without an error; and
  neither the status request nor the command's cancel request at its end touches the login.
\<close>

theorem login_completes:
  assumes "cf_auth_url (ax_config (av_ctx av)) = cf_auth_url default_config" "cf_auth_url cli = cf_auth_url default_config"
    "local_login_target cli" "reachable_address cli" "cli_allowed (am_callback_url a) host remote"
    "le_state (av_login av) = ident" "length ident = 32" "\<not> logged_in (av_now av 0) a"
    "begin_login (av_login av) a = (a1, Inr p)"
    "auth_serve av (cli_request host remote ''/api/auth/login'' []) (a, d, log) = (w1, Answer r1)"
    "length (rp_body r1) \<le> response_limit"
    "auth_serve av2 q w1 = (w2, BrowserPage hs (200, LoginDone))" "callback_state (browser_request q) = ident"
    "auth_serve av3 (cli_request host remote ''/api/auth/login/status'' [(''attempt_id'', ident)]) w2 = (w3, Answer r3)"
    "lw_start lw = reply_of r1" "lw_open lw = None"
    "\<forall>i < n. reports (lw_events lw i) ''pending''" "lw_events lw n = PollTick (reply_of r3)"
  shows "\<exists>r link. run_login cli lw = Some r \<and> ln_err r = None \<and> ln_opened r = Some link
    \<and> login_link (ax_config (av_ctx av)) (am_callback_url a) ident p = Some link
    \<and> w3 = w2
    \<and> fst (auth_serve av4 (cli_request host remote ''/api/auth/login/cancel'' [(''attempt_id'', ident)]) w2) = w2"
proof -
  obtain a' where s: "start_login av a = (a', Answer r1)" "w1 = (a', d, log)"
    using assms(10) serve_start [OF assms(5), of av "[]" d log] by (auto split: prod.splits)
  obtain link where l: "a' = a1" "login_link (ax_config (av_ctx av)) (am_callback_url a1) ident p = Some link"
    "r1 = write_json no_store 200 (Inr (map_json [(''status'', ''pending''), (''url'', link), (''attempt_id'', ident)]))"
    using start_login_pending [OF assms(1,8,9) s(1)] unfolding assms(6) by blast
  have cb1: "am_callback_url a1 = am_callback_url a" using begin_login_keeps [OF assms(9)] .
  obtain a2 d2 log2 where w2: "w2 = (a2, d2, log2)"
    "callback (av_ctx av2) (av_now av2) (browser_request q) a1 d log = (a2, d2, log2, (200, LoginDone))"
    using serve_page [OF assms(12) [unfolded s(2) l(1)]] by blast
  obtain r where r: "map_of (am_results a2) ident = Some r" "lr_status r = ''completed''"
    using callback_completes(1) [OF w2(2)] assms(13) by auto
  note sections = completed_sections [OF r]
  have allowed: "cli_allowed (am_callback_url a2) host remote"
    using callback_completes(2) [OF w2(2)] cb1 assms(5) by simp
  have "ident \<noteq> []" "length ident \<le> 600000" using assms(7) by auto
  note reads = attempt_request_reads [OF this]
  have "w3 = w2" "r3 = status_answer ''completed''"
    using assms(14) serve_status [OF allowed, of av3 "[(''attempt_id'', ident)]" d2 log2]
    by (simp_all add: w2(1) login_status_def reads sections(1) attempt_answer_def)
  moreover have "fst (auth_serve av4 (cli_request host remote ''/api/auth/login/cancel'' [(''attempt_id'', ident)]) w2) = w2"
    using serve_cancel [OF allowed, of av4 "[(''attempt_id'', ident)]" d2 log2]
    by (simp add: w2(1) cancel_login_def reads sections(2))
  moreover obtain m where m: "call_result (reply_of r1) = Inr m" "m ''status'' = ''pending''" "m ''url'' = link"
    "m ''attempt_id'' = ident"
    using call_start_answer [OF l(3) assms(11)] by blast
  have "length (m ''attempt_id'') = 32" using m(4) assms(7) by simp
  from login_known [OF assms(3,4,15) m(1,2) this] have k: "known_attempt cli lw = Some (ident, link)" by (simp add: m)
  have "official_link cli link ident" by (rule login_link_official [OF assms(1,2) l(2)])
  moreover have "reports (lw_events lw n) ''completed''"
    using reports_status [of "''completed''"] assms(18) \<open>r3 = status_answer ''completed''\<close> by simp
  ultimately show ?thesis using run_completed [OF k _ assms(16,17)] l(2) cb1 by auto
qed

section \<open>An example\<close>

definition flow_ident :: string where
  "flow_ident = replicate 32 (CHR ''a'')"

definition plain_sdk :: sdk_env where
  "plain_sdk = \<lparr>sn_chunk = (\<lambda>c. Inr []), sn_completion = (\<lambda>c. Inr []), sn_set = (\<lambda>d p s. Inr d),
     sn_error = (\<lambda>m t. Inr [(''message'', quote_str m), (''type'', quote_str t)]), sn_models = (\<lambda>ns. Inr [])\<rparr>"

text \<open>An encoder of times that writes the same text for all of them keeps the example small.\<close>

definition flow_ax :: auth_ctx where
  "flow_ax = sample_ax\<lparr>ax_codec := sample_codec\<lparr>co_time_text := (\<lambda>t. Some (quote_str ''x''))\<rparr>\<rparr>"

definition flow_login :: login_env where
  "flow_login = \<lparr>le_now = 0, le_state = flow_ident, le_key = Some \<lparr>dk_p256 = True, dk_id = 1\<rparr>,
     le_digit = (\<lambda>i n. Some 1), le_machine = Some ''m'', le_range = id\<rparr>"

definition flow_server :: auth_server where
  "flow_server = \<lparr>av_ctx = flow_ax, av_sdk = plain_sdk, av_broken = (\<lambda>s. False), av_now = (\<lambda>k. 0), av_login = flow_login\<rparr>"

definition flow_manager :: auth_manager where
  "flow_manager = new_auth_manager\<lparr>am_store := Some sample_store, am_callback_url := ''http://127.0.0.1:8765/authorize''\<rparr>"

definition flow_host :: string where
  "flow_host = ''127.0.0.1:8765''"

definition flow_remote :: string where
  "flow_remote = ''127.0.0.1:50000''"

definition flow_attempt :: login_attempt where
  "flow_attempt = \<lparr>la_expires = login_lifetime, la_device = the (new_device_id (\<lambda>i n. Some 1)), la_machine = hex_text ''m'',
     la_key = \<lparr>dk_p256 = True, dk_id = 1\<rparr>, la_generation = 0\<rparr>"

definition flow_pending :: auth_manager where
  "flow_pending = flow_manager\<lparr>am_pending := [(flow_ident, flow_attempt)], am_latest := flow_ident,
     am_results := [(flow_ident, \<lparr>lr_status = ''pending'', lr_expires = login_lifetime\<rparr>)]\<rparr>"

definition flow_link :: string where
  "flow_link = the (login_link default_config (am_callback_url flow_manager) flow_ident flow_attempt)"

definition flow_answer :: response where
  "flow_answer = write_json no_store 200 (Inr (map_json [(''status'', ''pending''), (''url'', flow_link),
     (''attempt_id'', flow_ident)]))"

definition flow_browser :: auth_request where
  "flow_browser = \<lparr>aq_web = \<lparr>wq_method = ''GET'', wq_path = ''/authorize'', wq_host = flow_host, wq_header = [], wq_body = []\<rparr>,
     aq_remote = flow_remote,
     aq_query = query_encode [(''loginTraceID'', flow_ident), (''userJwt'', dq ''{`Token`:`t`,`TokenExpireAt`:9,`RefreshExpireAt`:9}''),
       (''userId'', ''u''), (''refreshToken'', ''r'')],
     aq_ctx = (\<lambda>k. None)\<rparr>"

lemma flow_begins: "begin_login flow_login flow_manager = (flow_pending, Inr flow_attempt)"
proof -
  have "new_device_id (\<lambda>i n. Some 1) \<noteq> None" by code_simp
  then have n: "new_attempt flow_login 0 = Inr flow_attempt"
    by (auto simp: new_attempt_def flow_login_def flow_attempt_def)
  show ?thesis
    using n by (simp add: begin_login_def flow_manager_def new_auth_manager_def flow_pending_def supersede_def
        evict_result_def result_limit_def mput_def flow_attempt_def Let_def) (simp add: flow_login_def)
qed

lemma flow_starts:
  "auth_serve flow_server (cli_request flow_host flow_remote ''/api/auth/login'' []) (flow_manager, sample_disk, [])
    = ((flow_pending, sample_disk, []), Answer flow_answer)"
proof -
  have allowed: "cli_allowed (am_callback_url flow_manager) flow_host flow_remote" by code_simp
  have f: "ax_config (av_ctx flow_server) = default_config" "av_login flow_server = flow_login" "le_state flow_login = flow_ident"
    "\<not> logged_in (av_now flow_server 0) flow_manager"
    by (simp_all add: flow_server_def flow_ax_def sample_ax_def flow_login_def logged_in_def flow_manager_def
        new_auth_manager_def empty_credential_def)
  obtain a' ans where s: "start_login flow_server flow_manager = (a', ans)" by fastforce
  have b: "begin_login (av_login flow_server) flow_manager = (flow_pending, Inr flow_attempt)"
    unfolding f(2) by (rule flow_begins)
  have "cf_auth_url (ax_config (av_ctx flow_server)) = cf_auth_url default_config" unfolding f(1) ..
  from start_login_pending [OF this f(4) b s] obtain link where l: "a' = flow_pending"
    "login_link default_config (am_callback_url flow_pending) flow_ident flow_attempt = Some link"
    "ans = Answer (write_json no_store 200 (Inr (map_json [(''status'', ''pending''), (''url'', link), (''attempt_id'', flow_ident)])))"
    unfolding f(1-3) .
  have "link = flow_link" using l(2) unfolding begin_login_keeps [OF flow_begins] flow_link_def by (simp only: option.sel)
  then have "a' = flow_pending \<and> ans = Answer flow_answer" using l(1,3) by (simp only: flow_answer_def simp_thms)
  then show ?thesis using serve_start [OF allowed, of flow_server "[]" sample_disk "[]"] s by simp
qed

definition flow_called :: "auth_world \<times> auth_answer" where
  "flow_called = auth_serve flow_server flow_browser (flow_pending, sample_disk, [])"

lemma flow_called_ok: "snd flow_called = BrowserPage page_headers (200, LoginDone)"
  by code_simp

definition flow_asked :: "auth_world \<times> auth_answer" where
  "flow_asked = auth_serve flow_server (cli_request flow_host flow_remote ''/api/auth/login/status''
     [(''attempt_id'', flow_ident)]) (fst flow_called)"

definition flow_world :: login_world where
  "flow_world = \<lparr>lw_start = reply_of flow_answer, lw_open = None, lw_open_ctx = None,
     lw_events = (\<lambda>i. if i = 0 then PollTick (reply_of (status_answer ''pending''))
       else PollTick (reply_of (case snd flow_asked of Answer r \<Rightarrow> r | _ \<Rightarrow> flow_answer))),
     lw_cleanup = NoReply None\<rparr>"

theorem login_completes_witness:
  "\<exists>r. run_login default_config flow_world = Some r \<and> ln_err r = None \<and> ln_opened r = Some flow_link"
proof -
  have local: "local_login_target default_config" "reachable_address default_config"
    "cli_allowed (am_callback_url flow_manager) flow_host flow_remote" by code_simp+
  have f: "cf_auth_url (ax_config (av_ctx flow_server)) = cf_auth_url default_config"
    "le_state (av_login flow_server) = flow_ident" "\<not> logged_in (av_now flow_server 0) flow_manager"
    by (simp_all add: flow_server_def flow_ax_def sample_ax_def flow_login_def logged_in_def flow_manager_def
        new_auth_manager_def empty_credential_def)
  have b: "begin_login (av_login flow_server) flow_manager = (flow_pending, Inr flow_attempt)"
    using flow_begins by (simp add: flow_server_def)
  have len: "length (rp_body flow_answer) \<le> response_limit" "length flow_ident = 32" by code_simp+
  have called: "auth_serve flow_server flow_browser (flow_pending, sample_disk, [])
      = (fst flow_called, BrowserPage page_headers (200, LoginDone))"
    using flow_called_ok by (simp add: flow_called_def prod_eq_iff)
  have state: "callback_state (browser_request flow_browser) = flow_ident" by code_simp
  have "am_callback_url (fst (fst flow_called)) = am_callback_url flow_manager"
    using serve_page [OF called] callback_completes(2) by (fastforce simp: flow_pending_def flow_manager_def)
  then have "\<exists>r. snd flow_asked = Answer r"
    using serve_status [of "fst (fst flow_called)" flow_host flow_remote] local(3)
    by (cases "fst flow_called") (simp add: flow_asked_def split: prod.split)
  then obtain r3 where r3: "snd flow_asked = Answer r3" ..
  then have asked: "auth_serve flow_server (cli_request flow_host flow_remote ''/api/auth/login/status''
      [(''attempt_id'', flow_ident)]) (fst flow_called) = (fst flow_asked, Answer r3)"
    by (simp add: flow_asked_def prod_eq_iff)
  have w: "lw_start flow_world = reply_of flow_answer" "lw_open flow_world = None"
    "\<forall>i < 1. reports (lw_events flow_world i) ''pending''" "lw_events flow_world 1 = PollTick (reply_of r3)"
    using reports_status [of "''pending''"] r3 by (simp_all add: flow_world_def)
  from login_completes [OF f(1) refl local f(2) len(2) f(3) b flow_starts len(1) called state asked w]
  obtain r link where r: "run_login default_config flow_world = Some r" "ln_err r = None" "ln_opened r = Some link"
    "login_link (ax_config (av_ctx flow_server)) (am_callback_url flow_manager) flow_ident flow_attempt = Some link"
    by blast
  have "ax_config (av_ctx flow_server) = default_config" by (simp add: flow_server_def flow_ax_def sample_ax_def)
  then have "link = flow_link" using r(4) by (simp only: flow_link_def option.sel)
  then show ?thesis using r(1-3) by blast
qed

end
