(* ===== verification/AuthServiceCorrect.thy ===== *)
theory AuthServiceCorrect
  imports LoginFlow CredQuarantine
begin

text \<open>
  The auth service: whom it serves and what a request may change, and that however \<open>Run\<close> ends
  the writer lock is released and nothing is served any more. At the end the address that the
  service and the command accept but the guard of the routes refuses.
\<close>

section \<open>Whom the routes serve\<close>

lemma start_login_cred: "start_login av a = (a', r) \<Longrightarrow> am_cred a' = am_cred a"
  by (auto simp: start_login_def begin_login_def Let_def split: if_splits sum.splits)

lemma set_status_cred [simp]: "am_cred (set_status s v a) = am_cred a"
  by (simp add: set_status_def)

lemma drop_attempt_cred [simp]: "am_cred (drop_attempt s v a) = am_cred a"
  by (simp add: drop_attempt_def Let_def)

lemma login_status_cred: "login_status av body a = (a', r) \<Longrightarrow> am_cred a' = am_cred a"
  by (auto simp: login_status_def status_section_def split: sum.splits option.splits if_splits)

lemma cancel_login_cred: "cancel_login av body a = (a', r) \<Longrightarrow> am_cred a' = am_cred a"
  by (auto simp: cancel_login_def cancel_section_def split: sum.splits option.splits if_splits)

text \<open>A management request that was let through.\<close>

lemma management_effect:
  assumes "auth_serve av q (a, d, log) = (w, r)" "auth_refusal (av_sdk av) (am_callback_url a) q = None"
    "auth_route (aq_web q) \<noteq> Authorize"
  shows "am_cred (fst w) = am_cred a \<and> snd w = (d, log) \<and> (wq_method (aq_web q) \<noteq> ''POST'' \<longrightarrow> w = (a, d, log))"
proof (cases "auth_route (aq_web q)")
  case StartLogin
  moreover from this have "wq_method (aq_web q) = ''POST''" by (auto simp: auth_route_def Let_def split: if_splits)
  ultimately show ?thesis using assms(1,2) start_login_cred [of av a] by (auto simp: auth_serve_def split: prod.splits)
next
  case LoginStatus
  moreover from this have "wq_method (aq_web q) = ''POST''" by (auto simp: auth_route_def Let_def split: if_splits)
  ultimately show ?thesis using assms(1,2) login_status_cred [of av _ a] by (auto simp: auth_serve_def split: prod.splits)
next
  case CancelLogin
  moreover from this have "wq_method (aq_web q) = ''POST''" by (auto simp: auth_route_def Let_def split: if_splits)
  ultimately show ?thesis using assms(1,2) cancel_login_cred [of av _ a] by (auto simp: auth_serve_def split: prod.splits)
next
  case Authorize
  then show ?thesis using assms(3) by simp
qed (use assms(1,2) in \<open>auto simp: auth_serve_def\<close>)

lemma not_refused:
  assumes "auth_refusal sdk back q = None"
  shows "\<exists>u peer port. url_parse back = Some u \<and> back \<noteq> [] \<and> wq_host (aq_web q) = u_host u
      \<and> local_management_host (u_host u) \<and> split_host_port (aq_remote q) = Some (peer, port) \<and> loopback_literal peer"
    "wq_path (aq_web q) = ''/authorize'' \<Longrightarrow> wq_method (aq_web q) = ''GET''"
    "wq_path (aq_web q) \<noteq> ''/authorize'' \<Longrightarrow> same_origin (aq_web q)"
proof -
  have l: "auth_local back q" using assms by (simp add: auth_refusal_def split: if_splits)
  have "u_host (the (url_parse [])) = []" "url_parse [] \<noteq> None" by code_simp+
  then have "back \<noteq> []" using l by (auto simp: auth_local_def Let_def)
  then show "\<exists>u peer port. url_parse back = Some u \<and> back \<noteq> [] \<and> wq_host (aq_web q) = u_host u
      \<and> local_management_host (u_host u) \<and> split_host_port (aq_remote q) = Some (peer, port) \<and> loopback_literal peer"
    using l by (auto simp: auth_local_def Let_def split: option.splits)
  show "wq_path (aq_web q) = ''/authorize'' \<Longrightarrow> wq_method (aq_web q) = ''GET''"
    using l by (auto simp: auth_local_def Let_def)
  show "wq_path (aq_web q) \<noteq> ''/authorize'' \<Longrightarrow> same_origin (aq_web q)"
    using assms l by (auto simp: auth_refusal_def split: if_splits)
qed

lemma write_error_status [simp]: "rp_status (write_error sdk h st msg) = st"
  by (simp add: write_error_def write_json_def)

lemma refusal_403: "auth_refusal sdk back q = Some x \<Longrightarrow> rp_status x = 403"
  by (auto simp: auth_refusal_def split: if_splits)

text \<open>
  C35. Whom the auth service serves. A request is refused with status 403 and changes nothing,
  or the service is listening, the request comes from this computer and its host is exactly the
  host of the callback address; then a request for the path of the browser's callback, as the
  client wrote it, must be a GET, and any other request must have the same origin. Whatever path
  it wrote, a request that is not routed to the callback leaves the credential, the disk and the
  requests sent upstream as they are and changes nothing at all unless it is a POST, and one that
  is routed there is a GET or a HEAD.
\<close>

theorem auth_access:
  assumes "auth_serve av q (a, d, log) = (w, r)"
  shows "(\<exists>x. r = Answer x \<and> rp_status x = 403 \<and> w = (a, d, log)) \<or>
    (\<exists>u peer port. url_parse (am_callback_url a) = Some u \<and> am_callback_url a \<noteq> []
       \<and> wq_host (aq_web q) = u_host u \<and> local_management_host (u_host u)
       \<and> split_host_port (aq_remote q) = Some (peer, port) \<and> loopback_literal peer)
     \<and> (if wq_path (aq_web q) = ''/authorize'' then wq_method (aq_web q) = ''GET'' else same_origin (aq_web q))
     \<and> (if auth_route (aq_web q) = Authorize then wq_method (aq_web q) \<in> {''GET'', ''HEAD''}
        else am_cred (fst w) = am_cred a \<and> snd w = (d, log)
          \<and> (wq_method (aq_web q) \<noteq> ''POST'' \<longrightarrow> w = (a, d, log)))"
proof (cases "auth_refusal (av_sdk av) (am_callback_url a) q")
  case None
  note ok = not_refused [OF None]
  have route: "if auth_route (aq_web q) = Authorize then wq_method (aq_web q) \<in> {''GET'', ''HEAD''}
      else am_cred (fst w) = am_cred a \<and> snd w = (d, log) \<and> (wq_method (aq_web q) \<noteq> ''POST'' \<longrightarrow> w = (a, d, log))"
    using management_effect [OF assms None] by (auto simp: auth_route_def Let_def)
  show ?thesis using ok(1) ok(2) ok(3) route by (cases "wq_path (aq_web q) = ''/authorize''") auto
next
  case (Some x)
  then show ?thesis using assms refusal_403 [OF Some] by (auto simp: auth_serve_def)
qed

text \<open>
  A HEAD request for the callback with one letter escaped is such a request: the guard takes it
  for a management request and lets it through, the multiplexer routes it to the callback, though
  the guard refuses every request for the callback that is not a GET.
\<close>

definition escaped_callback :: "string \<Rightarrow> auth_request" where
  "escaped_callback path = \<lparr>aq_web = \<lparr>wq_method = ''HEAD'', wq_path = path, wq_host = flow_host, wq_header = [], wq_body = []\<rparr>,
     aq_remote = flow_remote, aq_query = [], aq_ctx = (\<lambda>k. None)\<rparr>"

theorem escaped_callback_passes:
  "auth_refusal sdk (am_callback_url flow_manager) (escaped_callback ''/authorize'') \<noteq> None
   \<and> auth_refusal sdk (am_callback_url flow_manager) (escaped_callback ''/%61uthorize'') = None
   \<and> auth_route (aq_web (escaped_callback ''/%61uthorize'')) = Authorize"
proof -
  have "cli_allowed (am_callback_url flow_manager) flow_host flow_remote" by code_simp
  then have "auth_local (am_callback_url flow_manager) (escaped_callback ''/%61uthorize'')"
    by (simp add: cli_allowed_def auth_local_def cli_request_def escaped_callback_def Let_def)
  moreover have "same_origin (aq_web (escaped_callback path))" for path
    by (simp add: same_origin_def get_header_def escaped_callback_def)
  moreover have "\<not> auth_local (am_callback_url flow_manager) (escaped_callback ''/authorize'')"
    by (simp add: auth_local_def escaped_callback_def Let_def)
  ultimately show ?thesis
    by (simp add: auth_refusal_def auth_route_def escaped_callback_def Let_def)
qed

theorem auth_access_witness:
  "rp_status flow_answer = 200 \<and> am_cred flow_pending = am_cred flow_manager
   \<and> (\<exists>u. url_parse (am_callback_url flow_manager) = Some u \<and> flow_host = u_host u)"
proof -
  have s: "rp_status flow_answer = 200" by (simp add: flow_answer_def write_json_def)
  have q: "wq_path (aq_web (cli_request flow_host flow_remote ''/api/auth/login'' [])) \<noteq> ''/authorize''"
    "wq_host (aq_web (cli_request flow_host flow_remote ''/api/auth/login'' [])) = flow_host"
    "auth_route (aq_web (cli_request flow_host flow_remote ''/api/auth/login'' [])) = StartLogin"
    by (simp_all add: cli_request_def auth_route_def)
  show ?thesis using auth_access [OF flow_starts] s q by auto
qed

section \<open>The end of the service\<close>

lemma auth_shutdown_ends:
  assumes "auth_shutdown os close_err sv d = (sv', d', e)" "\<not> sv_stopped sv" "st_open (sv_store sv)"
  shows "sv_stopped sv' \<and> \<not> st_open (sv_store sv') \<and> am_callback_url (sv_manager sv') = []
    \<and> am_store (sv_manager sv') = Some (sv_store sv') \<and> ds_owner d' (st_lock (sv_store sv)) \<noteq> Some (st_pid (sv_store sv))
    \<and> sv_stop_err sv' = e"
proof -
  obtain st d1 e1 where c: "close_store os (sv_store sv) d = (st, d1, e1)" by (metis prod_cases3)
  note own = close_store_owner [OF c]
  have s: "sv' = sv\<lparr>sv_manager := (sv_manager sv)\<lparr>am_callback_url := [], am_store := Some st\<rparr>, sv_store := st,
      sv_stopped := True, sv_stop_err := e\<rparr>" "d' = d1"
    using assms(1,2) c by (auto simp: auth_shutdown_def Let_def)
  show ?thesis using own assms(3) by (auto simp: s)
qed

lemma shutdown_once: "sv_stopped sv \<Longrightarrow> auth_shutdown os close_err sv d = (sv, d, sv_stop_err sv)"
  by (simp add: auth_shutdown_def)

lemma auth_listen_keeps:
  assumes "auth_listen b sv = (sv', e)"
  shows "sv_stopped sv' = sv_stopped sv \<and> sv_store sv' = sv_store sv"
  using assms by (auto simp: auth_listen_def split: if_splits bound.splits option.splits prod.splits)

lemma join_errors_None: "join_errors es = None \<longleftrightarrow> (\<forall>e \<in> set es. e = None)"
  by (induction es) (auto simp: join_errors_def map_filter_simps Let_def split: option.splits if_splits)

lemma stopped_refuses: "auth_refusal sdk [] q \<noteq> None"
proof
  assume "auth_refusal sdk [] q = None"
  from not_refused(1) [OF this] show False by blast
qed

definition orderly :: "gerror option \<Rightarrow> wait_event \<Rightarrow> bool" where
  "orderly ctx_err ev \<longleftrightarrow>
     (case ev of
        ServeEnds e \<Rightarrow> ctx_err \<noteq> None \<and> (\<exists>x. e = Some x \<and> errors_is x ServerClosed)
      | SignalFirst shutdown_err serve_err \<Rightarrow> shutdown_err = None \<and> drop_closed serve_err = None)"

lemma auth_run_end_None: "auth_run_end ctx_err ev force_err = None \<longleftrightarrow> orderly ctx_err ev"
  by (auto simp: auth_run_end_def orderly_def join_errors_None split: wait_event.splits option.splits)

text \<open>However \<open>Run\<close> ends, the shutdown has run.\<close>

lemma auth_run_ends:
  assumes "auth_run os b serve ctx_err ev force_err close_err sv d = (sv', d', e)"
    "\<not> sv_stopped sv" "st_open (sv_store sv)"
  shows "sv_stopped sv' \<and> \<not> st_open (sv_store sv') \<and> am_callback_url (sv_manager sv') = []
    \<and> am_store (sv_manager sv') = Some (sv_store sv') \<and> ds_owner d' (st_lock (sv_store sv)) \<noteq> Some (st_pid (sv_store sv))
    \<and> (e = None \<longrightarrow> orderly ctx_err ev \<and> sv_stop_err sv' = None)"
proof -
  obtain sv1 le where l: "auth_listen b sv = (sv1, le)" by fastforce
  note k = auth_listen_keeps [OF l]
  obtain sv2 d2 where s2: "sv_stopped sv2 = sv_stopped sv" "sv_store sv2 = sv_store sv"
    "\<exists>e1. auth_shutdown os close_err sv2 d2 = (sv', d', e1)
       \<and> (e = None \<longrightarrow> e1 = None \<and> auth_run_end ctx_err ev force_err = None)"
  proof (cases le)
    case (Some x)
    then have "\<exists>e1. auth_shutdown os close_err sv1 d = (sv', d', e1) \<and> e = join_errors [Some x, e1]"
      using assms(1) l by (auto simp: auth_run_def split: prod.splits)
    then show ?thesis using that [of sv1 d] k by (auto simp: join_errors_None)
  next
    case None
    obtain a d1 where w: "serve (sv_manager sv1) d = (a, d1)" by fastforce
    let ?s = "sv1\<lparr>sv_manager := a, sv_http := True\<rparr>"
    have "\<exists>e1. auth_shutdown os close_err ?s d1 = (sv', d', e1)
        \<and> e = join_errors [auth_run_end ctx_err ev force_err, e1]"
      using assms(1) l None w by (auto simp: auth_run_def split: prod.splits)
    then show ?thesis using that [of ?s d1] k by (auto simp: join_errors_None)
  qed
  then obtain e1 where e1: "auth_shutdown os close_err sv2 d2 = (sv', d', e1)"
    "e = None \<longrightarrow> e1 = None \<and> auth_run_end ctx_err ev force_err = None" by blast
  have "\<not> sv_stopped sv2" "st_open (sv_store sv2)" using s2(1,2) assms(2,3) by simp_all
  note fin = auth_shutdown_ends [OF e1(1) this]
  show ?thesis
    using fin e1(2) s2(2) by (auto simp: auth_run_end_None)
qed

text \<open>
  C36. However \<open>Run\<close> ends, and whatever the requests and the refresh loop did meanwhile, the
  service is shut down: its store is closed and this process no longer owns the writer lock, no
  request is served any more, and shutting down again changes nothing and reports the same
  error. \<open>Run\<close> reports no error only if the server was stopped in the orderly way.
\<close>

theorem auth_run_releases:
  assumes "auth_run os b serve ctx_err ev force_err close_err sv d = (sv', d', e)"
    "\<not> sv_stopped sv" "st_open (sv_store sv)"
  shows "\<not> st_open (sv_store sv') \<and> am_store (sv_manager sv') = Some (sv_store sv')
    \<and> ds_owner d' (st_lock (sv_store sv)) \<noteq> Some (st_pid (sv_store sv))
    \<and> (\<forall>sdk q. auth_refusal sdk (am_callback_url (sv_manager sv')) q \<noteq> None)
    \<and> (\<forall>ce d2. auth_shutdown os ce sv' d2 = (sv', d2, sv_stop_err sv'))
    \<and> (e = None \<longrightarrow> orderly ctx_err ev \<and> sv_stop_err sv' = None)"
  using auth_run_ends [OF assms] stopped_refuses by (auto simp: shutdown_once)

definition sample_service :: auth_service where
  "sample_service = \<lparr>sv_addr = ''127.0.0.1:8765'', sv_manager = flow_manager, sv_store = sample_store,
     sv_listener = False, sv_http = False, sv_stopped = False, sv_stop_err = None\<rparr>"

theorem auth_run_releases_witness:
  "\<exists>sv' d' e. auth_run sample_os (BoundTo (Some (''127.0.0.1'', 8765))) (\<lambda>a d. (a, d)) (Some Canceled)
      (SignalFirst None (Some ServerClosed)) None None sample_service sample_disk = (sv', d', e)
    \<and> ds_owner d' (st_lock sample_store) \<noteq> Some (st_pid sample_store) \<and> \<not> st_open (sv_store sv')"
proof -
  obtain sv' d' e where r: "auth_run sample_os (BoundTo (Some (''127.0.0.1'', 8765))) (\<lambda>a d. (a, d)) (Some Canceled)
      (SignalFirst None (Some ServerClosed)) None None sample_service sample_disk = (sv', d', e)" by (metis prod_cases3)
  have "\<not> sv_stopped sample_service" "st_open (sv_store sample_service)"
    by (simp_all add: sample_service_def sample_store_def)
  from auth_run_releases [OF r this] r show ?thesis by (auto simp: sample_service_def)
qed

section \<open>The address that is refused\<close>

text \<open>
  An auth address with the host name: the service opens with it and the command connects to it,
  but the callback address has the number of the listener, so the host of the command's request
  never is the one the routes ask for.
\<close>

theorem localhost_login_refused:
  "auth_addr_ok ''localhost:8765'' \<and> local_login_target (default_config\<lparr>cf_auth_addr := ''localhost:8765''\<rparr>)
   \<and> \<not> auth_local (callback_of ''127.0.0.1'' 8765) \<lparr>aq_web = \<lparr>wq_method = ''POST'', wq_path = ''/api/auth/login'',
        wq_host = ''localhost:8765'', wq_header = [], wq_body = ''{}''\<rparr>, aq_remote = ''127.0.0.1:50000'',
        aq_query = [], aq_ctx = (\<lambda>k. None)\<rparr>
   \<and> call_result (Reply 403 []) = Inl (ErrMsg ''Auth service rejected the login request; check the local Auth address'')"
proof -
  have "call_result (Reply 403 []) = Inl (ErrMsg ''Auth service rejected the login request; check the local Auth address'')"
    by (simp add: call_result_def)
  moreover have "auth_addr_ok ''localhost:8765''" "local_login_target (default_config\<lparr>cf_auth_addr := ''localhost:8765''\<rparr>)"
    by code_simp+
  moreover have "\<not> auth_local (callback_of ''127.0.0.1'' 8765) \<lparr>aq_web = \<lparr>wq_method = ''POST'', wq_path = ''/api/auth/login'',
        wq_host = ''localhost:8765'', wq_header = [], wq_body = ''{}''\<rparr>, aq_remote = ''127.0.0.1:50000'',
        aq_query = [], aq_ctx = (\<lambda>k. None)\<rparr>" by code_simp
  ultimately show ?thesis by blast
qed

end
