(* ===== verification/Command.thy ===== *)
theory Command
  imports AuthServiceCorrect Gateway
begin

text \<open>
  The commands: the flags and the configuration of \<open>command.go\<close>, the three ways to run of
  \<open>coordinator.go\<close>, \<open>runCurrent\<close> of \<open>main.go\<close> and the opener of the browser of
  \<open>login_cli.go\<close>. The library that parses the command line is a parameter: which flags it
  reports as set and their values.
\<close>

section \<open>Flags and configuration\<close>

record flag =
  fl_name :: string
  fl_value :: string
  fl_env :: string

definition api_addr_flag :: flag where
  "api_addr_flag = \<lparr>fl_name = ''api-addr'', fl_value = ''127.0.0.1:8723'', fl_env = ''TRAE_API_ADDR''\<rparr>"

definition auth_addr_flag :: flag where
  "auth_addr_flag = \<lparr>fl_name = ''auth-addr'', fl_value = ''127.0.0.1:8765'', fl_env = ''TRAE_API_AUTH_ADDR''\<rparr>"

definition api_token_flag :: flag where
  "api_token_flag = \<lparr>fl_name = ''api-token'', fl_value = [], fl_env = ''TRAE_API_TOKEN''\<rparr>"

datatype command = RunBoth | RunApi | RunAuth | RunLogin

definition command_flags :: "command \<Rightarrow> flag list" where
  "command_flags c =
     (case c of
        RunBoth \<Rightarrow> [api_addr_flag, auth_addr_flag, api_token_flag]
      | RunApi \<Rightarrow> [api_addr_flag, api_token_flag]
      | RunAuth \<Rightarrow> [auth_addr_flag]
      | RunLogin \<Rightarrow> [auth_addr_flag])"

text \<open>\<open>commandConfig\<close>: \<open>set_flags\<close> are the names of \<open>LocalFlagNames\<close>.\<close>

definition command_config :: "string list \<Rightarrow> (string \<Rightarrow> string) \<Rightarrow> config" where
  "command_config set_flags val =
     (let c = default_config;
          c = (if ''api-addr'' \<in> set set_flags then c\<lparr>cf_addr := val ''api-addr''\<rparr> else c);
          c = (if ''auth-addr'' \<in> set set_flags then c\<lparr>cf_auth_addr := val ''auth-addr''\<rparr> else c)
      in (if ''api-token'' \<in> set set_flags then c\<lparr>cf_api_token := val ''api-token''\<rparr> else c))"

text \<open>The validator of the root command, and the command that opens a link on a platform.\<close>

fun spaced :: "string list \<Rightarrow> string" where
  "spaced [] = []"
| "spaced [x] = x"
| "spaced (x # xs) = x @ '' '' @ spaced xs"

definition no_args :: "string list \<Rightarrow> gerror option" where
  "no_args args = (if args \<noteq> [] then Some (ErrMsg (''unexpected arguments: ['' @ spaced args @ '']'')) else None)"

definition browser_command :: "string \<Rightarrow> string \<Rightarrow> string \<times> string list" where
  "browser_command goos link =
     (if goos = ''darwin'' then (''open'', [link])
      else if goos = ''windows'' then (''rundll32'', [''url.dll,FileProtocolHandler'', link])
      else (''xdg-open'', [link]))"

section \<open>The two components\<close>

text \<open>What the API meets: the error of its listener, and how its server ends.\<close>

record api_events =
  pe_listen :: "gerror option"
  pe_end :: wait_event

definition listen_api :: "config \<Rightarrow> gerror option \<Rightarrow> gerror option" where
  "listen_api cf listen_err = (case validate_api_config cf of Some e \<Rightarrow> Some e | None \<Rightarrow> listen_err)"

definition run_api_only :: "config \<Rightarrow> api_events \<Rightarrow> gerror option" where
  "run_api_only cf pe =
     (case listen_api cf (pe_listen pe) of
        Some e \<Rightarrow> Some (Wrap ''start API listener: '' e)
      | None \<Rightarrow> map_option (Wrap ''http server stopped: '') (wait_for_http (pe_end pe)))"

text \<open>What the auth service meets, see \<open>auth_run\<close>.\<close>

record auth_events =
  ve_bound :: bound
  ve_serve :: "auth_manager \<Rightarrow> disk \<Rightarrow> auth_manager \<times> disk"
  ve_end :: wait_event
  ve_force :: "gerror option"
  ve_close :: "gerror option"

definition run_service :: "auth_ctx \<Rightarrow> auth_events \<Rightarrow> gerror option \<Rightarrow> auth_service \<Rightarrow> disk \<Rightarrow> disk \<times> gerror option" where
  "run_service ax ve ctx_err sv d =
     (case auth_run (ax_os ax) (ve_bound ve) (ve_serve ve) ctx_err (ve_end ve) (ve_force ve) (ve_close ve) sv d of
        (sv', d', e) \<Rightarrow> (d', e))"

definition run_auth_only ::
  "auth_ctx \<Rightarrow> config \<Rightarrow> gerror + string \<Rightarrow> nat \<Rightarrow> auth_events \<Rightarrow> gerror option \<Rightarrow> disk \<Rightarrow> disk \<times> gerror option" where
  "run_auth_only ax cf config_dir pid ve ctx_err d =
     (case new_auth_service ax (cf_auth_addr cf) config_dir pid d of
        (d', Inl e) \<Rightarrow> (d', Some e)
      | (d', Inr sv) \<Rightarrow> run_service ax ve ctx_err sv d')"

text \<open>
  \<open>runCombined\<close>: the component that stops first ends the other. \<open>service_err\<close> is the error of
  the context the two share when the auth service ends, and \<open>ctx_err\<close> that of the caller's.
\<close>

definition run_combined ::
  "auth_ctx \<Rightarrow> config \<Rightarrow> gerror + string \<Rightarrow> nat \<Rightarrow> auth_events \<Rightarrow> api_events \<Rightarrow> bool
    \<Rightarrow> gerror option \<Rightarrow> gerror option \<Rightarrow> disk \<Rightarrow> disk \<times> gerror option" where
  "run_combined ax cf config_dir pid ve pe api_first service_err ctx_err d =
     (case new_auth_service ax (cf_auth_addr cf) config_dir pid d of
        (d', Inl e) \<Rightarrow> (d', Some e)
      | (d', Inr sv) \<Rightarrow>
          (case run_service ax ve service_err sv d' of
             (d2, auth_err) \<Rightarrow>
               (let api = (''API'', run_api_only cf pe); auth = (''Auth'', auth_err) in
                (d2, if api_first then combined_result ctx_err api auth else combined_result ctx_err auth api))))"

section \<open>Properties\<close>

lemma command_config_auth_url: "cf_auth_url (command_config set_flags val) = cf_auth_url default_config"
  by (simp add: command_config_def Let_def)

text \<open>A flag the command does not have keeps the value of the default configuration.\<close>

lemma command_config_other:
  assumes "set set_flags \<subseteq> fl_name ` set (command_flags c)"
  shows "c = RunLogin \<or> c = RunAuth \<Longrightarrow>
      command_config set_flags val = default_config\<lparr>cf_auth_addr := cf_auth_addr (command_config set_flags val)\<rparr>"
    "c = RunApi \<Longrightarrow> cf_auth_addr (command_config set_flags val) = cf_auth_addr default_config"
  using assms by (auto simp: command_config_def command_flags_def api_addr_flag_def auth_addr_flag_def
      api_token_flag_def Let_def subset_iff)

lemma combined_result_None:
  "combined_result ctx_err (n1, e1) (n2, e2) = None \<longleftrightarrow> e1 = None \<and> e2 = None \<and> ctx_err \<noteq> None"
  by (cases e1; cases e2) (auto simp: combined_result_def map_filter_simps Let_def)

lemma new_auth_service_open:
  assumes "new_auth_service ax addr config_dir pid d = (d', Inr sv)"
  shows "\<not> sv_stopped sv \<and> st_open (sv_store sv) \<and> st_pid (sv_store sv) = pid
    \<and> ds_owner d' = (ds_owner d)(st_lock (sv_store sv) \<mapsto> pid)"
proof -
  obtain d1 st r k where o: "open_credential_store (ax_os ax) (ax_codec ax) config_dir pid d = (d1, Inr st)"
    and l: "load (ax_os ax) (ax_codec ax) (st_path st) d1 = (d', k)"
    and m: "open_manager ax config_dir pid d = (d', Inr r)" "am_store r = Some st"
    using assms
    by (auto simp: new_auth_service_def open_manager_def restored_manager_def split: if_splits prod.splits sum.splits option.splits)
  have "ds_owner d' = ds_owner d1" using keepsD [OF keeps_owner_load l] .
  then show ?thesis using open_store_owner [OF o] m assms by (auto simp: new_auth_service_def split: if_splits option.splits)
qed

lemma new_auth_service_fails:
  assumes "new_auth_service ax addr config_dir pid d = (d', Inl e)"
  shows "ds_owner d' = ds_owner d"
proof (cases "auth_addr_ok (auth_address addr)")
  case False
  then show ?thesis using assms by (simp add: new_auth_service_def)
next
  case True
  obtain d1 r where o: "open_credential_store (ax_os ax) (ax_codec ax) config_dir pid d = (d1, r)" by fastforce
  note own = open_store_owner [OF o]
  show ?thesis
  proof (cases r)
    case (Inl x)
    then show ?thesis using assms True o own by (auto simp: new_auth_service_def open_manager_def)
  next
    case (Inr st)
    obtain d2 k where l: "load (ax_os ax) (ax_codec ax) (st_path st) d1 = (d2, k)" by fastforce
    obtain st' d3 x where c: "close_store (ax_os ax) st d2 = (st', d3, x)" by (metis prod_cases3)
    have "d' = d3" using assms(1) True o Inr l c
      by (auto simp: new_auth_service_def open_manager_def restored_manager_def split: sum.splits if_splits)
    moreover have own2: "ds_owner d2 = (ds_owner d)(st_lock st \<mapsto> pid)" "ds_owner d (st_lock st) = None"
      "st_open st" "st_pid st = pid"
      using own Inr keepsD [OF keeps_owner_load l] by auto
    moreover have "ds_owner d3 = (ds_owner d2)(st_lock st := None)"
      using close_store_owner [OF c] own2 by simp
    ultimately show ?thesis by (simp add: fun_upd_idem)
  qed
qed

text \<open>The processes that hold no lock, and servings that take none: only opening a store does.\<close>

definition holds_no_lock :: "nat \<Rightarrow> disk \<Rightarrow> bool" where
  "holds_no_lock pid d \<longleftrightarrow> (\<forall>l. ds_owner d l \<noteq> Some pid)"

definition takes_no_lock :: "nat \<Rightarrow> (auth_manager \<Rightarrow> disk \<Rightarrow> auth_manager \<times> disk) \<Rightarrow> bool" where
  "takes_no_lock pid serve \<longleftrightarrow> (\<forall>a d l. ds_owner (snd (serve a d)) l = Some pid \<longrightarrow> ds_owner d l = Some pid)"

lemma auth_shutdown_locks:
  assumes "auth_shutdown os close_err sv d = (sv', d', e)"
  shows "ds_owner d' l = Some pid \<Longrightarrow> ds_owner d l = Some pid"
proof -
  obtain st d1 e1 where c: "close_store os (sv_store sv) d = (st, d1, e1)" by (metis prod_cases3)
  have "d' = (if sv_stopped sv then d else d1)" using assms c by (auto simp: auth_shutdown_def Let_def)
  then show "ds_owner d' l = Some pid \<Longrightarrow> ds_owner d l = Some pid"
    using close_store_owner [OF c] by (auto split: if_splits)
qed

lemma run_service_ends:
  assumes "run_service ax ve ctx_err sv d = (d', e)" "\<not> sv_stopped sv" "st_open (sv_store sv)"
  shows "ds_owner d' (st_lock (sv_store sv)) \<noteq> Some (st_pid (sv_store sv)) \<and> (e = None \<longrightarrow> orderly ctx_err (ve_end ve))
    \<and> (takes_no_lock pid (ve_serve ve) \<longrightarrow> ds_owner d' l = Some pid \<longrightarrow> ds_owner d l = Some pid)"
proof -
  obtain sv' where r: "auth_run (ax_os ax) (ve_bound ve) (ve_serve ve) ctx_err (ve_end ve) (ve_force ve) (ve_close ve) sv d
      = (sv', d', e)"
    using assms(1) by (auto simp: run_service_def split: prod.splits)
  obtain sv1 le where li: "auth_listen (ve_bound ve) sv = (sv1, le)" by fastforce
  obtain a d1 where w: "ve_serve ve (sv_manager sv1) d = (a, d1)" by fastforce
  have "\<exists>sv2 d2 e2. auth_shutdown (ax_os ax) (ve_close ve) sv2 d2 = (sv', d', e2) \<and> (d2 = d \<or> d2 = d1)"
    using r by (cases le) (fastforce simp: auth_run_def li w split: prod.splits)+
  then obtain sv2 d2 e2 where sd: "auth_shutdown (ax_os ax) (ve_close ve) sv2 d2 = (sv', d', e2)" "d2 = d \<or> d2 = d1" by blast
  have "ds_owner d l = Some pid" if "takes_no_lock pid (ve_serve ve)" "ds_owner d' l = Some pid"
  proof -
    have "ds_owner d1 l = Some pid \<Longrightarrow> ds_owner d l = Some pid"
      using that(1) w unfolding takes_no_lock_def by (metis snd_conv)
    then show ?thesis using auth_shutdown_locks [OF sd(1) that(2)] sd(2) by auto
  qed
  then show ?thesis using auth_run_ends [OF r assms(2,3)] by blast
qed

text \<open>
  C37. Running both components. However it ends, this process does not hold the lock of the
  store that it opened, and no other lock that serving the requests did not take; when the
  store does not open, every lock is held as before. No error is reported only if the auth
  address is a loopback address and the API configuration is accepted, both components have
  stopped without an error, the auth service in the orderly way, and the caller's context has
  ended.
\<close>

theorem run_combined_ends:
  assumes "run_combined ax cf config_dir pid ve pe api_first service_err ctx_err d = (d', e)" "holds_no_lock pid d"
  shows "(case new_auth_service ax (cf_auth_addr cf) config_dir pid d of
        (d1, Inl x) \<Rightarrow> ds_owner d' = ds_owner d
      | (d1, Inr sv) \<Rightarrow> ds_owner d' (st_lock (sv_store sv)) \<noteq> Some pid)
    \<and> (takes_no_lock pid (ve_serve ve) \<longrightarrow> holds_no_lock pid d')
    \<and> (e = None \<longrightarrow> auth_addr_ok (auth_address (cf_auth_addr cf)) \<and> validate_api_config cf = None
        \<and> run_api_only cf pe = None \<and> orderly service_err (ve_end ve) \<and> ctx_err \<noteq> None)"
proof -
  obtain d1 r where n: "new_auth_service ax (cf_auth_addr cf) config_dir pid d = (d1, r)" by fastforce
  show ?thesis
  proof (cases r)
    case (Inl x)
    then have "d' = d1" "e = Some x" "ds_owner d1 = ds_owner d"
      using new_auth_service_fails [of ax _ config_dir pid d d1 x] n assms(1) by (auto simp: run_combined_def)
    then show ?thesis using n Inl assms(2) by (simp add: holds_no_lock_def)
  next
    case (Inr sv)
    note opened = new_auth_service_open [OF n [unfolded Inr]]
    obtain d2 ae where s: "run_service ax ve service_err sv d1 = (d2, ae)" by fastforce
    have ends: "ds_owner d2 (st_lock (sv_store sv)) \<noteq> Some pid \<and> (ae = None \<longrightarrow> orderly service_err (ve_end ve))"
      "takes_no_lock pid (ve_serve ve) \<Longrightarrow> ds_owner d2 l = Some pid \<Longrightarrow> ds_owner d1 l = Some pid" for l
      using run_service_ends [OF s] opened by auto
    have free: "takes_no_lock pid (ve_serve ve) \<Longrightarrow> holds_no_lock pid d2"
      using ends opened assms(2) unfolding holds_no_lock_def by (metis fun_upd_apply)
    have e: "d' = d2" "e = None \<longleftrightarrow> run_api_only cf pe = None \<and> ae = None \<and> ctx_err \<noteq> None"
      using assms(1) n Inr s by (auto simp: run_combined_def combined_result_None Let_def split: if_splits)
    have "run_api_only cf pe = None \<Longrightarrow> validate_api_config cf = None"
      by (auto simp: run_api_only_def listen_api_def split: option.splits)
    moreover have "auth_addr_ok (auth_address (cf_auth_addr cf))"
      using n Inr by (auto simp: new_auth_service_def split: if_splits)
    ultimately show ?thesis using ends(1) e free n Inr by auto
  qed
qed

theorem run_combined_ends_witness:
  "holds_no_lock 7 (fst (run_combined sample_ax default_config (Inr ''/h'') 7
      \<lparr>ve_bound = BoundTo (Some (''127.0.0.1'', 8765)), ve_serve = (\<lambda>a d. (a, d)), ve_end = SignalFirst None (Some ServerClosed),
        ve_force = None, ve_close = None\<rparr>
      \<lparr>pe_listen = None, pe_end = SignalFirst None (Some ServerClosed)\<rparr> True (Some Canceled) (Some Canceled)
      (sample_disk\<lparr>ds_owner := (\<lambda>l. None)\<rparr>)))"
proof -
  let ?ve = "\<lparr>ve_bound = BoundTo (Some (''127.0.0.1'', 8765)), ve_serve = (\<lambda>a d. (a, d)), ve_end = SignalFirst None (Some ServerClosed),
        ve_force = None, ve_close = None\<rparr>"
  let ?pe = "\<lparr>pe_listen = None, pe_end = SignalFirst None (Some ServerClosed)\<rparr>"
  obtain d' e where r: "run_combined sample_ax default_config (Inr ''/h'') 7 ?ve ?pe True (Some Canceled) (Some Canceled)
      (sample_disk\<lparr>ds_owner := (\<lambda>l. None)\<rparr>) = (d', e)" by fastforce
  have "holds_no_lock 7 (sample_disk\<lparr>ds_owner := (\<lambda>l. None)\<rparr>)" by (simp add: holds_no_lock_def)
  from run_combined_ends [OF r this] have "holds_no_lock 7 d'" by (simp add: takes_no_lock_def)
  then show ?thesis by (simp only: r fst_conv)
qed

text \<open>The defaults of the flags are those of the configuration.\<close>

lemma flag_defaults:
  "fl_value api_addr_flag = cf_addr default_config" "fl_value auth_addr_flag = cf_auth_addr default_config"
  "fl_value api_token_flag = cf_api_token default_config"
  by (simp_all add: api_addr_flag_def auth_addr_flag_def api_token_flag_def default_config_def)

end
