(* ===== verification/GateMachine.thy ===== *)
theory GateMachine
  imports Gateway
begin

text \<open>
  The slots of the gateway: the channel \<open>s.slots\<close> of \<open>newServer\<close> under requests that arrive,
  wait, give up, run and leave in any order. \<open>execute\<close> takes a slot through \<open>acquireGate\<close> and
  gives it back when it returns, however it returns.
\<close>

datatype gate_phase = Outside | Queued | Holding

record gate_state =
  gs_used :: nat
  gs_phase :: "nat \<Rightarrow> gate_phase"

text \<open>\<open>newServer\<close> makes the channel with the configured capacity.\<close>

definition gate_capacity :: "config \<Rightarrow> nat" where
  "gate_capacity cf = nat (cf_max_concurrent cf)"

definition gate_init :: "gate_state \<Rightarrow> bool" where
  "gate_init s \<longleftrightarrow> gs_used s = 0 \<and> gs_phase s = (\<lambda>i. Outside)"

inductive gate_step :: "nat \<Rightarrow> gate_state \<Rightarrow> gate_state \<Rightarrow> bool" for cap where
  gate_arrives: "gs_phase s i = Outside \<Longrightarrow> gate_step cap s (s\<lparr>gs_phase := (gs_phase s)(i := Queued)\<rparr>)"
| gate_enters: "gs_phase s i = Queued \<Longrightarrow> gs_used s < cap \<Longrightarrow> acquire_gate ctx_err GateSlot = None
    \<Longrightarrow> gate_step cap s (s\<lparr>gs_used := Suc (gs_used s), gs_phase := (gs_phase s)(i := Holding)\<rparr>)"
| gate_gives_up: "gs_phase s i = Queued \<Longrightarrow> acquire_gate ctx_err ev = Some e
    \<Longrightarrow> gate_step cap s (s\<lparr>gs_phase := (gs_phase s)(i := Outside)\<rparr>)"
| gate_leaves: "gs_phase s i = Holding
    \<Longrightarrow> gate_step cap s (s\<lparr>gs_used := gs_used s - 1, gs_phase := (gs_phase s)(i := Outside)\<rparr>)"

definition holders :: "gate_state \<Rightarrow> nat set" where
  "holders s = {i. gs_phase s i = Holding}"

definition gate_inv :: "nat \<Rightarrow> gate_state \<Rightarrow> bool" where
  "gate_inv cap s \<longleftrightarrow> finite (holders s) \<and> card (holders s) = gs_used s \<and> gs_used s \<le> cap"

lemma holders_upd [simp]:
  "holders (s\<lparr>gs_used := n, gs_phase := (gs_phase s)(i := p)\<rparr>)
    = (if p = Holding then insert i (holders s) else holders s - {i})"
  "holders (s\<lparr>gs_phase := (gs_phase s)(i := p)\<rparr>) = (if p = Holding then insert i (holders s) else holders s - {i})"
  by (auto simp: holders_def)

lemma gate_inv_step: "gate_inv cap s \<Longrightarrow> gate_step cap s t \<Longrightarrow> gate_inv cap t"
proof (erule gate_step.cases, goal_cases)
  case (1 s' i)
  then have "i \<notin> holders s" by (simp add: holders_def)
  then show ?case using 1 by (simp add: gate_inv_def)
next
  case (2 s' i c)
  then have "i \<notin> holders s" by (simp add: holders_def)
  then show ?case using 2 by (simp add: gate_inv_def)
next
  case (3 s' i c ev e)
  then have "i \<notin> holders s" by (simp add: holders_def)
  then show ?case using 3 by (simp add: gate_inv_def)
next
  case (4 s' i)
  then have "i \<in> holders s" by (simp add: holders_def)
  then show ?case using 4 by (auto simp: gate_inv_def)
qed

interpretation gate_machine: inductive_invariant gate_init "gate_step cap" "gate_inv cap" for cap
proof unfold_locales
  show "gate_init s \<Longrightarrow> gate_inv cap s" for s by (simp add: gate_init_def gate_inv_def holders_def)
qed (rule gate_inv_step)

text \<open>
  C38. The bound on concurrent requests. Whatever requests arrive, give up and leave in
  whatever order, at most the configured number of them hold a slot, and no slot is ever lost
  or made up: those taken are exactly those held, so that a waiting request can enter whenever
  fewer than the configured number run.
\<close>

theorem slots_bounded:
  assumes "reaches gate_init (gate_step (gate_capacity cf)) s"
  shows "finite (holders s) \<and> card (holders s) \<le> gate_capacity cf \<and> gs_used s = card (holders s)
    \<and> (\<forall>i. gs_phase s i = Queued \<and> card (holders s) < gate_capacity cf \<longrightarrow>
         gate_step (gate_capacity cf) s (s\<lparr>gs_used := Suc (gs_used s), gs_phase := (gs_phase s)(i := Holding)\<rparr>))"
proof -
  have i: "gate_inv (gate_capacity cf) s" by (rule gate_machine.reachable_inv [OF assms])
  have "acquire_gate None GateSlot = None" by (simp add: acquire_gate_def)
  then show ?thesis using i gate_enters [of s _ "gate_capacity cf" None] by (auto simp: gate_inv_def)
qed

definition sample_gate :: gate_state where
  "sample_gate = \<lparr>gs_used = 1, gs_phase = (\<lambda>i. if i = 0 then Holding else Outside)\<rparr>"

theorem slots_bounded_witness: "card (holders sample_gate) \<le> 2 \<and> gs_used sample_gate = card (holders sample_gate)"
proof -
  let ?cap = "gate_capacity default_config"
  have cap: "?cap = 2" by (simp add: gate_capacity_def default_config_def)
  define s0 s1 :: gate_state where "s0 = \<lparr>gs_used = 0, gs_phase = (\<lambda>i. Outside)\<rparr>"
    and "s1 = s0\<lparr>gs_phase := (gs_phase s0)(0 := Queued)\<rparr>"
  have "reaches gate_init (gate_step ?cap) s0" by (rule reaches_init) (simp add: gate_init_def s0_def)
  moreover have "gate_step ?cap s0 s1" unfolding s1_def by (rule gate_arrives) (simp add: s0_def)
  ultimately have r: "reaches gate_init (gate_step ?cap) s1" by (rule reaches_step)
  have "gate_step ?cap s1 (s1\<lparr>gs_used := Suc (gs_used s1), gs_phase := (gs_phase s1)(0 := Holding)\<rparr>)"
    by (rule gate_enters [where ctx_err = None]) (simp_all add: s1_def s0_def cap acquire_gate_def)
  moreover have "s1\<lparr>gs_used := Suc (gs_used s1), gs_phase := (gs_phase s1)(0 := Holding)\<rparr> = sample_gate"
    by (simp add: s1_def s0_def sample_gate_def fun_eq_iff)
  ultimately have "reaches gate_init (gate_step ?cap) sample_gate" using reaches_step [OF r] by simp
  from slots_bounded [OF this] show ?thesis by (simp add: cap)
qed

end
