(* ===== verification/AuthGet.thy ===== *)
theory AuthGet
  imports AuthManagerCorrect
begin

text \<open>
  The whole of \<open>get\<close> when no other section comes between its own, and the refresh loop of
  \<open>auth_service.go\<close> over it. The loop of \<open>get\<close> returns after at most one exchange, unless the
  fresh credential is no longer good when it looks again; then it sends another.
\<close>

section \<open>The loop\<close>

text \<open>
  What a call meets in its rounds: the clock of each section and the readings of the context;
  \<open>gw_done\<close> is the context's error once it has ended, if it ends.
\<close>

record get_world =
  gw_enter :: "nat \<Rightarrow> clock"
  gw_exchange :: "nat \<Rightarrow> int"
  gw_finish :: "nat \<Rightarrow> clock"
  gw_ctx :: "nat \<Rightarrow> ctx_errs"
  gw_done :: "gerror option"

type_synonym got = "credential \<times> 64 word \<times> gerror option"

text \<open>
  \<open>None\<close> is that the call does not return. A call that finds an exchange in flight waits for
  the one who made it, who does not come when nothing else runs, or the end of its context.
\<close>

partial_function (option) get_alone ::
  "auth_ctx \<Rightarrow> get_world \<Rightarrow> nat \<Rightarrow> auth_manager \<Rightarrow> disk \<Rightarrow> http_request list
    \<Rightarrow> (auth_manager \<times> disk \<times> http_request list \<times> got) option" where
  "get_alone ax gw k a d log =
     (case get_enter ax (gw_enter gw k) a d of
        (a1, d1, Got c g e) \<Rightarrow> Some (a1, d1, log, c, g, e)
      | (a1, d1, Waits ch) \<Rightarrow> map_option (\<lambda>e. (a1, d1, log, empty_credential, 0, Some e)) (gw_done gw)
      | (a1, d1, Exchanges old g ch) \<Rightarrow>
          (case exchange (ax_env ax) (ax_config ax) (gw_exchange gw k) old log of
             (log1, answer) \<Rightarrow>
               (case get_finish ax (gw_finish gw k) (gw_ctx gw k) old g answer a1 d1 of
                  (a2, d2, Returns c g' e) \<Rightarrow> Some (a2, d2, log1, c, g', e)
                | (a2, d2, Again) \<Rightarrow> get_alone ax gw (Suc k) a2 d2 log1)))"

section \<open>The refresh loop\<close>

text \<open>What \<open>refreshIfNeeded\<close> logs: that the disk is not certain, or that the refresh failed.\<close>

datatype refresh_warning = Unconfirmed gerror | RefreshFailed gerror

definition refresh_if_needed ::
  "auth_ctx \<Rightarrow> get_world \<Rightarrow> int \<Rightarrow> gerror option \<Rightarrow> auth_manager \<Rightarrow> disk \<Rightarrow> http_request list
    \<Rightarrow> (auth_manager \<times> disk \<times> http_request list \<times> refresh_warning option) option" where
  "refresh_if_needed ax gw now ctx_err a d log =
     (if \<not> refresh_needed now a then Some (a, d, log, None)
      else
        (case get_alone ax gw 0 a d log of
           None \<Rightarrow> None
         | Some (a', d', log', c, g, e) \<Rightarrow>
             Some (a', d', log',
               case (e, ctx_err) of
                 (Some x, None) \<Rightarrow> Some (if am_uncertain a' then Unconfirmed x else RefreshFailed x)
               | _ \<Rightarrow> None)))"

text \<open>
  \<open>refreshLoop\<close> until its context ends: a call at once and one for each tick of thirty seconds,
  each with what it meets. The warnings are collected.
\<close>

fun refresh_loop ::
  "auth_ctx \<Rightarrow> (get_world \<times> int \<times> gerror option) list \<Rightarrow> auth_manager \<Rightarrow> disk \<Rightarrow> http_request list
    \<Rightarrow> (auth_manager \<times> disk \<times> http_request list \<times> refresh_warning list) option" where
  "refresh_loop ax [] a d log = Some (a, d, log, [])"
| "refresh_loop ax ((gw, now, ctx_err) # ticks) a d log =
     (case refresh_if_needed ax gw now ctx_err a d log of
        None \<Rightarrow> None
      | Some (a', d', log', w) \<Rightarrow>
          map_option (\<lambda>(a2, d2, log2, ws). (a2, d2, log2, (case w of None \<Rightarrow> ws | Some x \<Rightarrow> x # ws)))
            (refresh_loop ax ticks a' d' log'))"

text \<open>
  While the credential is good for more than two minutes at every tick, or once a refresh has
  failed, the loop sends and changes nothing.
\<close>

lemma refresh_loop_rests:
  assumes "\<And>gw now e. (gw, now, e) \<in> set ticks \<Longrightarrow> \<not> refresh_needed now a"
  shows "refresh_loop ax ticks a d log = Some (a, d, log, [])"
  using assms
proof (induction ticks)
  case (Cons t ticks)
  obtain gw now e where t: "t = (gw, now, e)" by (cases t)
  have "\<not> refresh_needed now a" using Cons.prems t by force
  moreover have "refresh_loop ax ticks a d log = Some (a, d, log, [])"
    using Cons.IH Cons.prems by (meson list.set_intros(2))
  ultimately show ?case using t by (simp add: refresh_if_needed_def)
qed simp

lemma refresh_loop_failed: "am_refresh_err a \<noteq> None \<Longrightarrow> refresh_loop ax ticks a d log = Some (a, d, log, [])"
  by (rule refresh_loop_rests) (simp add: refresh_needed_def)

section \<open>The rounds\<close>

lemma enter_generation:
  assumes "get_enter ax now a d = (a1, d1, Exchanges old g ch)"
  shows "g = am_generation a1 \<and> am_refresh_err a1 = None"
  using assms
  by (auto simp: get_enter_def get_fence_def start_exchange_def Let_def split: if_splits option.splits prod.splits sum.splits)

lemma unpublished_error: "save_reconciled ax sto c d = (d', False, e) \<Longrightarrow> e \<noteq> None"
  by (auto simp: save_reconciled_def reconcile_published_def split: option.splits prod.splits sum.splits if_splits)

text \<open>A round that ends with another look has published the credential of the answer.\<close>

lemma finish_again:
  assumes "get_finish ax now cx old g answer a d = (a', d', Again)" "am_generation a = g"
  shows "\<exists>fresh. answer = Inr fresh \<and> am_cred a' = fresh\<lparr>cr_refresh_pending := False\<rparr> \<and> am_refreshed_at a' = now 0
    \<and> am_refresh_err a' = None \<and> am_refreshing a' = None \<and> am_generation a' = g"
proof -
  obtain b e oc where c: "finish_current ax now cx old answer a d = (b, e, oc)" by (metis prod_cases3)
  have oc: "oc_err oc = None" "a' = b\<lparr>am_refreshing := None\<rparr>"
    using assms c by (auto simp: get_finish_def split: option.splits if_splits)
  obtain fresh where fresh: "cx 0 = None" "answer = Inr fresh"
  proof -
    have "oc_err oc \<noteq> None" if "finish_failed ax now old x a d = (b, e, oc)" for x
      using that by (auto simp: finish_failed_def split: if_splits prod.splits)
    then show thesis using that c oc(1)
      by (cases answer; cases "cx 0") (auto simp: finish_current_def split: if_splits)
  qed
  have "finish_answered ax now old (fresh\<lparr>cr_refresh_pending := False\<rparr>) a d = (b, e, oc)"
    using c fresh by (simp add: finish_current_def)
  then have "b = a\<lparr>am_cred := fresh\<lparr>cr_refresh_pending := False\<rparr>, am_refreshed_at := now 0, am_refresh_err := None,
      am_uncertain := False\<rparr>"
    using oc(1) by (auto simp: finish_answered_def split: prod.splits if_splits dest: unpublished_error)
  then show ?thesis using fresh(2) oc(2) assms(2) by simp
qed

text \<open>The fresh credential is good for the next look.\<close>

definition still_good :: "clock \<Rightarrow> clock \<Rightarrow> credential \<Rightarrow> bool" where
  "still_good before now c \<longleftrightarrow> cr_expires_at c = 0 \<or> now 2 < cr_expires_at c \<and> now 3 - before 0 < minute"

lemma enter_after_refresh:
  assumes "am_refresh_err a = None" "am_refreshed_at a = before 0" "still_good before now (am_cred a)"
  shows "\<exists>c g e. get_enter ax now a d = (a, d, Got c g e)"
  using assms by (auto simp: get_enter_def get_fresh_def still_good_def)

text \<open>
  C39. A call of \<open>get\<close> that runs alone returns or the server has sent a credential that does not
  last. In whatever round, when no exchange is in flight, it returns in this round, or after one
  exchange in the next; the only other case is that the exchange of this round succeeded and its
  credential had already expired when the call looked at it again, or the look came a minute
  later. Nothing else keeps it going: no error of the exchange or of the disk, no end of the
  context and no change of the clock.
\<close>

theorem get_alone_returns:
  assumes "am_refreshing a = None"
  shows "(\<exists>a' d' got log'. get_alone ax gw n a d log = Some (a', d', log', got)
      \<and> (log' = log \<or> (\<exists>old. log' = fst (exchange (ax_env ax) (ax_config ax) (gw_exchange gw n) old log))))
    \<or> (\<exists>old g ch a1 d1 log1 fresh. get_enter ax (gw_enter gw n) a d = (a1, d1, Exchanges old g ch)
      \<and> exchange (ax_env ax) (ax_config ax) (gw_exchange gw n) old log = (log1, Inr fresh)
      \<and> \<not> still_good (gw_finish gw n) (gw_enter gw (Suc n)) fresh)" (is "?returns \<or> ?expired")
proof (rule disjCI)
  assume lasting: "\<not> ?expired"
  obtain a1 d1 r where en: "get_enter ax (gw_enter gw n) a d = (a1, d1, r)" by (metis prod_cases3)
  show ?returns
  proof (cases r)
    case (Got c g e)
    then show ?thesis using en by (subst get_alone.simps) auto
  next
    case (Waits ch)
    then show ?thesis using en assms
      by (auto simp: get_enter_def get_fence_def start_exchange_def Let_def split: if_splits option.splits prod.splits sum.splits)
  next
    case (Exchanges old g ch)
    obtain log1 answer where x: "exchange (ax_env ax) (ax_config ax) (gw_exchange gw n) old log = (log1, answer)" by fastforce
    obtain a2 d2 fin where f: "get_finish ax (gw_finish gw n) (gw_ctx gw n) old g answer a1 d1 = (a2, d2, fin)"
      by (metis prod_cases3)
    note enter = en [unfolded Exchanges]
    show ?thesis
    proof (cases fin)
      case (Returns c g' e)
      then show ?thesis using enter x f by (subst get_alone.simps) (auto intro!: exI [of _ old])
    next
      case Again
      obtain fresh where fresh: "answer = Inr fresh" "am_cred a2 = fresh\<lparr>cr_refresh_pending := False\<rparr>"
        "am_refreshed_at a2 = gw_finish gw n 0" "am_refresh_err a2 = None"
        using finish_again [OF f [unfolded Again]] enter_generation [OF enter] by blast
      have "still_good (gw_finish gw n) (gw_enter gw (Suc n)) fresh" using lasting enter x fresh(1) by blast
      then have "still_good (gw_finish gw n) (gw_enter gw (Suc n)) (am_cred a2)"
        using fresh(2) by (simp add: still_good_def)
      from enter_after_refresh [OF fresh(4,3) this] obtain c g' e where
        "get_enter ax (gw_enter gw (Suc n)) a2 d2 = (a2, d2, Got c g' e)" by blast
      then have "get_alone ax gw (Suc n) a2 d2 log1 = Some (a2, d2, log1, c, g', e)" by (subst get_alone.simps) simp
      then have "get_alone ax gw n a d log = Some (a2, d2, log1, c, g', e)"
        using enter x f Again by (subst get_alone.simps) simp
      then show ?thesis using x by (auto intro!: exI [of _ old])
    qed
  qed
qed

definition sample_gets :: get_world where
  "sample_gets = \<lparr>gw_enter = (\<lambda>k. due), gw_exchange = (\<lambda>k. 0), gw_finish = (\<lambda>k i. 0), gw_ctx = (\<lambda>k i. None), gw_done = None\<rparr>"

theorem get_alone_returns_witness:
  "\<exists>a' d' got log'. get_alone sample_ax sample_gets 0 sample_manager sample_disk [] = Some (a', d', log', got)"
proof -
  have x: "snd (exchange sample_auth_env default_config 0 sample_pending []) = Inr (sample_pending\<lparr>cr_token := ''x'', cr_expires_at := 0\<rparr>)"
    by code_simp
  have "still_good (gw_finish sample_gets 0) (gw_enter sample_gets (Suc 0)) fresh"
    if "get_enter sample_ax (gw_enter sample_gets 0) sample_manager sample_disk = (a1, d1, Exchanges old g ch)"
      "exchange (ax_env sample_ax) (ax_config sample_ax) (gw_exchange sample_gets 0) old [] = (log1, Inr fresh)"
    for old g ch a1 d1 log1 fresh
  proof -
    have "old = sample_pending" using that(1) fenced_enters by (simp add: sample_gets_def)
    then have "fresh = sample_pending\<lparr>cr_token := ''x'', cr_expires_at := 0\<rparr>"
      using that(2) x by (simp add: sample_gets_def sample_ax_def)
    then show ?thesis by (simp add: still_good_def)
  qed
  then have lasting: "\<not> (\<exists>old g ch a1 d1 log1 fresh.
      get_enter sample_ax (gw_enter sample_gets 0) sample_manager sample_disk = (a1, d1, Exchanges old g ch)
      \<and> exchange (ax_env sample_ax) (ax_config sample_ax) (gw_exchange sample_gets 0) old [] = (log1, Inr fresh)
      \<and> \<not> still_good (gw_finish sample_gets 0) (gw_enter sample_gets (Suc 0)) fresh)" by blast
  have "am_refreshing sample_manager = None" by (simp add: sample_manager_def new_auth_manager_def)
  from get_alone_returns [OF this, of sample_ax sample_gets 0 sample_disk "[]"] lasting show ?thesis by blast
qed

text \<open>
  And that case does keep it going: when the credential of the answer has expired by the clock of the
  next round, that round sends another exchange.
\<close>

theorem expired_refresh_asks_again:
  assumes "get_finish ax now cx old g answer a d = (a1, d1, Again)" "am_generation a = g"
    and "cr_expires_at (am_cred a1) \<noteq> 0" "\<forall>k. cr_expires_at (am_cred a1) \<le> now2 k" "cr_token (am_cred a1) \<noteq> []"
    and "am_store a1 = Some st" "save (ax_os ax) (ax_codec ax) st ((am_cred a1)\<lparr>cr_refresh_pending := True\<rparr>) d1 = (d2, Inr ())"
  shows "\<exists>a2 ch. get_enter ax now2 a1 d1 = (a2, d2, Exchanges ((am_cred a1)\<lparr>cr_refresh_pending := True\<rparr>) g ch)"
proof -
  have f: "am_refresh_err a1 = None" "am_refreshing a1 = None" "am_generation a1 = g"
    using finish_again [OF assms(1,2)] by auto
  have "\<not> get_fresh now2 a1"
    using assms(3) assms(4) [rule_format, of 1] assms(4) [rule_format, of 2]
    by (simp add: get_fresh_def minute_def second_def)
  then have "get_enter ax now2 a1 d1 = get_fence ax now2 a1 d1"
    using assms(5) f(1,2) by (simp add: get_enter_def)
  then show ?thesis using assms(6,7) f(3) by (simp add: get_fence_def start_exchange_def Let_def)
qed

text \<open>
  A fence that cannot be written is not reported while the old credential is good: the refresh
  loop sends nothing and warns of nothing (the second gap of \<open>docs/KNOWN_ISSUES.md\<close>).
\<close>

theorem fence_failure_silent:
  assumes "refresh_needed now a" "\<not> get_fresh (gw_enter gw 0) a" "am_refreshing a = None" "am_store a = Some st"
    and "save (ax_os ax) (ax_codec ax) st ((am_cred a)\<lparr>cr_refresh_pending := True\<rparr>) d = (d', Inl e)"
    and "unexpired (gw_enter gw 0 5) (am_cred a)"
  shows "refresh_if_needed ax gw now ctx_err a d log = Some (a\<lparr>am_refreshed_at := gw_enter gw 0 4\<rparr>, d', log, None)"
proof -
  have "cr_token (am_cred a) \<noteq> []" "am_refresh_err a = None" using assms(1) by (simp_all add: refresh_needed_def)
  then have "get_enter ax (gw_enter gw 0) a d = get_fence ax (gw_enter gw 0) a d"
    using assms(2,3) by (simp add: get_enter_def)
  also have "\<dots> = (a\<lparr>am_refreshed_at := gw_enter gw 0 4\<rparr>, d', Got (am_cred a) (am_generation a) None)"
    using assms(4-6) by (simp add: get_fence_def Let_def)
  finally have "get_alone ax gw 0 a d log
      = Some (a\<lparr>am_refreshed_at := gw_enter gw 0 4\<rparr>, d', log, am_cred a, am_generation a, None)"
    by (subst get_alone.simps) simp
  then show ?thesis using assms(1) by (simp add: refresh_if_needed_def)
qed

end
