(* ===== verification/WriterLock.thy ===== *)
theory WriterLock
  imports CredQuarantine
begin

text \<open>
  The writer lock of \<open>credential_store.go\<close> under any number of processes and credential files.
  The lock belongs to the file that \<open>open\<close> found, so it excludes another writer only while
  the sidecar stays the same file: no operation removes it.
\<close>

section \<open>What happens to the sidecars\<close>

definition lock_file :: "string \<Rightarrow> bool" where
  "lock_file q \<longleftrightarrow> (\<exists>x. q = x @ ''/trae-api/auth.json.lock'')"

definition credential_file :: "string \<Rightarrow> bool" where
  "credential_file p \<longleftrightarrow> (\<exists>x. p = x @ ''/trae-api/auth.json'')"

text \<open>The sidecars that are there stay, as the files they are.\<close>

definition locks_kept :: "disk \<Rightarrow> disk \<Rightarrow> bool" where
  "locks_kept d d' \<longleftrightarrow> (\<forall>q. lock_file q \<longrightarrow> ds_files d q \<noteq> None \<longrightarrow> ds_files d' q \<noteq> None \<and> file_id d' q = file_id d q)"

lemma locks_kept_refl: "locks_kept d d"
  by (simp add: locks_kept_def)

lemma locks_kept_trans: "locks_kept d d' \<Longrightarrow> locks_kept d' d'' \<Longrightarrow> locks_kept d d''"
  by (auto simp: locks_kept_def)

lemma locks_kept_owner: "locks_kept d (d'\<lparr>ds_owner := ow\<rparr>) = locks_kept d d'"
  by (simp add: locks_kept_def file_id_def)

lemma locks_kept_tick: "(\<And>q. lock_file q \<Longrightarrow> ds_files d q \<noteq> None \<Longrightarrow> fs q \<noteq> None) \<Longrightarrow> locks_kept d (tick fs d)"
  by (simp add: locks_kept_def file_id_def tick_def)

definition leaves_locks :: "('a \<Rightarrow> bool) \<Rightarrow> 'a act \<Rightarrow> bool" where
  "leaves_locks P m \<longleftrightarrow> (\<forall>d d' r. m d = (d', r) \<longrightarrow> locks_kept d d' \<and> (\<forall>x. r = Inr x \<longrightarrow> P x))"

lemma leaves_locksD: "leaves_locks P m \<Longrightarrow> m d = (d', r) \<Longrightarrow> locks_kept d d'"
  by (simp add: leaves_locks_def)

named_theorems sidecar \<open>actions that leave the sidecars\<close>

lemma leaves_weaken: "leaves_locks P m \<Longrightarrow> leaves_locks (\<lambda>x. True) m"
  by (auto simp: leaves_locks_def)

lemma leaves_syscall:
  assumes "\<And>fs q. lock_file q \<Longrightarrow> fs q \<noteq> None \<Longrightarrow> fst (f fs) q \<noteq> None"
    and "\<And>fs x. snd (f fs) = Inr x \<Longrightarrow> P x"
  shows "leaves_locks P (syscall os f)"
  unfolding leaves_locks_def
proof (intro allI impI)
  fix d d' r assume m: "syscall os f d = (d', r)"
  show "locks_kept d d' \<and> (\<forall>x. r = Inr x \<longrightarrow> P x)"
  proof (cases "os_fail os (ds_calls d)")
    case None
    obtain fs v where f: "f (ds_files d) = (fs, v)" by fastforce
    have "d' = tick fs d" "r = v" using m None f by (simp_all add: syscall_def)
    moreover have "locks_kept d (tick fs d)" by (rule locks_kept_tick) (use assms(1) [of _ "ds_files d"] f in auto)
    ultimately show ?thesis using assms(2) [of "ds_files d"] f by auto
  next
    case (Some e)
    then show ?thesis using m by (auto simp: syscall_def intro!: locks_kept_tick)
  qed
qed

lemma leaves_abind:
  assumes "leaves_locks P m" "\<And>x. P x \<Longrightarrow> leaves_locks Q (f x)"
  shows "leaves_locks Q (abind m f)"
  unfolding leaves_locks_def
proof (intro allI impI)
  fix d d' r assume a: "abind m f d = (d', r)"
  obtain d1 r1 where 1: "m d = (d1, r1)" by fastforce
  show "locks_kept d d' \<and> (\<forall>x. r = Inr x \<longrightarrow> Q x)"
  proof (cases r1)
    case (Inl e)
    then show ?thesis using a leaves_locksD [OF assms(1) 1] by (auto simp: abind_def 1)
  next
    case (Inr x)
    then have "P x" "f x d1 = (d', r)" using a assms(1) 1 by (auto simp: abind_def leaves_locks_def)
    then show ?thesis using assms(2) leaves_locksD [OF assms(1) 1] locks_kept_trans
      unfolding leaves_locks_def by blast
  qed
qed

lemma leaves_bind [sidecar]:
  "leaves_locks (\<lambda>x. True) m \<Longrightarrow> (\<And>x. leaves_locks Q (f x)) \<Longrightarrow> leaves_locks Q (abind m f)"
  by (rule leaves_abind)

lemma leaves_return [sidecar]: "leaves_locks (\<lambda>x. True) (areturn r)"
  by (simp add: leaves_locks_def areturn_def locks_kept_refl)

lemma leaves_map_err [sidecar]: "leaves_locks P m \<Longrightarrow> leaves_locks P (map_err g m)"
  by (fastforce simp: leaves_locks_def map_err_def split: prod.splits sum.splits)

lemma leaves_sys [sidecar]:
  "leaves_locks (\<lambda>x. True) (sys_lstat os p)" "leaves_locks (\<lambda>x. True) (sys_mkdir os p)"
  "leaves_locks (\<lambda>x. True) (sys_open os p)" "leaves_locks (\<lambda>x. True) (sys_fd os y)"
  "leaves_locks (\<lambda>x. True) (sys_chmod os p mode)"
  unfolding sys_lstat_def sys_mkdir_def sys_open_def sys_fd_def sys_chmod_def
  by (rule leaves_syscall; simp split: option.split node.split)+

lemma leaves_sys_away [sidecar]:
  assumes "\<not> lock_file p"
  shows "leaves_locks (\<lambda>x. True) (sys_remove os p)" "leaves_locks (\<lambda>x. True) (sys_rename os p q)"
  unfolding sys_remove_def sys_rename_def
  by (rule leaves_syscall; use assms in \<open>auto split: option.split node.split\<close>)+

lemma leaves_write [sidecar]: "leaves_locks (\<lambda>x. True) (sys_write os p s)"
proof -
  have "put_text p t fs q \<noteq> None" if "fs q \<noteq> None" for t fs q
    using that by (auto simp: put_text_def split: option.split node.split)
  then show ?thesis
    by (auto simp: leaves_locks_def sys_write_def intro!: locks_kept_tick split: option.splits)
qed

text \<open>The last part of a path.\<close>

lemma base_name:
  assumes "a @ CHR ''/'' # b = a' @ CHR ''/'' # b'" "CHR ''/'' \<notin> set b" "CHR ''/'' \<notin> set b'"
  shows "b = b'"
proof -
  have base: "rev (takeWhile (\<lambda>c. c \<noteq> CHR ''/'') (rev (x @ CHR ''/'' # y))) = y" if "CHR ''/'' \<notin> set y" for x y :: string
  proof -
    have "takeWhile (\<lambda>c. c \<noteq> CHR ''/'') (rev y @ CHR ''/'' # rev x) = rev y" 
    proof -
      have "\<forall>c \<in> set (rev y). c \<noteq> CHR ''/''" using that by auto
      then show ?thesis by (subst takeWhile_append2) auto
    qed
    then show ?thesis by simp
  qed
  show ?thesis using base [OF assms(2), of a] base [OF assms(3), of a'] assms(1) by simp
qed

lemma not_lock_file:
  assumes "CHR ''/'' \<notin> set b" "b \<noteq> ''auth.json.lock''"
  shows "\<not> lock_file (a @ CHR ''/'' # b)"
proof
  assume "lock_file (a @ CHR ''/'' # b)"
  then obtain x where "a @ CHR ''/'' # b = (x @ ''/trae-api'') @ CHR ''/'' # ''auth.json.lock''"
    by (auto simp: lock_file_def)
  from base_name [OF this assms(1)] assms(2) show False by simp
qed

lemma credential_not_lock: "credential_file p \<Longrightarrow> \<not> lock_file p"
  using not_lock_file [of "''auth.json''" "_ @ ''/trae-api''"] by (auto simp: credential_file_def)

lemma credential_lock: "credential_file p \<Longrightarrow> lock_file (p @ ''.lock'')"
  by (auto simp: credential_file_def lock_file_def)

lemma credential_path_file: "credential_path cfg = Inr p \<Longrightarrow> credential_file p"
  by (auto simp: credential_path_def credential_file_def split: sum.splits if_splits)

text \<open>\<open>os.CreateTemp\<close> puts digits into the name.\<close>

definition plain_random :: "os_env \<Rightarrow> bool" where
  "plain_random os \<longleftrightarrow> (\<forall>n. CHR ''/'' \<notin> set (os_random os n))"

lemma leaves_temp:
  assumes "plain_random os"
  shows "leaves_locks (\<lambda>temp. \<not> lock_file temp) (sys_create_temp os dir)"
  unfolding leaves_locks_def
proof (intro allI impI)
  fix d d' r assume m: "sys_create_temp os dir d = (d', r)"
  define name where "name = dir @ ''/.auth-'' @ os_random os (ds_calls d)"
  have "\<not> lock_file name"
    using not_lock_file [of "''.auth-'' @ os_random os (ds_calls d)" dir] assms by (simp add: name_def plain_random_def)
  then have "leaves_locks (\<lambda>temp. \<not> lock_file temp)
      (syscall os (\<lambda>fs. if fs name = None then (fs(name \<mapsto> Regular mode_file []), Inr name) else (fs, Inl err_exist)))"
    by (intro leaves_syscall) (auto split: if_splits)
  then show "locks_kept d d' \<and> (\<forall>x. r = Inr x \<longrightarrow> \<not> lock_file x)"
    using m unfolding leaves_locks_def sys_create_temp_def Let_def name_def by blast
qed

section \<open>The operations\<close>

lemma leaves_check [sidecar]: "leaves_locks (\<lambda>x. True) (checked_credential_dir os dir create)"
  unfolding leaves_locks_def
proof (intro allI impI)
  fix d d' r assume m: "checked_credential_dir os dir create d = (d', r)"
  obtain d1 r1 where l: "sys_lstat os dir d = (d1, r1)" by fastforce
  note k1 = leaves_locksD [OF leaves_sys(1) l]
  obtain d2 r2 where m2: "sys_mkdir os dir d1 = (d2, r2)" by fastforce
  note k2 = locks_kept_trans [OF k1 leaves_locksD [OF leaves_sys(2) m2]]
  obtain d3 r3 where n: "map_err (Wrap ''credential directory unavailable: '') (sys_lstat os dir) d2 = (d3, r3)" by fastforce
  note k3 = locks_kept_trans [OF k2 leaves_locksD [OF leaves_map_err [OF leaves_sys(1)] n]]
  have "d' \<in> {d1, d2, d3}"
    using m by (cases r1; cases r2; cases r3) (auto simp: checked_credential_dir_def l m2 n split: if_splits)
  then show "locks_kept d d' \<and> (\<forall>x. r = Inr x \<longrightarrow> True)" using k1 k2 k3 by auto
qed

lemma leaves_read [sidecar]: "leaves_locks (\<lambda>x. True) (read_credential_file os p)"
  unfolding read_credential_file_def
  by (intro sidecar) (auto intro!: sidecar split: node.split)

lemma leaves_load [sidecar]: "leaves_locks (\<lambda>x. True) (load os co p)"
  unfolding load_def by (intro sidecar)

lemma leaves_existing [sidecar]: "leaves_locks (\<lambda>x. True) (check_existing os co p)"
  using leaves_locksD [OF leaves_load, of os co p]
  by (auto simp: leaves_locks_def check_existing_def split: prod.splits sum.splits)

lemma leaves_finally [sidecar]:
  assumes "\<not> lock_file temp" "leaves_locks P m"
  shows "leaves_locks P (finally_remove os temp m)"
  unfolding leaves_locks_def
proof (intro allI impI)
  fix d d' r assume f: "finally_remove os temp m d = (d', r)"
  obtain d1 where 1: "m d = (d1, r)" "d' = fst (sys_remove os temp d1)"
    using f by (auto simp: finally_remove_def split: prod.splits)
  have "locks_kept d1 d'" using leaves_locksD [OF leaves_sys_away(1) [OF assms(1)]] 1(2) by (metis prod.collapse)
  then show "locks_kept d d' \<and> (\<forall>x. r = Inr x \<longrightarrow> P x)"
    using assms(2) 1(1) locks_kept_trans unfolding leaves_locks_def by blast
qed

lemma leaves_sync [sidecar]: "leaves_locks (\<lambda>x. True) (sync_dir os w dir)"
  unfolding sync_dir_def by (intro sidecar)

lemma leaves_publish [sidecar]: "\<not> lock_file temp \<Longrightarrow> leaves_locks (\<lambda>x. True) (publish os p temp data)"
  unfolding publish_def by (intro sidecar)

lemma leaves_save:
  assumes "plain_random os"
  shows "leaves_locks (\<lambda>x. True) (save os co st c)"
  unfolding save_def
  by (auto intro!: sidecar leaves_abind [OF leaves_temp [OF assms]] split: sum.split)

lemma leaves_quarantine:
  assumes "credential_file (st_path st)"
  shows "leaves_locks (\<lambda>x. True) (quarantine_rejected os co st token)"
proof -
  note p = credential_not_lock [OF assms]
  have move: "leaves_locks (\<lambda>x. True) (move_aside os (st_path st) q)" for q
    unfolding move_aside_def by (intro sidecar p)
  have to: "leaves_locks (\<lambda>x. True) (\<lambda>d. quarantine_to os (st_path st) (f d) d)" for f
    unfolding leaves_locks_def
  proof (intro allI impI)
    fix d d' r assume q: "quarantine_to os (st_path st) (f d) d = (d', r)"
    obtain d1 r1 where l: "sys_lstat os (f d) d = (d1, r1)" by fastforce
    note k1 = leaves_locksD [OF leaves_sys(1) l]
    show "locks_kept d d' \<and> (\<forall>x. r = Inr x \<longrightarrow> True)"
      using q k1 locks_kept_trans [OF k1 leaves_locksD [OF move, of "f d" d1 d' r]]
      by (cases r1) (auto simp: quarantine_to_def l split: if_splits)
  qed
  show ?thesis unfolding quarantine_rejected_def by (auto intro!: sidecar to)
qed

lemma leaves_close: "close_store os st d = (st', d', e) \<Longrightarrow> locks_kept d d'"
proof -
  assume c: "close_store os st d = (st', d', e)"
  obtain d1 r1 where 1: "sys_fd os () d = (d1, r1)" by fastforce
  obtain d2 r2 where 2: "sys_fd os () d1 = (d2, r2)" by fastforce
  have "locks_kept d d2"
    by (rule locks_kept_trans) (rule leaves_locksD [OF leaves_sys(4) 1], rule leaves_locksD [OF leaves_sys(4) 2])
  then show ?thesis using c locks_kept_refl
    by (auto simp: close_store_def 1 2 release_def locks_kept_owner split: if_splits)
qed

lemma leaves_open: "leaves_locks (\<lambda>x. True) (open_writer_lock os cfg)"
proof -
  have lock: "leaves_locks (\<lambda>x. True) (sys_open_lock os p)" for p
    unfolding leaves_locks_def
  proof (intro allI impI)
    fix d d' r assume o: "sys_open_lock os p d = (d', r)"
    let ?m = "syscall os (\<lambda>fs. case fs p of
          None \<Rightarrow> (fs(p \<mapsto> Regular mode_file []), Inr (Regular mode_file []))
        | Some Symlink \<Rightarrow> (fs, Inl (ErrMsg ''too many levels of symbolic links''))
        | Some n \<Rightarrow> (fs, Inr n))"
    have "leaves_locks (\<lambda>x. True) ?m" by (rule leaves_syscall) (simp_all split: option.split node.split)
    moreover obtain r1 where "?m d = (d', r1)" using o by (auto simp: sys_open_lock_def split: prod.splits sum.splits)
    ultimately show "locks_kept d d' \<and> (\<forall>x. r = Inr x \<longrightarrow> True)" using leaves_locksD by blast
  qed
  show ?thesis unfolding open_writer_lock_def by (auto intro!: sidecar lock split: sum.split)
qed

lemma leaves_take: "take_writer_lock os co pid (p, l) d = (d', r) \<Longrightarrow> locks_kept d d'"
proof -
  assume t: "take_writer_lock os co pid (p, l) d = (d', r)"
  obtain d1 r1 where 1: "sys_flock os l pid d = (d1, r1)" by fastforce
  have k1: "locks_kept d d1"
    using 1 by (auto simp: sys_flock_def locks_kept_owner intro!: locks_kept_tick split: option.splits if_splits)
  obtain d2 r2 where 2: "load os co p d1 = (d2, r2)" by fastforce
  note k2 = locks_kept_trans [OF k1 leaves_locksD [OF leaves_load 2]]
  show "locks_kept d d'"
    using t k1 k2 by (cases r1; cases r2)
      (auto simp: take_writer_lock_def abind_def map_err_def 1 2 release_def locks_kept_owner split: if_splits)
qed

section \<open>One writer for each credential file\<close>

text \<open>
  Processes over one file system, with configuration directories of their own or the same: each
  opens the sidecar, takes the lock, works through the store, closes it, or dies, when the
  kernel gives its locks back.
\<close>

datatype writer = Opening "string \<times> lock_id" | Using store

type_synonym writers = "disk \<times> (nat \<Rightarrow> writer option)"

definition release_all :: "nat \<Rightarrow> disk \<Rightarrow> disk" where
  "release_all pid d = d\<lparr>ds_owner := (\<lambda>l. if ds_owner d l = Some pid then None else ds_owner d l)\<rparr>"

inductive writer_step :: "writers \<Rightarrow> writers \<Rightarrow> bool" where
  writer_opens: "open_writer_lock os cfg d = (d', Inr pl) \<Longrightarrow> ws pid = None
    \<Longrightarrow> writer_step (d, ws) (d', ws(pid \<mapsto> Opening pl))"
| writer_open_fails: "open_writer_lock os cfg d = (d', Inl e) \<Longrightarrow> ws pid = None
    \<Longrightarrow> writer_step (d, ws) (d', ws)"
| writer_locks: "take_writer_lock os co pid pl d = (d', Inr st) \<Longrightarrow> ws pid = Some (Opening pl)
    \<Longrightarrow> writer_step (d, ws) (d', ws(pid \<mapsto> Using st))"
| writer_lock_fails: "take_writer_lock os co pid pl d = (d', Inl e) \<Longrightarrow> ws pid = Some (Opening pl)
    \<Longrightarrow> writer_step (d, ws) (d', ws(pid := None))"
| writer_save: "ws pid = Some (Using st) \<Longrightarrow> plain_random os \<Longrightarrow> save os co st c d = (d', r)
    \<Longrightarrow> writer_step (d, ws) (d', ws)"
| writer_quarantine: "ws pid = Some (Using st) \<Longrightarrow> quarantine_rejected os co st token d = (d', r)
    \<Longrightarrow> writer_step (d, ws) (d', ws)"
| writer_read: "load os co p d = (d', r) \<Longrightarrow> writer_step (d, ws) (d', ws)"
| writer_close: "ws pid = Some (Using st) \<Longrightarrow> close_store os st d = (st', d', e)
    \<Longrightarrow> writer_step (d, ws) (d', ws(pid \<mapsto> Using st'))"
| writer_dies: "writer_step (d, ws) (release_all pid d, ws(pid := None))"

definition writer_init :: "writers \<Rightarrow> bool" where
  "writer_init s \<longleftrightarrow> ds_owner (fst s) = (\<lambda>l. None) \<and> snd s = Map.empty"

text \<open>The file a process has opened is still the sidecar of its credential.\<close>

definition lock_now :: "disk \<Rightarrow> string \<times> lock_id \<Rightarrow> bool" where
  "lock_now d pl \<longleftrightarrow> credential_file (fst pl) \<and> ds_files d (fst pl @ ''.lock'') \<noteq> None
     \<and> snd pl = (fst pl @ ''.lock'', file_id d (fst pl @ ''.lock''))"

definition slot_ok :: "disk \<Rightarrow> nat \<Rightarrow> writer \<Rightarrow> bool" where
  "slot_ok d pid w = (case w of
     Opening pl \<Rightarrow> lock_now d pl
   | Using st \<Rightarrow> st_pid st = pid \<and> credential_file (st_path st)
       \<and> (st_open st \<longrightarrow> lock_now d (st_path st, st_lock st) \<and> ds_owner d (st_lock st) = Some pid))"

definition writer_inv :: "writers \<Rightarrow> bool" where
  "writer_inv s \<longleftrightarrow> (\<forall>pid w. snd s pid = Some w \<longrightarrow> slot_ok (fst s) pid w)"

lemma lock_now_kept: "lock_now d pl \<Longrightarrow> locks_kept d d' \<Longrightarrow> lock_now d' pl"
  using credential_lock by (auto simp: lock_now_def locks_kept_def)

text \<open>A step of one process leaves the slots of the others as long as their locks are left.\<close>

lemma slot_kept:
  assumes "slot_ok d k w" "locks_kept d d'" "\<And>l. ds_owner d l = Some k \<Longrightarrow> ds_owner d' l = Some k"
  shows "slot_ok d' k w"
proof (cases w)
  case (Opening pl)
  then show ?thesis using assms(1) lock_now_kept [OF _ assms(2), of pl] by (simp add: slot_ok_def)
next
  case (Using st)
  then show ?thesis using assms(1,3) lock_now_kept [OF _ assms(2), of "(st_path st, st_lock st)"] by (simp add: slot_ok_def)
qed

lemma writer_inv_step_slot:
  assumes "writer_inv (d, ws)" "locks_kept d d'"
    and "\<And>k l. k \<noteq> pid \<Longrightarrow> ds_owner d l = Some k \<Longrightarrow> ds_owner d' l = Some k"
    and "case x of None \<Rightarrow> True | Some w \<Rightarrow> slot_ok d' pid w"
  shows "writer_inv (d', ws(pid := x))"
  unfolding writer_inv_def fst_conv snd_conv
proof (intro allI impI)
  fix k w assume w: "(ws(pid := x)) k = Some w"
  show "slot_ok d' k w"
  proof (cases "k = pid")
    case True
    then show ?thesis using w assms(4) by simp
  next
    case False
    then have "slot_ok d k w" using w assms(1) by (simp add: writer_inv_def)
    then show ?thesis by (rule slot_kept [OF _ assms(2)]) (rule assms(3) [OF False])
  qed
qed

lemma writer_inv_frame:
  "writer_inv (d, ws) \<Longrightarrow> locks_kept d d' \<Longrightarrow> ds_owner d' = ds_owner d \<Longrightarrow> writer_inv (d', ws)"
  using slot_kept unfolding writer_inv_def fst_conv snd_conv by metis

lemma opened_now:
  assumes "open_writer_lock os cfg d = (d', Inr pl)"
  shows "lock_now d' pl"
proof -
  obtain p l where pl: "pl = (p, l)" by (cases pl)
  note c = open_lock_path [OF assms [unfolded pl]]
  obtain d1 where 1: "checked_credential_dir os (path_dir p) True d = (d1, Inr ())"
    using assms c by (auto simp: open_writer_lock_def abind_def split: sum.splits prod.splits)
  obtain d2 n where 2: "sys_open_lock os (p @ ''.lock'') d1 = (d2, Inr (n, l))"
    "sys_fd os n d2 = (d', Inr n)"
    using assms c 1 by (auto simp: open_writer_lock_def pl abind_def map_err_def areturn_def sys_fd_def syscall_def
        split: sum.splits prod.splits if_splits option.splits)
  have l: "l = (p @ ''.lock'', file_id d2 (p @ ''.lock''))" "ds_files d2 (p @ ''.lock'') \<noteq> None"
    using 2(1) by (auto simp: sys_open_lock_def syscall_def tick_def split: option.splits sum.splits node.splits)
  have "locks_kept d2 d'" by (rule leaves_locksD [OF leaves_sys(4) 2(2)])
  moreover have "credential_file p" using c credential_path_file by blast
  ultimately show ?thesis using l credential_lock by (auto simp: lock_now_def pl locks_kept_def)
qed

lemma writer_inv_step: "writer_step s t \<Longrightarrow> writer_inv s \<Longrightarrow> writer_inv t"
proof (induction rule: writer_step.induct)
  case (writer_opens os cfg d d' pl ws pid)
  have "ds_owner d' = ds_owner d" using keepsD [OF keeps_owner_open_writer writer_opens(1)] .
  then show ?case
    by (intro writer_inv_step_slot [OF writer_opens(3) leaves_locksD [OF leaves_open writer_opens(1)]])
      (simp_all add: slot_ok_def opened_now [OF writer_opens(1)])
next
  case (writer_open_fails os cfg d d' e ws pid)
  then show ?case
    using writer_inv_frame leaves_locksD [OF leaves_open] keepsD [OF keeps_owner_open_writer] by blast
next
  case (writer_locks os co pid pl d d' st ws)
  obtain p l where pl: "pl = (p, l)" by (cases pl)
  note t = take_lock_owner [OF writer_locks(1) [unfolded pl], unfolded sum.case] and k = leaves_take [OF writer_locks(1) [unfolded pl]]
  have "slot_ok d pid (Opening pl)" using writer_locks(2,3) by (simp add: writer_inv_def)
  then have "lock_now d' (p, l)" "credential_file p" using lock_now_kept [OF _ k] by (auto simp: slot_ok_def pl lock_now_def)
  then have "slot_ok d' pid (Using st)" using t by (simp add: slot_ok_def)
  then show ?case by (intro writer_inv_step_slot [OF writer_locks(3) k]) (use t in auto)
next
  case (writer_lock_fails os co pid pl d d' e ws)
  obtain p l where pl: "pl = (p, l)" by (cases pl)
  note t = take_lock_owner [OF writer_lock_fails(1) [unfolded pl], unfolded sum.case] and k = leaves_take [OF writer_lock_fails(1) [unfolded pl]]
  show ?case by (intro writer_inv_step_slot [OF writer_lock_fails(3) k]) (use t in auto)
next
  case (writer_save ws pid st os co c d d' r)
  then show ?case
    using writer_inv_frame leaves_locksD [OF leaves_save] keepsD [OF keeps_owner_save] by blast
next
  case (writer_quarantine ws pid st os co token d d' r)
  have "slot_ok d pid (Using st)" using writer_quarantine(1,3) by (simp add: writer_inv_def)
  then have "credential_file (st_path st)" by (simp add: slot_ok_def)
  then show ?case
    using writer_quarantine writer_inv_frame leaves_locksD [OF leaves_quarantine] keepsD [OF keeps_owner_quarantine] by blast
next
  case (writer_read os co p d d' r ws)
  then show ?case using writer_inv_frame leaves_locksD [OF leaves_load] keepsD [OF keeps_owner_load] by blast
next
  case (writer_close ws pid st os d st' d' e)
  note c = close_store_owner [OF writer_close(2)]
  have "slot_ok d pid (Using st)" using writer_close(1,3) by (simp add: writer_inv_def)
  then have s: "st_pid st = pid" "credential_file (st_path st)" by (simp_all add: slot_ok_def)
  show ?case
    by (intro writer_inv_step_slot [OF writer_close(3) leaves_close [OF writer_close(2)]])
      (use c s in \<open>auto simp: slot_ok_def\<close>)
next
  case (writer_dies d ws pid)
  show ?case
    by (intro writer_inv_step_slot [OF writer_dies])
      (simp_all add: release_all_def locks_kept_owner locks_kept_refl)
qed

interpretation writer_machine: inductive_invariant writer_init writer_step writer_inv
  by unfold_locales (simp add: writer_init_def writer_inv_def, rule writer_inv_step)

text \<open>
  C21. One writer at a time for each credential file. However processes with whatever
  configuration directories open the sidecar, lock it, use and close their stores, fail or die,
  two that have the same credential file are never open at once: the open one holds the lock of
  the file that is the sidecar now, and through the other a save or a quarantine changes nothing
  and reports that the store is closed.
\<close>

theorem single_writer:
  assumes "reaches writer_init writer_step (d, ws)" "ws a = Some (Using s)" "ws b = Some (Using t)" "a \<noteq> b"
    and "st_open s" "st_path t = st_path s"
  shows "st_lock s = (st_path s @ ''.lock'', file_id d (st_path s @ ''.lock'')) \<and> ds_owner d (st_lock s) = Some a
    \<and> \<not> st_open t
    \<and> save os co t c d = (d, Inl (ErrMsg ''credential store closed''))
    \<and> quarantine_rejected os co t token d = (d, Inl (ErrMsg ''credential store closed''))"
proof -
  have "writer_inv (d, ws)" using writer_machine.reachable_inv [OF assms(1)] .
  then have "slot_ok d a (Using s)" "slot_ok d b (Using t)" using assms(2,3) by (simp_all add: writer_inv_def)
  then have "\<not> st_open t" "ds_owner d (st_lock s) = Some a" "lock_now d (st_path s, st_lock s)"
    using assms(4-6) by (auto simp: slot_ok_def lock_now_def)
  then show ?thesis by (simp add: lock_now_def save_def quarantine_rejected_def areturn_def)
qed

text \<open>A process opens a store and closes it; then another one opens one.\<close>

definition fresh_disk :: disk where
  "fresh_disk = sample_disk\<lparr>ds_owner := (\<lambda>l. None)\<rparr>"

definition sample_step :: "nat \<Rightarrow> disk \<Rightarrow> disk \<times> (disk \<times> store res)" where
  "sample_step pid d = (case open_writer_lock sample_os (Inr ''/h'') d of
     (d', Inl e) \<Rightarrow> (d', d', Inl e)
   | (d', Inr pl) \<Rightarrow> (d', take_writer_lock sample_os sample_codec pid pl d'))"

lemma sample_steps:
  assumes "sample_step pid d = (d1, d2, Inr st)" "reaches writer_init writer_step (d, ws)" "ws pid = None"
  shows "reaches writer_init writer_step (d2, ws(pid \<mapsto> Using st))"
proof -
  obtain pl where pl: "open_writer_lock sample_os (Inr ''/h'') d = (d1, Inr pl)"
    "take_writer_lock sample_os sample_codec pid pl d1 = (d2, Inr st)"
    using assms(1) by (auto simp: sample_step_def split: prod.splits sum.splits)
  have "reaches writer_init writer_step (d1, ws(pid \<mapsto> Opening pl))"
    by (rule reaches_step [OF assms(2)]) (rule writer_opens, rule pl(1), rule assms(3))
  then have "reaches writer_init writer_step (d2, (ws(pid \<mapsto> Opening pl))(pid \<mapsto> Using st))"
    by (rule reaches_step) (rule writer_locks [OF pl(2)], simp)
  then show ?thesis by simp
qed

definition opened_at :: disk where
  "opened_at = fst (snd (sample_step 0 fresh_disk))"

definition sample_writer :: "nat \<Rightarrow> store" where
  "sample_writer pid = \<lparr>st_path = ''/h/trae-api/auth.json'', st_open = True, st_pid = pid,
     st_lock = (''/h/trae-api/auth.json.lock'', 1)\<rparr>"

definition closed_at :: disk where
  "closed_at = fst (snd (close_store sample_os (sample_writer 0) opened_at))"

theorem single_writer_witness:
  "ds_owner (fst (snd (sample_step 1 closed_at))) (''/h/trae-api/auth.json.lock'', 1) = Some 1"
proof -
  let ?s = sample_writer and ?d = "fst (snd (sample_step 1 closed_at))"
  let ?t = "(?s 0)\<lparr>st_open := False\<rparr>"
  have "snd (snd (sample_step 0 fresh_disk)) = Inr (?s 0)" by code_simp
  then have o: "sample_step 0 fresh_disk = (fst (sample_step 0 fresh_disk), opened_at, Inr (?s 0))"
    by (simp add: opened_at_def prod_eq_iff)
  have "fst (close_store sample_os (?s 0) opened_at) = ?t"
    by (simp add: close_store_def sample_writer_def split: prod.split)
  then have c: "close_store sample_os (?s 0) opened_at = (?t, closed_at, snd (snd (close_store sample_os (?s 0) opened_at)))"
    by (simp add: closed_at_def prod_eq_iff)
  have "snd (snd (sample_step 1 closed_at)) = Inr (?s 1)" by code_simp
  then have o1: "sample_step 1 closed_at = (fst (sample_step 1 closed_at), ?d, Inr (?s 1))" by (simp add: prod_eq_iff)
  have "writer_init (fresh_disk, Map.empty)" by (simp add: writer_init_def fresh_disk_def)
  then have "reaches writer_init writer_step (fresh_disk, Map.empty)" by (rule reaches_init)
  from sample_steps [OF o this] have "reaches writer_init writer_step (opened_at, Map.empty(0 \<mapsto> Using (?s 0)))" by simp
  then have "reaches writer_init writer_step (closed_at, (Map.empty(0 \<mapsto> Using (?s 0)))(0 \<mapsto> Using ?t))"
    by (rule reaches_step) (rule writer_close [OF _ c], simp)
  from sample_steps [OF o1 this] have "reaches writer_init writer_step
      (?d, (Map.empty(0 \<mapsto> Using (?s 0)))(0 \<mapsto> Using ?t, 1 \<mapsto> Using (?s 1)))" by simp
  from single_writer [OF this, of "Suc 0" "?s 1" 0 ?t] show ?thesis by (simp add: sample_writer_def)
qed

end
