(* ===== verification/Checker.thy ===== *)
theory Checker
  imports Prelude "HOL-Library.List_Lexorder" "HOL-Library.Char_ord"
begin

text \<open>
  The release checker, \<open>tools/checker/main.go\<close>: struct definitions and struct literals of Go
  files must have their fields on lines of their own. Parameters are the parser, the type
  checker (which literals it knows and whether their type is a struct), the output of
  \<open>go list\<close> and the file names of the library. Identifiers are taken to be ASCII.
\<close>

section \<open>Syntax trees\<close>

text \<open>
  The nodes of \<open>go/ast\<close> that the checker looks at, each with the lines of its start and end.
  A struct has the line of its closing brace. A composite literal has an identity, its type if
  one is written, and the lines of its braces. Any other node has its children.
\<close>

datatype gnode = GNode (gn_line: nat) (gn_end: nat) (gn_shape: gshape)
and gshape =
    GIdent string
  | GStar gnode
  | GIndex gnode gnode
  | GIndexList gnode "gnode list"
  | GSelector gnode gnode
  | GStruct nat "gfield list"
  | GArray "gnode list" gnode
  | GMap gnode gnode
  | GLit nat "gnode option" nat nat "gnode list"
  | GPair gnode gnode
  | GTypeSpec string gnode
  | GOther "gnode list"
and gfield = GField (gf_line: nat) (gf_end: nat) (gf_names: "string list") (gf_type: gnode)

definition children :: "gnode \<Rightarrow> gnode list" where
  "children n =
     (case gn_shape n of
        GIdent s \<Rightarrow> []
      | GStar x \<Rightarrow> [x]
      | GIndex x y \<Rightarrow> [x, y]
      | GIndexList x ys \<Rightarrow> x # ys
      | GSelector x y \<Rightarrow> [x, y]
      | GStruct closing fs \<Rightarrow> map gf_type fs
      | GArray len x \<Rightarrow> len @ [x]
      | GMap k v \<Rightarrow> [k, v]
      | GLit ident ty lb rb elts \<Rightarrow> (case ty of None \<Rightarrow> [] | Some t \<Rightarrow> [t]) @ elts
      | GPair k v \<Rightarrow> [k, v]
      | GTypeSpec s t \<Rightarrow> [t]
      | GOther ns \<Rightarrow> ns)"

lemma size_field_type: "size (gf_type f) < size f"
  by (cases f) simp

lemma size_list_mem: "x \<in> set xs \<Longrightarrow> f x < size_list f xs"
  by (induction xs) auto

lemma children_size: "c \<in> set (children n) \<Longrightarrow> size c < size n"
proof (cases n)
  case (GNode a b s)
  assume c: "c \<in> set (children n)"
  have "size c < size s"
  proof (cases s)
    case (GStruct closing fs)
    then obtain f where f: "f \<in> set fs" "c = gf_type f" using c GNode by (auto simp: children_def)
    then have "size c < size f" using size_field_type by simp
    also have "\<dots> < size_list size fs" using f(1) by (rule size_list_mem)
    finally show ?thesis using GStruct by simp
  next
    case (GLit i ty lb rb elts)
    then have "(\<exists>t. ty = Some t \<and> c = t) \<or> c \<in> set elts" using c GNode by (auto simp: children_def split: option.splits)
    then show ?thesis using size_list_mem [of c elts size] GLit by auto
  qed (use c GNode size_list_mem [of c _ size] in \<open>force simp: children_def\<close>)+
  then show ?thesis using GNode by simp
qed

text \<open>The order of \<open>ast.Inspect\<close>: a node before its children.\<close>

function preorder :: "gnode \<Rightarrow> gnode list" where
  "preorder n = n # concat (map preorder (children n))"
  by pat_completeness auto
termination by (relation "measure size") (simp_all add: children_size)

declare preorder.simps [simp del]

section \<open>Types\<close>

type_synonym type_map = "string \<Rightarrow> gnode option"

text \<open>\<open>underlying\<close>: at most ten steps through pointers, instances and named types.\<close>

fun underlying_in :: "nat \<Rightarrow> type_map \<Rightarrow> gnode option \<Rightarrow> gnode option" where
  "underlying_in 0 m e = e"
| "underlying_in (Suc n) m e =
     (case e of
        None \<Rightarrow> None
      | Some x \<Rightarrow>
          (case gn_shape x of
             GStar y \<Rightarrow> underlying_in n m (Some y)
           | GIndex y k \<Rightarrow> underlying_in n m (Some y)
           | GIndexList y ks \<Rightarrow> underlying_in n m (Some y)
           | GIdent s \<Rightarrow> (case m s of None \<Rightarrow> e | Some t \<Rightarrow> underlying_in n m (Some t))
           | _ \<Rightarrow> e))"

definition underlying :: "type_map \<Rightarrow> gnode option \<Rightarrow> gnode option" where
  "underlying = underlying_in 10"

definition struct_fields :: "type_map \<Rightarrow> gnode option \<Rightarrow> gfield list option" where
  "struct_fields m e =
     (case underlying m e of
        Some (GNode a b (GStruct closing fs)) \<Rightarrow> Some fs
      | _ \<Rightarrow> None)"

section \<open>Findings\<close>

record finding =
  fd_file :: string
  fd_line :: nat
  fd_rule :: string

definition report :: "string \<Rightarrow> nat \<Rightarrow> string \<Rightarrow> finding" where
  "report f line rule = \<lparr>fd_file = f, fd_line = line, fd_rule = rule\<rparr>"

text \<open>The loop over the fields of a definition; \<open>prev\<close> is the line where the one before ends.\<close>

fun field_findings :: "string \<Rightarrow> nat \<Rightarrow> gfield list \<Rightarrow> finding list" where
  "field_findings f prev [] = []"
| "field_findings f prev (GField line end_line names ty # fs) =
     (if 1 < length names then [report f line ''declare one struct field per line''] else [])
     @ (if line = prev then [report f line ''multiple struct fields on one line''] else [])
     @ field_findings f end_line fs"

definition definition_findings :: "string \<Rightarrow> nat \<Rightarrow> nat \<Rightarrow> gfield list \<Rightarrow> finding list" where
  "definition_findings f line closing fs =
     (if fs = [] then []
      else
        (if line = gf_line (hd fs) \<or> gf_end (List.last fs) = closing
         then [report f line ''nonempty struct definition must span field lines''] else [])
        @ field_findings f 0 fs)"

fun element_findings :: "string \<Rightarrow> nat \<Rightarrow> gnode list \<Rightarrow> finding list" where
  "element_findings f prev [] = []"
| "element_findings f prev (e # es) =
     (if prev = gn_line e then [report f (gn_line e) ''multiple struct literal fields on one line''] else [])
     @ element_findings f (gn_end e) es"

text \<open>An exported name begins with a capital letter.\<close>

definition is_exported :: "string \<Rightarrow> bool" where
  "is_exported s \<longleftrightarrow> s \<noteq> [] \<and> 65 \<le> (of_char (hd s) :: nat) \<and> (of_char (hd s) :: nat) \<le> 90"

definition keyed_element :: "gnode \<Rightarrow> bool" where
  "keyed_element e \<longleftrightarrow> (case gn_shape e of
     GPair k v \<Rightarrow> (case gn_shape k of GIdent s \<Rightarrow> is_exported s | _ \<Rightarrow> False) | _ \<Rightarrow> False)"

text \<open>
  Whether a literal is one of a struct: what the type checker says of it, or else its type in
  the file, or else the guess for a type of another package. \<open>info\<close> is \<open>typeInfo\<close>.
\<close>

definition struct_literal :: "type_map \<Rightarrow> bool option \<Rightarrow> gnode option \<Rightarrow> gnode list \<Rightarrow> bool" where
  "struct_literal m known typ elts \<longleftrightarrow>
     (case known of
        Some b \<Rightarrow> b
      | None \<Rightarrow>
          struct_fields m typ \<noteq> None
          \<or> (case underlying m typ of
               Some (GNode a b (GSelector x y)) \<Rightarrow> elts \<noteq> [] \<and> list_all keyed_element elts
             | _ \<Rightarrow> False))"

definition literal_findings :: "string \<Rightarrow> bool \<Rightarrow> nat \<Rightarrow> nat \<Rightarrow> gnode list \<Rightarrow> finding list" where
  "literal_findings f is_struct lbrace rbrace elts =
     (if is_struct \<and> elts \<noteq> [] then
        (if lbrace = gn_line (hd elts) \<or> rbrace = gn_end (List.last elts)
         then [report f lbrace ''nonempty struct literal must use separate lines''] else [])
        @ element_findings f 0 elts
      else [])"

section \<open>The inspector\<close>

record inspector =
  in_types :: type_map
  in_info :: "nat \<Rightarrow> bool option"
  in_seen :: "nat list"
  in_found :: "finding list"

definition add_findings :: "finding list \<Rightarrow> inspector \<Rightarrow> inspector" where
  "add_findings fs i = i\<lparr>in_found := in_found i @ fs\<rparr>"

text \<open>The type a child literal has if it does not say: the last matching field wins.\<close>

definition named_field :: "gfield list \<Rightarrow> string \<Rightarrow> gnode option \<Rightarrow> gnode option" where
  "named_field fs key old = fold (\<lambda>f r. if key \<in> set (gf_names f) then Some (gf_type f) else r) fs old"

definition place_type :: "gnode option \<Rightarrow> nat \<Rightarrow> gnode option" where
  "place_type base k =
     (case base of
        Some (GNode a b (GArray len elt)) \<Rightarrow> Some elt
      | Some (GNode a b (GMap key val)) \<Rightarrow> Some val
      | Some (GNode a b (GStruct closing fs)) \<Rightarrow> if k < length fs then Some (gf_type (fs ! k)) else None
      | _ \<Rightarrow> None)"

text \<open>The value of an element, and the type expected of it.\<close>

definition element_value :: "gnode \<Rightarrow> gnode" where
  "element_value e = (case gn_shape e of GPair k v \<Rightarrow> v | _ \<Rightarrow> e)"

definition element_type :: "type_map \<Rightarrow> gnode option \<Rightarrow> nat \<Rightarrow> gnode \<Rightarrow> gnode option" where
  "element_type m typ k e =
     (let place = place_type (underlying m typ) k in
      case (gn_shape e, struct_fields m typ) of
        (GPair key val, Some fs) \<Rightarrow>
          (case gn_shape key of GIdent s \<Rightarrow> named_field fs s place | _ \<Rightarrow> place)
      | _ \<Rightarrow> place)"

lemma element_value_size: "size (element_value e) \<le> size e"
  by (cases e; cases "gn_shape e") (auto simp: element_value_def)

text \<open>\<open>checkLiteral\<close>; a node that is no literal is passed over.\<close>

function check_literal :: "string \<Rightarrow> gnode \<Rightarrow> gnode option \<Rightarrow> inspector \<Rightarrow> inspector" where
  "check_literal f n expected i =
     (case gn_shape n of
        GLit ident ty lbrace rbrace elts \<Rightarrow>
          if ident \<in> set (in_seen i) then i
          else
            (let m = in_types i; typ = (case ty of None \<Rightarrow> expected | Some t \<Rightarrow> Some t);
                 own = literal_findings f (struct_literal m (in_info i ident) typ elts) lbrace rbrace elts
             in fold (\<lambda>(k, e) i. check_literal f (element_value e) (element_type m typ k e) i)
                  (enumerate 0 elts) (add_findings own (i\<lparr>in_seen := in_seen i @ [ident]\<rparr>)))
      | _ \<Rightarrow> i)"
  by pat_completeness auto
termination
proof (relation "measure (\<lambda>(f, n, e, i). size n)", goal_cases)
  case 1
  show ?case by simp
next
  case (2 f n expected i ident ty lbrace rbrace elts m ty2 found p k e st)
  then have "e \<in> set elts" by (auto simp: enumerate_eq_zip dest: set_zip_rightD)
  then have "size e < size n" using 2(1) children_size [of e n] by (auto simp: children_def)
  then show ?case using element_value_size [of e] by simp
qed

declare check_literal.simps [simp del]

section \<open>Files, groups and findings\<close>

definition literal_type :: "gnode \<Rightarrow> gnode option" where
  "literal_type n = (case gn_shape n of GLit ident ty lbrace rbrace elts \<Rightarrow> ty | _ \<Rightarrow> None)"

definition check_definition :: "string \<Rightarrow> gnode \<Rightarrow> inspector \<Rightarrow> inspector" where
  "check_definition f n i = (case gn_shape n of
     GStruct closing fs \<Rightarrow> add_findings (definition_findings f (gn_line n) closing fs) i | _ \<Rightarrow> i)"

definition inspect_node :: "string \<Rightarrow> gnode \<Rightarrow> inspector \<Rightarrow> inspector" where
  "inspect_node f n i =
     (case gn_shape n of
        GStruct closing fs \<Rightarrow> check_definition f n i
      | GLit ident ty lbrace rbrace elts \<Rightarrow> check_literal f n (literal_type n) i
      | _ \<Rightarrow> i)"

definition inspect_file :: "string \<times> gnode \<Rightarrow> inspector \<Rightarrow> inspector" where
  "inspect_file p i = fold (inspect_node (fst p)) (preorder (snd p)) i"

text \<open>The type declarations of the files of a group; a later one replaces an earlier one.\<close>

definition type_specs :: "gnode \<Rightarrow> (string \<times> gnode) list" where
  "type_specs n = List.map_filter (\<lambda>x. case gn_shape x of GTypeSpec s t \<Rightarrow> Some (s, t) | _ \<Rightarrow> None) (preorder n)"

definition group_types :: "(string \<times> gnode) list \<Rightarrow> type_map" where
  "group_types files = map_of (rev (concat (map (type_specs \<circ> snd) files)))"

text \<open>
  The files by directory and package, each with its path; \<open>dir\<close> is \<open>filepath.Dir\<close> and \<open>sep\<close> the
  separator.
\<close>

definition group_key :: "(string \<Rightarrow> string) \<Rightarrow> string \<Rightarrow> string \<times> string \<times> gnode \<Rightarrow> string" where
  "group_key dir sep p = dir (fst p) @ sep @ fst (snd p)"

definition group_files ::
  "(string \<Rightarrow> string) \<Rightarrow> string \<Rightarrow> (string \<times> string \<times> gnode) list \<Rightarrow> (string \<times> (string \<times> gnode) list) list" where
  "group_files dir sep parsed =
     fold (\<lambda>p m. let k = group_key dir sep p in
         mput k ((case map_of m k of Some fs \<Rightarrow> fs | None \<Rightarrow> []) @ [(fst p, snd (snd p))]) m) parsed []"

text \<open>A group: its key, its files, what the type checker knows and its first error.\<close>

record group =
  gr_key :: string
  gr_files :: "(string \<times> gnode) list"
  gr_info :: "nat \<Rightarrow> bool option"
  gr_error :: "gerror option"

text \<open>The loop over the groups, in the order the map gives them.\<close>

fun inspect_groups :: "bool \<Rightarrow> group list \<Rightarrow> inspector \<Rightarrow> inspector res" where
  "inspect_groups strict [] i = Inr i"
| "inspect_groups strict (g # gs) i =
     (case (if strict then gr_error g else None) of
        Some e \<Rightarrow> Inl (Wrap (''type-check '' @ gr_key g @ '': '') e)
      | None \<Rightarrow> inspect_groups strict gs
          (fold inspect_file (gr_files g) (i\<lparr>in_types := group_types (gr_files g), in_info := gr_info g\<rparr>)))"

definition new_inspector :: inspector where
  "new_inspector = \<lparr>in_types = Map.empty, in_info = (\<lambda>k. None), in_seen = [], in_found = []\<rparr>"

text \<open>By file and line; the library may order the findings of one line as it likes.\<close>

definition sort_findings :: "finding list \<Rightarrow> finding list" where
  "sort_findings fs = sort_key fd_file (sort_key fd_line fs)"

definition inspect_sources :: "bool \<Rightarrow> group list \<Rightarrow> finding list res" where
  "inspect_sources strict gs =
     (case inspect_groups strict gs new_inspector of
        Inl e \<Rightarrow> Inl e | Inr i \<Rightarrow> Inr (sort_findings (in_found i)))"

section \<open>The output of go list\<close>

text \<open>The members of one package; a member that is missing leaves the field as it was.\<close>

record listed =
  ls_path :: "string option"
  ls_export :: "string option"

fun package_exports_from :: "string \<times> string \<Rightarrow> listed list \<Rightarrow> (string \<times> string) list \<Rightarrow> (string \<times> string) list" where
  "package_exports_from pkg [] exports = exports"
| "package_exports_from (path, export) (p # ps) exports =
     (let path = (case ls_path p of Some x \<Rightarrow> x | None \<Rightarrow> path);
          export = (case ls_export p of Some x \<Rightarrow> x | None \<Rightarrow> export)
      in package_exports_from (path, export) ps (if export \<noteq> [] then mput path export exports else exports))"

definition package_exports :: "listed list \<Rightarrow> (string \<times> string) list" where
  "package_exports ps = package_exports_from ([], []) ps []"

text \<open>\<open>sourcePaths\<close>: the names of each package, joined to its directory, each path once.\<close>

definition add_path :: "string \<Rightarrow> string list \<Rightarrow> string list" where
  "add_path p ps = (if p \<in> set ps then ps else ps @ [p])"

definition source_paths :: "(string \<Rightarrow> string \<Rightarrow> string) \<Rightarrow> (string \<times> string list) list \<Rightarrow> string list" where
  "source_paths join pkgs = sort (fold (\<lambda>(dir, names). fold (\<lambda>name. add_path (join dir name)) names) pkgs [])"

text \<open>The exit of the program: what it prints on success, and its status.\<close>

definition checker_exit :: "gerror option \<Rightarrow> finding list res \<Rightarrow> nat" where
  "checker_exit before r =
     (case before of
        Some e \<Rightarrow> 2
      | None \<Rightarrow> (case r of Inl e \<Rightarrow> 2 | Inr fs \<Rightarrow> if fs \<noteq> [] then 1 else 0))"

end
