(* ===== verification/CheckerCorrect.thy ===== *)
theory CheckerCorrect
  imports Checker "HOL-Library.Multiset"
begin

text \<open>
  The release checker: what a struct definition without findings looks like; that the findings
  for a file are those of a reference, which gives every literal its type in one pass from the
  top and examines everything once; and what becomes of a package without an export.
\<close>

section \<open>Definitions\<close>

lemma field_findings_iff:
  "field_findings f prev fs = [] \<longleftrightarrow>
     (\<forall>x \<in> set fs. length (gf_names x) \<le> 1) \<and> (fs \<noteq> [] \<longrightarrow> gf_line (hd fs) \<noteq> prev)
     \<and> (\<forall>k. Suc k < length fs \<longrightarrow> gf_line (fs ! Suc k) \<noteq> gf_end (fs ! k))"
proof (induction fs arbitrary: prev)
  case (Cons x fs)
  obtain line end_line names ty where x: "x = GField line end_line names ty" by (cases x)
  have "(\<forall>k. Suc k < length (x # fs) \<longrightarrow> gf_line ((x # fs) ! Suc k) \<noteq> gf_end ((x # fs) ! k))
    \<longleftrightarrow> (fs \<noteq> [] \<longrightarrow> gf_line (hd fs) \<noteq> end_line)
      \<and> (\<forall>k. Suc k < length fs \<longrightarrow> gf_line (fs ! Suc k) \<noteq> gf_end (fs ! k))"
  proof -
    have "(\<forall>k. Q k) \<longleftrightarrow> Q 0 \<and> (\<forall>k. Q (Suc k))" for Q :: "nat \<Rightarrow> bool" by (metis nat.exhaust)
    from this [of "\<lambda>k. Suc k < length (x # fs) \<longrightarrow> gf_line ((x # fs) ! Suc k) \<noteq> gf_end ((x # fs) ! k)"]
    show ?thesis by (auto simp: x hd_conv_nth)
  qed
  then show ?case using Cons [of end_line] by (auto simp: x)
qed simp

text \<open>
  A struct definition passes the checker exactly when it is empty, or its braces are on
  lines of their own, every field has one name at most, and every field begins on another line
  than the one where the field before it ends.
\<close>

theorem definition_passes_iff:
  "definition_findings f line closing fs = [] \<longleftrightarrow>
     fs = [] \<or>
     line \<noteq> gf_line (hd fs) \<and> gf_end (List.last fs) \<noteq> closing \<and> gf_line (hd fs) \<noteq> 0
     \<and> (\<forall>x \<in> set fs. length (gf_names x) \<le> 1)
     \<and> (\<forall>k. Suc k < length fs \<longrightarrow> gf_line (fs ! Suc k) \<noteq> gf_end (fs ! k))"
  by (auto simp: definition_findings_def field_findings_iff)

definition is_struct_node :: "gnode \<Rightarrow> bool" where
  "is_struct_node n \<longleftrightarrow> (case gn_shape n of GStruct closing fs \<Rightarrow> True | _ \<Rightarrow> False)"

section \<open>What is examined\<close>

text \<open>
  The reference for the inspection. The type expected of an element of a literal, from the type
  of the literal: of an array the element type, of a map the value type, of a struct the type of
  the field that the key names, the last one of that name, or else of the field in its place.
\<close>

definition named_types :: "gfield list \<Rightarrow> (string \<times> gnode) list" where
  "named_types fs = concat (map (\<lambda>f. map (\<lambda>x. (x, gf_type f)) (gf_names f)) fs)"

definition element_key :: "gnode \<Rightarrow> string option" where
  "element_key e = (case gn_shape e of
     GPair k v \<Rightarrow> (case gn_shape k of GIdent s \<Rightarrow> Some s | _ \<Rightarrow> None) | _ \<Rightarrow> None)"

definition expected_at :: "type_map \<Rightarrow> gnode option \<Rightarrow> nat \<Rightarrow> gnode \<Rightarrow> gnode option" where
  "expected_at m t k e =
     (case map_option gn_shape (underlying m t) of
        Some (GArray len elt) \<Rightarrow> Some elt
      | Some (GMap key val) \<Rightarrow> Some val
      | Some (GStruct closing fs) \<Rightarrow>
          (case Option.bind (element_key e) (map_of (rev (named_types fs))) of
             Some u \<Rightarrow> Some u
           | None \<Rightarrow> if k < length fs then Some (gf_type (fs ! k)) else None)
      | _ \<Rightarrow> None)"

definition element_keys :: "gnode \<Rightarrow> gnode list" where
  "element_keys e = (case gn_shape e of GPair k v \<Rightarrow> [k] | _ \<Rightarrow> [])"

definition own_or :: "gnode option \<Rightarrow> gnode option \<Rightarrow> gnode option" where
  "own_or ty expected = (case ty of None \<Rightarrow> expected | Some t \<Rightarrow> Some t)"

definition type_exprs :: "gnode option \<Rightarrow> gnode list" where
  "type_exprs ty = (case ty of None \<Rightarrow> [] | Some t \<Rightarrow> [t])"

lemma enumerate_size:
  assumes "p \<in> set (enumerate 0 elts)" "gn_shape n = GLit ident ty lb rb elts"
  shows "size (element_value (snd p)) < size n" "x \<in> set (element_keys (snd p)) \<Longrightarrow> size x < size n"
proof -
  have e: "snd p \<in> set elts" using assms(1) set_zip_rightD [of "fst p" "snd p"] by (simp add: enumerate_eq_zip)
  then have s: "size (snd p) < size n" using assms(2) children_size [of "snd p" n] by (auto simp: children_def)
  then show "size (element_value (snd p)) < size n" using element_value_size [of "snd p"] by simp
  show "size x < size n" if "x \<in> set (element_keys (snd p))"
  proof -
    have "x \<in> set (children (snd p))"
      using that by (auto simp: element_keys_def children_def split: gshape.splits)
    then show ?thesis using children_size s order.strict_trans by blast
  qed
qed

lemma type_expr_size: "x \<in> set (type_exprs ty) \<Longrightarrow> gn_shape n = GLit ident ty lb rb elts \<Longrightarrow> size x < size n"
  using children_size [of x n] by (auto simp: type_exprs_def children_def split: option.splits)

text \<open>
  Every literal of a tree with its type, in one pass from the top: the type it says, or the one
  expected at its place. Nothing is expected of the keys of a literal, or outside of literals.
\<close>

function typed_literals :: "type_map \<Rightarrow> gnode option \<Rightarrow> gnode \<Rightarrow> (gnode \<times> gnode option) list" where
  "typed_literals m expected n =
     (case gn_shape n of
        GLit ident ty lb rb elts \<Rightarrow>
          (n, own_or ty expected) # concat (map (typed_literals m None) (type_exprs ty))
          @ concat (map (\<lambda>p. concat (map (typed_literals m None) (element_keys (snd p)))
              @ typed_literals m (expected_at m (own_or ty expected) (fst p) (snd p)) (element_value (snd p)))
              (enumerate 0 elts))
      | _ \<Rightarrow> concat (map (typed_literals m None) (children n)))"
  by pat_completeness auto
termination
  by (relation "measure (\<lambda>(m, e, n). size n)") (auto simp: enumerate_size type_expr_size children_size)

declare typed_literals.simps [simp del]

text \<open>The findings of a struct definition and of a literal of a type.\<close>

definition struct_findings :: "string \<Rightarrow> gnode \<Rightarrow> finding list" where
  "struct_findings f n = (case gn_shape n of
     GStruct closing fs \<Rightarrow> definition_findings f (gn_line n) closing fs | _ \<Rightarrow> [])"

definition typed_findings :: "type_map \<Rightarrow> (nat \<Rightarrow> bool option) \<Rightarrow> string \<Rightarrow> gnode \<times> gnode option \<Rightarrow> finding list" where
  "typed_findings m info f p = (case gn_shape (fst p) of
     GLit ident ty lb rb elts \<Rightarrow> literal_findings f (struct_literal m (info ident) (snd p) elts) lb rb elts | _ \<Rightarrow> [])"

definition file_findings :: "type_map \<Rightarrow> (nat \<Rightarrow> bool option) \<Rightarrow> string \<Rightarrow> gnode \<Rightarrow> finding list" where
  "file_findings m info f root = concat (map (struct_findings f) (preorder root))
     @ concat (map (typed_findings m info f) (typed_literals m None root))"

definition literal_id :: "gnode \<Rightarrow> nat list" where
  "literal_id n = (case gn_shape n of GLit ident ty lbrace rbrace elts \<Rightarrow> [ident] | _ \<Rightarrow> [])"

definition literal_ids :: "gnode \<Rightarrow> nat list" where
  "literal_ids n = concat (map literal_id (preorder n))"

definition ids_of :: "(gnode \<times> gnode option) list \<Rightarrow> nat list" where
  "ids_of L = concat (map (literal_id \<circ> fst) L)"

lemma ids_of_simps [simp]:
  "ids_of [] = []" "ids_of (p # L) = literal_id (fst p) @ ids_of L" "ids_of (L @ M) = ids_of L @ ids_of M"
  by (simp_all add: ids_of_def)

lemma named_field_map_of:
  "named_field fs key old = (case map_of (rev (named_types fs)) key of Some t \<Rightarrow> Some t | None \<Rightarrow> old)"
proof (induction fs rule: rev_induct)
  case Nil
  show ?case by (simp add: named_field_def named_types_def)
next
  case (snoc f fs)
  have "map_of (rev (map (\<lambda>x. (x, gf_type f)) ns)) key = (if key \<in> set ns then Some (gf_type f) else None)" for ns
    by (induction ns rule: rev_induct) auto
  then show ?case using snoc by (auto simp: named_field_def named_types_def map_add_def split: option.splits)
qed

lemma element_type_expected: "element_type m t k e = expected_at m t k e"
proof (cases "underlying m t")
  case None
  then show ?thesis
    by (simp add: element_type_def expected_at_def place_type_def struct_fields_def split: gshape.split)
next
  case (Some x)
  obtain a b s where x: "x = GNode a b s" by (cases x)
  show ?thesis
    by (cases s)
      (auto simp: element_type_def expected_at_def place_type_def struct_fields_def element_key_def Some x Let_def
        named_field_map_of split: gshape.split option.split)
qed

section \<open>Steps of the inspector\<close>

text \<open>
  \<open>runs\<close>: from every inspector of the group that has seen the literals \<open>pre\<close> and none of \<open>L\<close>,
  the step examines the structs \<open>S\<close> and the literals \<open>L\<close>, each once.
\<close>

definition examined :: "string \<Rightarrow> gnode list \<Rightarrow> (gnode \<times> gnode option) list \<Rightarrow> inspector \<Rightarrow> inspector \<Rightarrow> bool" where
  "examined f S L i j \<longleftrightarrow> in_types j = in_types i \<and> in_info j = in_info i
     \<and> (\<exists>zs. in_found j = in_found i @ zs
         \<and> mset zs = mset (concat (map (struct_findings f) S))
             + mset (concat (map (typed_findings (in_types i) (in_info i) f) L)))
     \<and> mset (in_seen j) = mset (in_seen i) + mset (ids_of L)"

definition runs :: "type_map \<Rightarrow> string \<Rightarrow> (inspector \<Rightarrow> inspector) \<Rightarrow> nat list \<Rightarrow> gnode list
    \<Rightarrow> (gnode \<times> gnode option) list \<Rightarrow> bool" where
  "runs m f step pre S L \<longleftrightarrow> (\<forall>i. in_types i = m \<longrightarrow> set pre \<subseteq> set (in_seen i) \<longrightarrow> distinct (ids_of L)
     \<longrightarrow> set (ids_of L) \<inter> set (in_seen i) = {} \<longrightarrow> examined f S L i (step i))"

lemma runs_seq:
  assumes "runs m f step pre S L" "runs m f step' pre' S' L'" "set pre' \<subseteq> set pre \<union> set (ids_of L)"
  shows "runs m f (\<lambda>i. step' (step i)) pre (S @ S') (L @ L')"
  unfolding runs_def
proof (intro allI impI)
  fix i :: inspector assume i: "in_types i = m" "set pre \<subseteq> set (in_seen i)" "distinct (ids_of (L @ L'))"
    "set (ids_of (L @ L')) \<inter> set (in_seen i) = {}"
  have 1: "examined f S L i (step i)" using assms(1) i unfolding runs_def by auto
  then have t: "in_types (step i) = m" and "mset (in_seen (step i)) = mset (in_seen i @ ids_of L)"
    using i(1) by (simp_all add: examined_def)
  from this(2) have s: "set (in_seen (step i)) = set (in_seen i) \<union> set (ids_of L)" by (metis set_append set_mset_mset)
  have "examined f S' L' (step i) (step' (step i))"
  proof -
    have "set pre' \<subseteq> set (in_seen (step i))" "distinct (ids_of L')" "set (ids_of L') \<inter> set (in_seen (step i)) = {}"
      using i(2-4) assms(3) unfolding s by auto
    then show ?thesis using assms(2) t unfolding runs_def by blast
  qed
  with 1 show "examined f (S @ S') (L @ L') i (step' (step i))" unfolding examined_def by fastforce
qed

lemma runs_id: "runs m f (\<lambda>i. i) pre [] []"
  by (simp add: runs_def examined_def)

lemma runs_more: "runs m f step pre S L \<Longrightarrow> set pre \<subseteq> set pre' \<Longrightarrow> runs m f step pre' S L"
  by (auto simp: runs_def)

lemma runs_fold:
  assumes "\<And>x. x \<in> set xs \<Longrightarrow> runs m f (step x) (pre x) (S x) (L x)"
  shows "runs m f (fold step xs) (concat (map pre xs)) (concat (map S xs)) (concat (map L xs))"
  using assms
proof (induction xs)
  case Nil
  show ?case using runs_id by (simp add: id_def)
next
  case (Cons x xs)
  let ?pre = "concat (map pre (x # xs))"
  have "runs m f (step x) ?pre (S x) (L x)" by (rule runs_more) (use Cons.prems in auto)
  from runs_seq [OF this Cons.IH] Cons.prems show ?case by (simp add: o_def) auto
qed

lemma mset_concat_map: "mset L = mset L' \<Longrightarrow> mset (concat (map h L)) = mset (concat (map h L'))"
proof -
  have "mset (concat (map h L)) = sum_mset (image_mset (mset \<circ> h) (mset L))" for L
    by (induction L) auto
  then show "mset L = mset L' \<Longrightarrow> mset (concat (map h L)) = mset (concat (map h L'))" by simp
qed

lemma runs_perm:
  assumes "runs m f step pre S L" "mset L = mset L'"
  shows "runs m f step pre S L'"
proof -
  have ids: "mset (ids_of L) = mset (ids_of L')" unfolding ids_of_def by (rule mset_concat_map [OF assms(2)])
  have fs: "mset (concat (map (typed_findings m info f) L)) = mset (concat (map (typed_findings m info f) L'))" for info
    by (rule mset_concat_map [OF assms(2)])
  have "distinct (ids_of L) = distinct (ids_of L')" "set (ids_of L) = set (ids_of L')"
    using ids mset_eq_imp_distinct_iff mset_eq_setD by blast+
  then show ?thesis using assms(1) ids fs unfolding runs_def examined_def by metis
qed

section \<open>The inspector against the reference\<close>

text \<open>
  The literals that \<open>checkLiteral\<close> reaches from one, through elements that are literals
  themselves, and the other literals below it, which the walk finds.
\<close>

function chain :: "type_map \<Rightarrow> gnode option \<Rightarrow> gnode \<Rightarrow> (gnode \<times> gnode option) list" where
  "chain m expected n =
     (case gn_shape n of
        GLit ident ty lb rb elts \<Rightarrow> (n, own_or ty expected) # concat (map (\<lambda>p.
          chain m (expected_at m (own_or ty expected) (fst p) (snd p)) (element_value (snd p))) (enumerate 0 elts))
      | _ \<Rightarrow> [])"
  by pat_completeness auto
termination by (relation "measure (\<lambda>(m, e, n). size n)") (auto simp: enumerate_size)

function beside :: "type_map \<Rightarrow> gnode option \<Rightarrow> gnode \<Rightarrow> (gnode \<times> gnode option) list" where
  "beside m expected n =
     (case gn_shape n of
        GLit ident ty lb rb elts \<Rightarrow> concat (map (typed_literals m None) (type_exprs ty)) @ concat (map (\<lambda>p.
          concat (map (typed_literals m None) (element_keys (snd p)))
          @ beside m (expected_at m (own_or ty expected) (fst p) (snd p)) (element_value (snd p))) (enumerate 0 elts))
      | _ \<Rightarrow> concat (map (typed_literals m None) (children n)))"
  by pat_completeness auto
termination by (relation "measure (\<lambda>(m, e, n). size n)") (auto simp: enumerate_size)

declare chain.simps [simp del] beside.simps [simp del]

lemma mset_concat_split:
  "(\<And>x. x \<in> set xs \<Longrightarrow> mset (f x) = mset (g x) + mset (h x)) \<Longrightarrow>
    mset (concat (map f xs)) = mset (concat (map g xs)) + mset (concat (map h xs))"
  by (induction xs) auto

lemma typed_split: "mset (typed_literals m expected n) = mset (chain m expected n) + mset (beside m expected n)"
proof (induction "size n" arbitrary: expected n rule: less_induct)
  case less
  show ?case
  proof (cases "gn_shape n")
    case (GLit ident ty lb rb elts)
    let ?e = "\<lambda>p. expected_at m (own_or ty expected) (fst p) (snd p)" and ?v = "\<lambda>p. element_value (snd p)"
    have "mset (concat (map (\<lambda>p. concat (map (typed_literals m None) (element_keys (snd p))) @ typed_literals m (?e p) (?v p)) (enumerate 0 elts)))
      = mset (concat (map (\<lambda>p. chain m (?e p) (?v p)) (enumerate 0 elts)))
        + mset (concat (map (\<lambda>p. concat (map (typed_literals m None) (element_keys (snd p))) @ beside m (?e p) (?v p)) (enumerate 0 elts)))"
      using less enumerate_size(1) [OF _ GLit] by (intro mset_concat_split) simp
    then show ?thesis
      by (simp add: typed_literals.simps [of m expected n] chain.simps [of m expected n] beside.simps [of m expected n] GLit)
  qed (simp_all add: typed_literals.simps [of m expected n] chain.simps [of m expected n] beside.simps [of m expected n])
qed

lemma typed_ids: "mset (ids_of (typed_literals m expected n)) = mset (literal_ids n)"
proof (induction "size n" arbitrary: expected n rule: less_induct)
  case less
  have under: "mset (ids_of (concat (map g xs))) = mset (concat (map h xs))"
    if "\<And>x. x \<in> set xs \<Longrightarrow> mset (ids_of (g x)) = mset (h x)" for g :: "'x \<Rightarrow> _" and h xs
    using that by (induction xs) auto
  have below: "literal_ids n = literal_id n @ concat (map literal_ids (children n))" for n
  proof -
    have "concat (map literal_id (concat (map preorder xs))) = concat (map literal_ids xs)" for xs
      by (induction xs) (simp_all add: literal_ids_def)
    then show ?thesis by (simp add: literal_ids_def preorder.simps [of n])
  qed
  have free: "mset (ids_of (concat (map (typed_literals m None) xs))) = mset (concat (map literal_ids xs))"
    if "\<And>x. x \<in> set xs \<Longrightarrow> size x < size n" for xs
    by (rule under) (use less that in auto)
  show ?case
  proof (cases "gn_shape n")
    case (GLit ident ty lb rb elts)
    let ?g = "\<lambda>p. concat (map (typed_literals m None) (element_keys (snd p)))
              @ typed_literals m (expected_at m (own_or ty expected) (fst p) (snd p)) (element_value (snd p))"
    have parts: "literal_ids e = concat (map literal_ids (element_keys e)) @ literal_ids (element_value e)" for e
      by (cases "gn_shape e")
        (use below [of e] in \<open>simp_all add: element_keys_def element_value_def children_def literal_id_def\<close>)
    have "mset (ids_of (?g p)) = mset (literal_ids (snd p))" if p: "p \<in> set (enumerate 0 elts)" for p
      using free [OF enumerate_size(2) [OF p GLit]] less [OF enumerate_size(1) [OF p GLit]] parts [of "snd p"]
      by simp
    then have "mset (ids_of (concat (map ?g (enumerate 0 elts)))) = mset (concat (map (literal_ids \<circ> snd) (enumerate 0 elts)))"
      by (intro under) simp
    also have "map (literal_ids \<circ> snd) (enumerate 0 elts) = map literal_ids elts"
      by (simp flip: map_map)
    finally have el: "mset (ids_of (concat (map ?g (enumerate 0 elts)))) = mset (concat (map literal_ids elts))" .
    have ty: "mset (ids_of (concat (map (typed_literals m None) (type_exprs ty)))) = mset (concat (map literal_ids (type_exprs ty)))"
      by (rule free) (rule type_expr_size [OF _ GLit])
    have "children n = type_exprs ty @ elts" by (simp add: children_def GLit type_exprs_def split: option.split)
    then show ?thesis using el ty
      by (simp add: typed_literals.simps [of m expected n] GLit below [of n])
  qed (use free [OF children_size] in \<open>simp_all add: typed_literals.simps [of m expected n] below [of n] literal_id_def\<close>)
qed

lemma runs_cong:
  assumes "runs m f step pre S L"
    and "\<And>i. in_types i = m \<Longrightarrow> set pre \<subseteq> set (in_seen i) \<Longrightarrow> set (ids_of L) \<inter> set (in_seen i) = {} \<Longrightarrow> step' i = step i"
  shows "runs m f step' pre S L"
  using assms unfolding runs_def by auto

lemma runs_check: "runs m f (check_literal f n expected) [] [] (chain m expected n)"
proof (induction "size n" arbitrary: expected n rule: less_induct)
  case less
  show ?case
  proof (cases "gn_shape n")
    case (GLit ident ty lb rb elts)
    let ?own = "own_or ty expected"
    let ?step = "\<lambda>p. check_literal f (element_value (snd p)) (expected_at m ?own (fst p) (snd p))"
    let ?first = "\<lambda>i. add_findings (typed_findings (in_types i) (in_info i) f (n, ?own)) (i\<lparr>in_seen := in_seen i @ [ident]\<rparr>)"
    let ?chains = "concat (map (\<lambda>p. chain m (expected_at m ?own (fst p) (snd p)) (element_value (snd p))) (enumerate 0 elts))"
    have chain: "chain m expected n = [(n, ?own)] @ ?chains" by (simp add: chain.simps [of m expected n] GLit)
    have first: "runs m f ?first [] [] [(n, ?own)]"
      by (simp add: runs_def examined_def add_findings_def literal_id_def GLit)
    have "runs m f (fold ?step (enumerate 0 elts)) (concat (map (\<lambda>p. []) (enumerate 0 elts)))
      (concat (map (\<lambda>p. []) (enumerate 0 elts))) ?chains"
      by (rule runs_fold) (use less enumerate_size(1) [OF _ GLit] in blast)
    then have "runs m f (fold ?step (enumerate 0 elts)) [] [] ?chains" by (simp add: map_replicate_const)
    from runs_seq [OF first this] have "runs m f (\<lambda>i. fold ?step (enumerate 0 elts) (?first i)) [] [] (chain m expected n)"
      by (simp add: chain)
    then show ?thesis
    proof (rule runs_cong)
      fix i :: inspector assume i: "in_types i = m" "set (ids_of (chain m expected n)) \<inter> set (in_seen i) = {}"
      have new: "ident \<notin> set (in_seen i)" using i(2) by (simp add: chain literal_id_def GLit)
      have own: "(case ty of None \<Rightarrow> expected | Some t \<Rightarrow> Some t) = ?own" by (simp add: own_or_def)
      have step: "(\<lambda>(k, e). check_literal f (element_value e) (element_type m ?own k e)) = ?step"
        by (simp add: fun_eq_iff element_type_expected)
      show "check_literal f n expected i = fold ?step (enumerate 0 elts) (?first i)"
        using new by (simp add: check_literal.simps [of f n] GLit own typed_findings_def i(1) Let_def flip: step)
    qed
  qed (simp_all add: runs_def examined_def check_literal.simps [of f n] chain.simps [of m expected n])
qed

text \<open>The walk over a tree whose chain has been checked.\<close>

lemma walk_parts: "fold (inspect_node f) (concat (map preorder xs)) = fold (\<lambda>c. fold (inspect_node f) (preorder c)) xs"
  by (induction xs) simp_all

lemma fold_grows:
  "(\<And>x s. x \<in> set xs \<Longrightarrow> set (in_seen s) \<subseteq> set (in_seen (step x s))) \<Longrightarrow> set (in_seen i) \<subseteq> set (in_seen (fold step xs i))"
proof (induction xs arbitrary: i)
  case (Cons x xs)
  have "set (in_seen i) \<subseteq> set (in_seen (step x i))" by (rule Cons.prems) simp
  also have "\<dots> \<subseteq> set (in_seen (fold step xs (step x i)))" by (rule Cons.IH) (rule Cons.prems, simp)
  finally show ?case by simp
qed simp

lemma check_literal_grows: "set (in_seen i) \<union> set (literal_id n) \<subseteq> set (in_seen (check_literal f n expected i))"
proof (induction f n expected i rule: check_literal.induct)
  case (1 f n expected i)
  show ?case
  proof (cases "gn_shape n")
    case (GLit ident ty lb rb elts)
    show ?thesis
    proof (cases "ident \<in> set (in_seen i)")
      case False
      define u where "u = (case ty of None \<Rightarrow> expected | Some t \<Rightarrow> Some t)"
      define own where "own = literal_findings f (struct_literal (in_types i) (in_info i ident) u elts) lb rb elts"
      let ?step = "\<lambda>(k, e). check_literal f (element_value e) (element_type (in_types i) u k e)"
      let ?first = "add_findings own (i\<lparr>in_seen := in_seen i @ [ident]\<rparr>)"
      have "set (in_seen s) \<subseteq> set (in_seen (?step p s))" if "p \<in> set (enumerate 0 elts)" for p s
        using 1 [OF GLit False refl refl refl that] unfolding u_def own_def by (cases p) auto
      then have "set (in_seen ?first) \<subseteq> set (in_seen (fold ?step (enumerate 0 elts) ?first))" by (rule fold_grows)
      moreover have "check_literal f n expected i = fold ?step (enumerate 0 elts) ?first"
        using False by (simp add: check_literal.simps [of f n] GLit Let_def u_def own_def)
      ultimately show ?thesis by (simp add: add_findings_def literal_id_def GLit)
    qed (simp add: check_literal.simps [of f n] GLit literal_id_def)
  qed (simp_all add: check_literal.simps [of f n] literal_id_def)
qed

lemma ids_of_concat: "ids_of (concat (map g xs)) = concat (map (\<lambda>x. ids_of (g x)) xs)"
  by (induction xs) simp_all

definition structs_in :: "gnode \<Rightarrow> gnode list" where
  "structs_in n = filter is_struct_node (preorder n)"

lemma structs_in_children: "structs_in n = filter is_struct_node [n] @ concat (map structs_in (children n))"
proof -
  have "filter is_struct_node (concat (map preorder xs)) = concat (map structs_in xs)" for xs
    by (induction xs) (simp_all add: structs_in_def)
  then show ?thesis by (simp add: structs_in_def preorder.simps [of n])
qed

text \<open>An element is walked over as its key and its value.\<close>

lemma element_walk:
  "fold (inspect_node f) (preorder e) i = fold (inspect_node f) (preorder (element_value e))
     (fold (\<lambda>c. fold (inspect_node f) (preorder c)) (element_keys e) i)"
  "structs_in e = concat (map structs_in (element_keys e)) @ structs_in (element_value e)"
proof -
  show "fold (inspect_node f) (preorder e) i = fold (inspect_node f) (preorder (element_value e))
     (fold (\<lambda>c. fold (inspect_node f) (preorder c)) (element_keys e) i)"
  proof (cases "gn_shape e")
    case (GPair k v)
    then have "preorder e = e # preorder k @ preorder v" "inspect_node f e i = i"
      by (simp_all add: preorder.simps [of e] children_def inspect_node_def)
    then show ?thesis using GPair by (simp add: element_keys_def element_value_def)
  qed (simp_all add: element_keys_def element_value_def)
  show "structs_in e = concat (map structs_in (element_keys e)) @ structs_in (element_value e)"
    by (cases "gn_shape e")
      (use structs_in_children [of e] in \<open>simp_all add: element_keys_def element_value_def children_def is_struct_node_def\<close>)
qed

lemma runs_free:
  assumes "\<And>x. runs m f (fold (inspect_node f) (preorder c)) (ids_of (chain m x c)) (structs_in c) (beside m x c)"
  shows "runs m f (fold (inspect_node f) (preorder c)) [] (structs_in c) (typed_literals m None c)"
proof (cases "\<exists>ident ty lb rb elts. gn_shape c = GLit ident ty lb rb elts")
  case False
  then have "chain m None c = []" "typed_literals m None c = beside m None c"
    by (cases "gn_shape c"; simp add: chain.simps [of m None c] beside.simps [of m None c] typed_literals.simps [of m None c])+
  then show ?thesis using assms [of None] by simp
next
  case True
  then obtain ident ty lb rb elts where GLit: "gn_shape c = GLit ident ty lb rb elts" by blast
  let ?walk = "fold (inspect_node f) (preorder c)"
  have own: "own_or ty (literal_type c) = own_or ty None"
    by (simp add: own_or_def literal_type_def GLit split: option.split)
  have same: "chain m (literal_type c) c = chain m None c"
    by (simp add: chain.simps [of m _ c] GLit own)
  have check: "runs m f (check_literal f c (literal_type c)) [] [] (chain m None c)"
    using runs_check [of m f c "literal_type c"] by (simp add: same)
  have walk: "runs m f ?walk (ids_of (chain m None c)) (structs_in c) (beside m None c)" by (rule assms)
  have both: "runs m f (\<lambda>i. ?walk (check_literal f c (literal_type c) i)) [] (structs_in c) (chain m None c @ beside m None c)"
    using runs_seq [OF check walk] by simp
  have pre: "preorder c = c # concat (map preorder (children c))" by (rule preorder.simps)
  have once: "inspect_node f c (check_literal f c (literal_type c) i) = check_literal f c (literal_type c) i" for i
  proof -
    have "ident \<in> set (in_seen (check_literal f c (literal_type c) i))"
      using check_literal_grows [of i c f "literal_type c"] by (simp add: literal_id_def GLit)
    then show ?thesis by (simp add: inspect_node_def GLit check_literal.simps [of f c])
  qed
  have "?walk i = ?walk (check_literal f c (literal_type c) i)" for i
    unfolding pre fold_simps once by (simp add: inspect_node_def GLit)
  then have "runs m f ?walk [] (structs_in c) (chain m None c @ beside m None c)" using both by simp
  then show ?thesis by (rule runs_perm) (simp add: typed_split)
qed

text \<open>The walk over a tree whose chain has been checked.\<close>

lemma runs_walk:
  "runs m f (fold (inspect_node f) (preorder n)) (ids_of (chain m expected n)) (structs_in n) (beside m expected n)"
proof (induction "size n" arbitrary: expected n rule: less_induct)
  case less
  let ?walk = "\<lambda>n. fold (inspect_node f) (preorder n)"
  have free: "runs m f (?walk c) [] (structs_in c) (typed_literals m None c)" if "size c < size n" for c
    by (rule runs_free) (rule less [OF that])
  have frees: "runs m f (fold ?walk xs) [] (concat (map structs_in xs)) (concat (map (typed_literals m None) xs))"
    if "\<And>x. x \<in> set xs \<Longrightarrow> size x < size n" for xs
  proof -
    have "runs m f (fold ?walk xs) (concat (map (\<lambda>x. []) xs)) (concat (map structs_in xs)) (concat (map (typed_literals m None) xs))"
      by (rule runs_fold) (rule free, rule that)
    then show ?thesis by (simp add: map_replicate_const)
  qed
  have walk: "?walk n i = fold ?walk (children n) (inspect_node f n i)" for i
    by (simp add: preorder.simps [of n] walk_parts)
  show ?case
  proof (cases "\<exists>ident ty lb rb elts. gn_shape n = GLit ident ty lb rb elts")
    case False
    then have c: "chain m expected n = []" "beside m expected n = concat (map (typed_literals m None) (children n))"
      by (cases "gn_shape n"; simp add: chain.simps [of m expected n] beside.simps [of m expected n])+
    have "runs m f (inspect_node f n) [] (filter is_struct_node [n]) []"
      using False by (cases "gn_shape n")
        (simp_all add: runs_def examined_def inspect_node_def check_definition_def add_findings_def struct_findings_def is_struct_node_def)
    from runs_seq [OF this frees [of "children n", OF children_size]]
    have "runs m f (\<lambda>i. fold ?walk (children n) (inspect_node f n i)) [] (structs_in n) ([] @ beside m expected n)"
      by (simp only: c structs_in_children [of n] list.set empty_subsetI)
    moreover have "?walk n = (\<lambda>i. fold ?walk (children n) (inspect_node f n i))" by (rule ext) (rule walk)
    ultimately show ?thesis by (simp only: c(1) ids_of_simps append_Nil)
  next
    case True
    then obtain ident ty lb rb elts where GLit: "gn_shape n = GLit ident ty lb rb elts" by blast
    let ?e = "\<lambda>p. expected_at m (own_or ty expected) (fst p) (snd p)" and ?v = "\<lambda>p. element_value (snd p)"
    let ?pre = "ids_of (chain m expected n)"
    have pre: "?pre = ident # concat (map (\<lambda>p. ids_of (chain m (?e p) (?v p))) (enumerate 0 elts))"
      by (simp add: chain.simps [of m expected n] GLit literal_id_def ids_of_concat)
    have types: "runs m f (fold ?walk (type_exprs ty)) ?pre (concat (map structs_in (type_exprs ty)))
        (concat (map (typed_literals m None) (type_exprs ty)))"
      by (rule runs_more [OF frees]) (auto intro: type_expr_size [OF _ GLit])
    have element: "runs m f (?walk (snd p)) (ids_of (chain m (?e p) (?v p))) (structs_in (snd p))
        (concat (map (typed_literals m None) (element_keys (snd p))) @ beside m (?e p) (?v p))"
      if p: "p \<in> set (enumerate 0 elts)" for p
    proof -
      have keys: "runs m f (fold ?walk (element_keys (snd p))) (ids_of (chain m (?e p) (?v p)))
          (concat (map structs_in (element_keys (snd p)))) (concat (map (typed_literals m None) (element_keys (snd p))))"
        by (rule runs_more [OF frees]) (auto intro: enumerate_size(2) [OF p GLit])
      have "?walk (snd p) = (\<lambda>i. ?walk (?v p) (fold ?walk (element_keys (snd p)) i))" by (rule ext) (rule element_walk(1))
      then show ?thesis unfolding element_walk(2) [of "snd p"]
        by (simp only:) (rule runs_seq [OF keys less [OF enumerate_size(1) [OF p GLit]]], simp)
    qed
    let ?below = "concat (map (\<lambda>p. concat (map (typed_literals m None) (element_keys (snd p))) @ beside m (?e p) (?v p)) (enumerate 0 elts))"
    have "runs m f (fold (\<lambda>p. ?walk (snd p)) (enumerate 0 elts)) (concat (map (\<lambda>p. ids_of (chain m (?e p) (?v p))) (enumerate 0 elts)))
        (concat (map (\<lambda>p. structs_in (snd p)) (enumerate 0 elts))) ?below"
      by (rule runs_fold) (rule element)
    moreover have "fold (\<lambda>p. ?walk (snd p)) ps = fold ?walk (map snd ps)" for ps :: "(nat \<times> gnode) list"
      by (induction ps) simp_all
    moreover have "map (\<lambda>p. structs_in (snd p)) (enumerate 0 elts) = map structs_in (map snd (enumerate 0 elts))"
      by (simp only: map_map o_def)
    ultimately have elements: "runs m f (fold ?walk elts) (concat (map (\<lambda>p. ids_of (chain m (?e p) (?v p))) (enumerate 0 elts)))
        (concat (map structs_in elts)) ?below"
      by (simp only: map_snd_enumerate)
    have kids: "children n = type_exprs ty @ elts" by (simp add: children_def GLit type_exprs_def split: option.split)
    have beside: "beside m expected n = concat (map (typed_literals m None) (type_exprs ty)) @ ?below"
      by (simp add: beside.simps [of m expected n] GLit)
    have structs: "structs_in n = concat (map structs_in (type_exprs ty)) @ concat (map structs_in elts)"
      by (simp add: structs_in_children [of n] kids is_struct_node_def GLit)
    have "runs m f (\<lambda>i. fold ?walk elts (fold ?walk (type_exprs ty) i)) ?pre (structs_in n) (beside m expected n)"
      unfolding structs beside by (rule runs_seq [OF types elements]) (auto simp: pre)
    then show ?thesis
    proof (rule runs_cong)
      fix i :: inspector assume "set ?pre \<subseteq> set (in_seen i)"
      then have "ident \<in> set (in_seen i)" by (simp add: pre)
      then have "inspect_node f n i = i" by (simp add: inspect_node_def GLit check_literal.simps [of f n])
      then show "?walk n i = fold ?walk elts (fold ?walk (type_exprs ty) i)" by (simp add: walk kids)
    qed
  qed
qed

lemma runs_root: "runs m f (fold (inspect_node f) (preorder n)) [] (structs_in n) (typed_literals m None n)"
  by (rule runs_free) (rule runs_walk)

text \<open>
  What the checker asks of a struct definition and of a literal: braces on lines of their own,
  and every field or element begins on another line than the one where the one before ends.
\<close>

definition struct_laid_out :: "gnode \<Rightarrow> bool" where
  "struct_laid_out n \<longleftrightarrow> (case gn_shape n of
     GStruct closing fs \<Rightarrow> fs = [] \<or>
       gn_line n \<noteq> gf_line (hd fs) \<and> gf_end (List.last fs) \<noteq> closing \<and> gf_line (hd fs) \<noteq> 0
       \<and> (\<forall>x \<in> set fs. length (gf_names x) \<le> 1)
       \<and> (\<forall>k. Suc k < length fs \<longrightarrow> gf_line (fs ! Suc k) \<noteq> gf_end (fs ! k))
   | _ \<Rightarrow> True)"

definition literal_laid_out :: "gnode \<Rightarrow> bool" where
  "literal_laid_out n \<longleftrightarrow> (case gn_shape n of
     GLit ident ty lb rb elts \<Rightarrow> elts = [] \<or>
       lb \<noteq> gn_line (hd elts) \<and> rb \<noteq> gn_end (List.last elts) \<and> gn_line (hd elts) \<noteq> 0
       \<and> (\<forall>k. Suc k < length elts \<longrightarrow> gn_line (elts ! Suc k) \<noteq> gn_end (elts ! k))
   | _ \<Rightarrow> True)"

definition of_struct :: "type_map \<Rightarrow> (nat \<Rightarrow> bool option) \<Rightarrow> gnode \<times> gnode option \<Rightarrow> bool" where
  "of_struct m info p \<longleftrightarrow> (case gn_shape (fst p) of
     GLit ident ty lb rb elts \<Rightarrow> struct_literal m (info ident) (snd p) elts | _ \<Rightarrow> False)"

lemma element_findings_iff:
  "element_findings f prev es = [] \<longleftrightarrow> (es \<noteq> [] \<longrightarrow> gn_line (hd es) \<noteq> prev)
     \<and> (\<forall>k. Suc k < length es \<longrightarrow> gn_line (es ! Suc k) \<noteq> gn_end (es ! k))"
proof (induction es arbitrary: prev)
  case (Cons x es)
  have "(\<forall>k. Suc k < length (x # es) \<longrightarrow> gn_line ((x # es) ! Suc k) \<noteq> gn_end ((x # es) ! k))
    \<longleftrightarrow> (es \<noteq> [] \<longrightarrow> gn_line (hd es) \<noteq> gn_end x)
      \<and> (\<forall>k. Suc k < length es \<longrightarrow> gn_line (es ! Suc k) \<noteq> gn_end (es ! k))"
  proof -
    have "(\<forall>k. Q k) \<longleftrightarrow> Q 0 \<and> (\<forall>k. Q (Suc k))" for Q :: "nat \<Rightarrow> bool" by (metis nat.exhaust)
    from this [of "\<lambda>k. Suc k < length (x # es) \<longrightarrow> gn_line ((x # es) ! Suc k) \<noteq> gn_end ((x # es) ! k)"]
    show ?thesis by (auto simp: hd_conv_nth)
  qed
  then show ?case using Cons [of "gn_end x"] by auto
qed simp

lemma struct_findings_iff: "struct_findings f n = [] \<longleftrightarrow> struct_laid_out n"
  by (cases "gn_shape n") (simp_all add: struct_findings_def struct_laid_out_def definition_findings_def field_findings_iff, blast)

lemma typed_findings_iff: "typed_findings m info f p = [] \<longleftrightarrow> (of_struct m info p \<longrightarrow> literal_laid_out (fst p))"
proof (cases "gn_shape (fst p)")
  case (GLit ident ty lb rb elts)
  then show ?thesis
    by (auto simp: typed_findings_def literal_laid_out_def of_struct_def literal_findings_def element_findings_iff)
qed (simp_all add: typed_findings_def of_struct_def)

text \<open>
  C40. What the inspection of a file finds. If the literals of the file are distinct and new to the
  inspector, its findings are those of the struct definitions of the file and of its literals,
  each once and each literal with the type that one pass from the top gives it, wherever the
  inspector reached it first; every literal is recorded as seen, once; and the file is passed
  without a finding exactly when all its struct definitions, and all literals that have a
  struct type at their place, are laid out as asked.
\<close>

theorem inspect_file_once:
  assumes "distinct (literal_ids root)" "set (literal_ids root) \<inter> set (in_seen i) = {}"
  shows "(\<exists>found. in_found (inspect_file (f, root) i) = in_found i @ found
        \<and> mset found = mset (file_findings (in_types i) (in_info i) f root))
    \<and> mset (in_seen (inspect_file (f, root) i)) = mset (in_seen i) + mset (literal_ids root)
    \<and> (in_found (inspect_file (f, root) i) = in_found i \<longleftrightarrow>
        (\<forall>n \<in> set (preorder root). struct_laid_out n)
        \<and> (\<forall>p \<in> set (typed_literals (in_types i) None root). of_struct (in_types i) (in_info i) p \<longrightarrow> literal_laid_out (fst p)))"
proof -
  let ?m = "in_types i" and ?j = "inspect_file (f, root) i"
  note ids = typed_ids [of ?m None root]
  have "distinct (ids_of (typed_literals ?m None root))" "set (ids_of (typed_literals ?m None root)) = set (literal_ids root)"
    using assms(1) mset_eq_imp_distinct_iff [OF ids] mset_eq_setD [OF ids] by simp_all
  then have ex: "examined f (structs_in root) (typed_literals ?m None root) i ?j"
    using runs_root [of ?m f root] assms(2) unfolding runs_def inspect_file_def by simp
  have "struct_findings f n = []" if "\<not> is_struct_node n" for n
    using that by (simp add: struct_findings_def is_struct_node_def split: gshape.splits)
  then have structs: "concat (map (struct_findings f) (filter is_struct_node ns)) = concat (map (struct_findings f) ns)" for ns
    by (induction ns) auto
  obtain found where found: "in_found ?j = in_found i @ found" "mset found = mset (file_findings ?m (in_info i) f root)"
    using ex by (auto simp: examined_def file_findings_def structs_in_def structs)
  have "in_found ?j = in_found i \<longleftrightarrow> file_findings ?m (in_info i) f root = []"
    using found by (metis append_self_conv mset_zero_iff)
  also have "\<dots> \<longleftrightarrow> (\<forall>n \<in> set (preorder root). struct_laid_out n)
        \<and> (\<forall>p \<in> set (typed_literals ?m None root). of_struct ?m (in_info i) p \<longrightarrow> literal_laid_out (fst p))"
    by (simp add: file_findings_def struct_findings_iff typed_findings_iff)
  finally have "in_found ?j = in_found i \<longleftrightarrow> \<dots>" .
  then show ?thesis using found ex ids by (auto simp: examined_def)
qed

section \<open>Order and exports\<close>

lemma sort_findings_mset: "mset (sort_findings fs) = mset fs"
  by (simp add: sort_findings_def)

lemma sort_findings_sorted: "sorted (map fd_file (sort_findings fs))"
  by (simp add: sort_findings_def)

text \<open>
  The struct that receives the packages is declared before the loop, so a package without an
  export has the export of the package before it.
\<close>

theorem stale_export:
  "map_of (package_exports [\<lparr>ls_path = Some ''a'', ls_export = Some ''a.x''\<rparr>, \<lparr>ls_path = Some ''b'', ls_export = None\<rparr>]) ''b''
    = Some ''a.x''"
  by (simp add: package_exports_def mput_def Let_def)

section \<open>An example\<close>

text \<open>A literal without a type, inside another: on one line with its element's end.\<close>

definition nested_literal :: gnode where
  "nested_literal = GNode 1 5 (GLit 1 (Some (GNode 1 1 (GIdent ''ts''))) 1 5
     [GNode 2 4 (GLit 2 None 2 4 [GNode 3 4 (GOther [])])])"

definition sample_inspector :: inspector where
  "sample_inspector = new_inspector\<lparr>in_types :=
     [''ts'' \<mapsto> GNode 7 7 (GArray [] (GNode 7 7 (GIdent ''t''))), ''t'' \<mapsto> GNode 8 10 (GStruct 10 [])]\<rparr>"

theorem inspect_file_once_witness:
  "in_found (inspect_file (''f'', nested_literal) sample_inspector)
     = [report ''f'' 2 ''nonempty struct literal must use separate lines'']
   \<and> mset (in_seen (inspect_file (''f'', nested_literal) sample_inspector)) = {#1, 2#}"
proof -
  have n: "distinct (literal_ids nested_literal)" "set (literal_ids nested_literal) \<inter> set (in_seen sample_inspector) = {}"
    "literal_ids nested_literal = [1, 2]" "in_found sample_inspector = []" "in_seen sample_inspector = []"
    by code_simp+
  have "file_findings (in_types sample_inspector) (in_info sample_inspector) ''f'' nested_literal
      = [report ''f'' 2 ''nonempty struct literal must use separate lines'']" by code_simp
  with inspect_file_once [OF n(1,2), of "''f''"] show ?thesis
    by (simp add: n(3-5))
qed

end
