(* ===== verification/Spec2Isabelle.thy ===== *)
theory Spec2Isabelle
  imports IdeStreamModes LoginMachine AuthCancel HttpCorrect Command GateMachine AuthGet WriterLock CheckerCorrect
begin

text \<open>
  Trae API, a gateway that serves the OpenAI chat completions interface from a Trae account.
  Two services make one program: the API (\<open>http.go\<close>, \<open>main.go\<close>, \<open>types.go\<close>, \<open>models.go\<close>,
  \<open>upstream.go\<close>) answers chat requests with the credential it finds on the disk, and the
  auth service (\<open>auth.go\<close>, \<open>auth_service.go\<close>, \<open>credential_store.go\<close>) is the only writer of
  that credential: it logs in through the browser and refreshes. The login command
  (\<open>login_cli.go\<close>) is a client of the auth service. The two services share nothing but the file,
  so the development ties them together there: what Auth saves, the API reads.

  Conventions. Strings are the bytes of Go's, as lists of characters; integers of the JSON
  decoder are \<open>int\<close>, those whose width matters are words (\<open>GoText\<close>, the generation of the
  auth manager). An error is a value of \<open>gerror\<close> and a fallible function returns a sum, or the new
  state and an optional error. A method of a Go object takes its record and returns it. Maps
  are association lists, and where the code ranges over one, the order is a parameter. The
  clock, random identifiers, the server's answers, the failures of system calls, the readings of
  a context and the scheduling of goroutines are parameters; the readings of one section are
  numbered in program order.

  Shared: \<open>Prelude\<close> (errors, results, maps, the locale \<open>inductive_invariant\<close>), \<open>GoText\<close>
  (\<open>strings\<close>, \<open>strconv\<close>, UTF-8, number texts), \<open>GoURL\<close> (\<open>net/url\<close>, addresses), \<open>Json\<close> and
  \<open>JsonWrite\<close> (\<open>encoding/json\<close>), \<open>Transport\<close> (configuration, access credential, HTTP).

  The chat request. \<open>ChatTypes\<close> and \<open>HttpRequest\<close>: \<open>types.go\<close> and \<open>decodeBody\<close>; a request is
  accepted exactly when it satisfies \<open>request_ok\<close>, and its history exactly when it follows the
  abstract tool protocol. \<open>ApiValues\<close>, \<open>ModelCatalog\<close>: \<open>models.go\<close>; \<open>ModelCatalogCorrect\<close>
  shows that the routes are a function of the upstream's lists, that the cache keeps its bounds
  and returns what was stored, and that a listing ends with names that have a route.
  \<open>Upstream\<close>: the body sent and the turn; \<open>UpstreamCorrect\<close> has its limits, the translation
  of the tool protocol and the errors. \<open>IdeStream\<close>: \<open>readIDEStream\<close> with its accumulator;
  \<open>IdeStreamCorrect\<close> relates the deltas to the result and bounds it, \<open>IdeStreamModes\<close> relates
  the two modes and states what every successful answer satisfies in both. \<open>Gateway\<close>: \<open>execute\<close>, the queue and the end of the process;
  \<open>GatewayCorrect\<close> shows the order of its checks, that nothing is streamed before the model has
  a route, and where an answer comes from,
  \<open>GateMachine\<close> that the slots bound the concurrent requests. \<open>HttpStream\<close>,
  \<open>HttpStreamCorrect\<close>: \<open>streamSink\<close> and its heartbeat, and the order of all that is written.
  \<open>HttpApi\<close>, \<open>HttpCorrect\<close>: the handlers, whom the API serves and what a client reads.

  The credential. \<open>Credential\<close>, \<open>CredentialCorrect\<close>: its two decoders, each over the fields and
  names of its own struct, and the round trip of credentials whose strings are valid UTF-8;
  \<open>Utf8\<close> shows that what is written is valid UTF-8 then.
  \<open>CredStore\<close>: the file system calls of \<open>credential_store.go\<close> in their order, each of which may
  fail. \<open>CredStoreCorrect\<close> proves with triples that a save is atomic in every state between;
  \<open>CredQuarantine\<close> has quarantine and who holds which lock. A lock belongs to a file, not to its
  name: \<open>file_id\<close> tells a file from another that later has its name. \<open>WriterLock\<close> interleaves any
  number of processes with any configuration directories, between \<open>open\<close> and \<open>flock\<close> too, and
  proves one writer for each credential file, which rests on the sidecars never being removed.
  \<open>StoreInterface\<close> states what the auth
  manager needs of a store as a locale and interprets it on \<open>CredStore\<close>. \<open>AuthTokens\<close>: the
  exchange, expiry texts and JWT claims; \<open>AuthExchange\<close> says what it sends and keeps.
  \<open>AuthManager\<close>: the sections of \<open>auth.go\<close> under the mutex; \<open>AuthManagerCorrect\<close>: the fence
  before a refresh, the crash, logins and rejections; \<open>AuthCancel\<close>: the gap of a cancelled
  refresh; \<open>AuthGet\<close>: the loop of \<open>get\<close>, when it returns and the one case that keeps it
  going, and the refresh loop.
  \<open>AuthMachine\<close> and \<open>LoginMachine\<close> interleave the sections of any number of callers and prove
  single flight, no refresh after a failure, and the invariant of the login attempts.

  The login. \<open>LoginLink\<close>: the authorization link and its check. \<open>AuthService\<close>:
  \<open>auth_service.go\<close>; \<open>AuthServiceCorrect\<close>: whom it serves and how it ends. \<open>LoginCli\<close>,
  \<open>LoginCliCorrect\<close>: the command returns, what it asks, and when it succeeds. \<open>LoginFlow\<close>:
  command, service and browser callback together. \<open>Command\<close>: \<open>command.go\<close>, \<open>coordinator.go\<close>
  and how running both components ends. \<open>Checker\<close>, \<open>CheckerCorrect\<close>: the release checker
  \<open>tools/checker/main.go\<close>, what passes it, and that its findings are those of a reference
  that gives every literal of a file its type in one pass from the top.

  Bounds. The JSON parser recurses on fuel, twice the length of the text and two;
  \<open>parse_fuel_mono\<close> of \<open>Json\<close> shows that more fuel never changes the result. IPv6 literals use the length of the text. The ten steps of \<open>underlying\<close> are the
  code's. The loops of \<open>get\<close> and of the login command may run for ever, so they are partial
  functions, and their return is a theorem. All other recursion is structural or has a measure.

  Parameters with laws: the texts of times and of keys with the round trips of their codecs, the
  encoders of the OpenAI SDK where a client reads its values back, a file system whose calls fail
  or do what they say, and the order of a map's range as a permutation. Without laws: digests and
  signatures, the type checker, parser and file names of the release checker, the command line
  library, and what HTTP servers and listeners report.

  The paths of requests are escaped paths, as the guard of the auth service reads them; the
  routes compare unescaped segments, as the multiplexer does, so that the two can differ.

  Not modelled: the binary rounding of floating point numbers, and infinities, NaN and
  hexadecimal floats in expiry texts; the JSON nesting limit, the replacement of invalid UTF-8 by
  the decoder and the encoder (a round trip assumes valid UTF-8 where it matters) and the escapes of
  U+2028 and U+2029; the partly filled map that the decoder leaves beside a number out of range; case mapping and identifiers beyond ASCII; escapes inside time
  texts; the wording of errors of the library; the umask; percent escapes in hosts, unusual path
  escapes, user information and fragments of the authorization address; the multiplexer's
  redirects of paths that are not clean and its Allow header; array members given twice; what a JSON scanner says of a text
  cut off by the size limit; the HTML of the browser pages; the order of findings on one line;
  sockets, signals, timeouts of servers and log lines.
\<close>

end
